theory Spec2Isabelle
  imports Complex_Main
begin

section \<open>The Pubs client: connection lifecycle and message correlation\<close>

text \<open>
  This theory embeds the class \<open>Pubs\<close> of the pubsjs client: \<open>connect\<close> with its
  \<open>reconnector\<close> closure, \<open>connectStreamWebSocket\<close> with the three socket callbacks,
  \<open>sendStreamWebSocketPayload\<close>, \<open>pubsub\<close> and \<open>handleStreamWebSocketMessage\<close>.

  The source is callback driven. The embedding makes that explicit:
  \<^item> the instance's fields and the objects its closures keep alive form one record;
  \<^item> a timer is an entry of a timer table holding what its callback does, written as a
    value of the datatype \<open>task\<close>;
  \<^item> a promise is a stored status, and the callbacks attached with \<open>then\<close> are run at the
    place where the source settles the promise (every such place is the last statement of
    its callback, so the microtask runs next);
  \<^item> whatever the browser decides (the handshake's result, socket events, which timer
    fires, \<open>Math.random\<close>, whether a socket call throws) is an input.

  Counters are naturals, with the saturation of \<open>++\<close> on a double written out. The delay
  of a retry is computed by the source in double arithmetic, and so it is here: the
  options it is computed from and every delay handed to \<open>setTimeout\<close> are values of the
  type \<open>number\<close> below, and each product and sum is rounded to the nearest double. The
  timeouts that are only compared with zero and handed on are reals. URLs and the
  authorization header only travel to the browser and are left out of the state.
\<close>

subsection \<open>Data carried on the wire (models.ts)\<close>

record IStreamInfo =
  ref :: "string option"
  topics :: "string list option"

record IStreamEnvelope =
  type :: string
  state :: string
  info :: "IStreamInfo option"
  data :: "string option"

record IErrorWithCodeAndMessage =
  code :: string
  msg :: "string option"

record IStreamWebsocketConnectResponse =
  error :: "IErrorWithCodeAndMessage option"
  streamUrl :: "string option"

record IStreamReplyTimeoutRecord =
  resolve :: nat
  timeout :: nat

text \<open>
  What a promise is rejected with: an \<open>Error\<close> object with its message, a
  \<open>PubsDataError\<close> with code and message, a value thrown by the browser, the error event of
  a socket, or nothing at all (\<open>gateReject()\<close>).
\<close>

datatype failure =
    Error string
  | PubsDataError string string
  | Thrown string
  | ErrorEvent nat
  | Undefined

datatype 'a promise = Pending | Fulfilled 'a | Rejected failure

text \<open>The constructor of \<open>PubsDataError\<close>: a missing or empty message becomes \<open>''\<close>.\<close>

definition new_PubsDataError :: "IErrorWithCodeAndMessage \<Rightarrow> failure" where
  "new_PubsDataError d = PubsDataError (code d) (case msg d of None \<Rightarrow> [] | Some m \<Rightarrow> m)"

subsection \<open>JavaScript numbers\<close>

text \<open>
  A JavaScript number is an IEEE 754 double: a finite value, one of the two infinities, or
  \<open>NaN\<close>. The two zeros are one value here: the code divides by nothing, and nothing it
  does with a number tells \<open>-0\<close> from \<open>+0\<close>. A finite value is meant to be a double
  (\<open>is_double\<close>); the operations below return doubles on doubles.
\<close>

datatype number = Finite real | Infinity | MinusInfinity | NaN

text \<open>
  The binade of a magnitude, found by bisection: with \<open>k\<close> steps left, the result is the
  largest \<open>e'\<close> from \<open>e\<close> up to, but not reaching, \<open>e + 2^k\<close> with \<open>2^e' \<le> x\<close>, and
  \<open>e\<close> itself for a magnitude below \<open>2^e\<close>. The exponent of a double lies between
  \<open>-1022\<close> (also for subnormal numbers) and \<open>1023\<close>; the eleven steps from \<open>-1022\<close>
  reach \<open>1025\<close>, and a magnitude from \<open>2^1024\<close> on rounds to an infinity below.
\<close>

fun binade :: "nat \<Rightarrow> int \<Rightarrow> real \<Rightarrow> int" where
  "binade 0 e x = e"
| "binade (Suc k) e x =
     (if 2 powi (e + 2 ^ k) \<le> x then binade k (e + 2 ^ k) x else binade k e x)"

definition exponent :: "real \<Rightarrow> int" where
  "exponent x = binade 11 (- 1022) \<bar>x\<bar>"

text \<open>The distance between neighbouring doubles around \<open>x\<close>: 52 bits below its exponent.\<close>

definition quantum :: "real \<Rightarrow> real" where
  "quantum x = 2 powi (exponent x - 52)"

text \<open>Rounding to the nearest integer, a tie going to the even one.\<close>

definition round_half_even :: "real \<Rightarrow> int" where
  "round_half_even t =
     (let f = \<lfloor>t\<rfloor>
      in if t - of_int f < 1 / 2 then f
         else if 1 / 2 < t - of_int f then f + 1
         else if even f then f else f + 1)"

text \<open>
  The result of an arithmetic operation whose exact value is \<open>x\<close>: the nearest multiple
  of the quantum (ties to even), and an infinity when that reaches \<open>2^1024\<close>.
\<close>

definition nearest :: "real \<Rightarrow> real" where
  "nearest x = of_int (round_half_even (x / quantum x)) * quantum x"

definition round_double :: "real \<Rightarrow> number" where
  "round_double x =
     (let y = nearest x
      in if 2 powi 1024 \<le> y then Infinity
         else if y \<le> - (2 powi 1024) then MinusInfinity
         else Finite y)"

definition is_double :: "real \<Rightarrow> bool" where
  "is_double x = (round_double x = Finite x)"

text \<open>The sign of a number that is not \<open>NaN\<close>.\<close>

definition signum :: "number \<Rightarrow> real" where
  "signum a = (case a of Finite x \<Rightarrow> sgn x | Infinity \<Rightarrow> 1 | MinusInfinity \<Rightarrow> - 1 | NaN \<Rightarrow> 0)"

text \<open>\<open>a * b\<close>: an infinity times zero is \<open>NaN\<close>.\<close>

definition js_mul :: "number \<Rightarrow> number \<Rightarrow> number" where
  "js_mul a b =
     (if a = NaN \<or> b = NaN then NaN
      else case (a, b) of
             (Finite x, Finite y) \<Rightarrow> round_double (x * y)
           | _ \<Rightarrow>
               if signum a * signum b = 0 then NaN
               else if 0 < signum a * signum b then Infinity else MinusInfinity)"

text \<open>\<open>a + b\<close>: the sum of the two infinities of opposite sign is \<open>NaN\<close>.\<close>

definition js_add :: "number \<Rightarrow> number \<Rightarrow> number" where
  "js_add a b =
     (if a = NaN \<or> b = NaN then NaN
      else case (a, b) of
             (Finite x, Finite y) \<Rightarrow> round_double (x + y)
           | (Finite x, _) \<Rightarrow> b
           | (_, Finite y) \<Rightarrow> a
           | _ \<Rightarrow> if a = b then a else NaN)"

text \<open>\<open>a > b\<close>: false when either side is \<open>NaN\<close>.\<close>

definition js_gt :: "number \<Rightarrow> number \<Rightarrow> bool" where
  "js_gt a b =
     (case (a, b) of
        (Finite x, Finite y) \<Rightarrow> y < x
      | (Finite x, MinusInfinity) \<Rightarrow> True
      | (Infinity, Finite y) \<Rightarrow> True
      | (Infinity, MinusInfinity) \<Rightarrow> True
      | _ \<Rightarrow> False)"

text \<open>
  \<open>Math.trunc\<close> rounds towards zero and \<open>Math.floor\<close> downwards; both leave an infinity
  and \<open>NaN\<close> as they are. The integer part of a double is a double.
\<close>

definition trunc :: "real \<Rightarrow> int" where
  "trunc x = (if 0 \<le> x then \<lfloor>x\<rfloor> else \<lceil>x\<rceil>)"

definition Math_trunc :: "number \<Rightarrow> number" where
  "Math_trunc a = (case a of Finite x \<Rightarrow> Finite (of_int (trunc x)) | _ \<Rightarrow> a)"

definition Math_floor :: "number \<Rightarrow> number" where
  "Math_floor a = (case a of Finite x \<Rightarrow> Finite (of_int \<lfloor>x\<rfloor>) | _ \<Rightarrow> a)"

text \<open>
  \<open>Math.pow\<close> returns an approximation that the language leaves to the engine, so its
  value is asked of the browser (see \<open>browser\<close> below). This is the answer of an engine
  whose \<open>Math.pow\<close> is correctly rounded, for the exponents the code passes (the attempt
  counter).
\<close>

definition exact_pow :: "number \<Rightarrow> nat \<Rightarrow> number" where
  "exact_pow a n =
     (if n = 0 then Finite 1
      else case a of
             Finite x \<Rightarrow> round_double (x ^ n)
           | Infinity \<Rightarrow> Infinity
           | MinusInfinity \<Rightarrow> (if even n then Infinity else MinusInfinity)
           | NaN \<Rightarrow> NaN)"

subsection \<open>Configuration (PubsInit.options)\<close>

record options =
  connectTimeout :: real
  heartbeatInterval :: real
  maxReconnectInterval :: number
  reconnectEnabled :: bool
  reconnectFactor :: number
  reconnectInterval :: number
  reconnectSpreader :: number
  streamAckTimeout :: real

definition PubsInit_options :: options where
  "PubsInit_options =
     \<lparr>connectTimeout = 5000, heartbeatInterval = 5000, maxReconnectInterval = Finite 30000,
      reconnectEnabled = True, reconnectFactor = Finite (3 / 2), reconnectInterval = Finite 1000,
      reconnectSpreader = Finite 500, streamAckTimeout = 20000\<rparr>"

subsection \<open>JavaScript operators the code uses\<close>

text \<open>\<open>a || b\<close> on booleans: the left operand when it is truthy, the right one otherwise.\<close>

definition js_or :: "bool \<Rightarrow> bool \<Rightarrow> bool" where
  "js_or a b = (if a then a else b)"

text \<open>
  \<open>++n\<close> on a counter held in a double: exact below \<open>2^53\<close>; at \<open>2^53\<close> the sum
  \<open>2^53 + 1\<close> is not representable and rounds back to \<open>2^53\<close>.
\<close>

definition js_incr :: "nat \<Rightarrow> nat" where
  "js_incr n = (if n < 2 ^ 53 then n + 1 else n)"

text \<open>\<open>String(n)\<close> for a natural number below \<open>10^21\<close>: its decimal digits.\<close>

definition digit :: "nat \<Rightarrow> char" where
  "digit d =
     (if d = 0 then CHR ''0'' else if d = 1 then CHR ''1'' else if d = 2 then CHR ''2''
      else if d = 3 then CHR ''3'' else if d = 4 then CHR ''4'' else if d = 5 then CHR ''5''
      else if d = 6 then CHR ''6'' else if d = 7 then CHR ''7'' else if d = 8 then CHR ''8''
      else CHR ''9'')"

fun String_of :: "nat \<Rightarrow> string" where
  "String_of n = (if n < 10 then [digit n] else String_of (n div 10) @ [digit (n mod 10)])"

declare String_of.simps [simp del]

text \<open>A value is falsy when it is \<open>undefined\<close> or the empty string.\<close>

definition falsy :: "string option \<Rightarrow> bool" where
  "falsy v = (case v of None \<Rightarrow> True | Some u \<Rightarrow> u = [])"

subsection \<open>Events (events.ts)\<close>

datatype event =
    PubsStateChangedEvent bool bool bool
  | PubsStreamEvent "string option" "IStreamInfo option"
  | PubsErrorEvent string "string option"

subsection \<open>Timers, closures and the instance\<close>

text \<open>
  The callbacks the code hands to \<open>setTimeout\<close>:
  \<^item> \<open>Reconnect\<close>: \<open>() => this.connect()\<close>, set by the reconnector;
  \<^item> \<open>Connect_timeout sock\<close>: the connect timeout of the attempt that created \<open>sock\<close>;
  \<^item> \<open>Close_socket sock\<close>: the deferred \<open>closeStreamWebsocket(socket)\<close> of that timeout;
  \<^item> \<open>Reject_attempt sock\<close>: the deferred \<open>reject(event)\<close> of \<open>onerror\<close>;
  \<^item> \<open>Reply_timeout q\<close>: \<open>reject(new Error('timeout'))\<close> of send promise \<open>q\<close>;
  \<^item> \<open>Resolve_send q\<close>: \<open>setTimeout(resolve, 0)\<close> of send promise \<open>q\<close>.
\<close>

datatype task =
    Reconnect
  | Connect_timeout nat
  | Close_socket nat
  | Reject_attempt nat
  | Reply_timeout nat
  | Resolve_send nat

text \<open>
  A gate object \<open>IPubsConnectionGate\<close>: its optional promise, whether its \<open>reject\<close> slot
  is filled, and the callbacks \<open>pubsub\<close> attached to the promise with \<open>then\<close> (the payload
  to send and the subscription promise to resolve afterwards).
\<close>

record IPubsConnectionGate =
  g_promise :: "unit promise option"
  g_reject :: bool
  g_thens :: "(IStreamEnvelope \<times> nat) list"

text \<open>
  The closure of one \<open>connectStreamWebSocket\<close> call, named by the socket it creates:
  whether \<open>new WebSocket\<close> returned, the local \<open>isTimeout\<close> and \<open>timeout\<close>, whether
  a reconnector was passed, the \<open>connect\<close> call whose handlers wait on the returned promise,
  that promise, and whether \<open>onmessage\<close> has been set on the socket.
\<close>

record attempt =
  a_created :: bool
  a_isTimeout :: bool
  a_timeout :: nat
  a_reconnector :: bool
  a_call :: nat
  a_promise :: "nat promise"
  a_onmessage :: bool

text \<open>
  The instance and what it keeps alive. A \<open>connect\<close> call is named by a number; its gate
  object and the promise it returns carry the same number (gate \<open>0\<close> is the empty
  object \<open>{}\<close> of the constructor). \<open>websocketSequence\<close> is the variable of the module,
  not a field of the class; two instances sharing it are modelled further below.
\<close>

record pubs =
  connecting :: bool
  connected :: bool
  reconnecting :: bool
  socket :: "nat option"
  closing :: bool
  reconnector :: nat
  reconnectAttempts :: nat
  replyHandlers :: "string \<rightharpoonup> IStreamReplyTimeoutRecord"
  gate :: nat
  websocketSequence :: nat
  timers :: "(nat \<times> number \<times> task) list"
  next_timer :: nat
  gates :: "nat \<Rightarrow> IPubsConnectionGate"
  connect_promises :: "nat \<Rightarrow> unit promise"
  fetching :: "nat \<Rightarrow> bool"
  next_call :: nat
  attempts :: "nat \<Rightarrow> attempt"
  next_socket :: nat
  send_promises :: "nat \<Rightarrow> IStreamEnvelope option promise"
  send_thens :: "nat \<Rightarrow> nat option"
  next_send :: nat
  sub_promises :: "nat \<Rightarrow> unit promise"
  next_sub :: nat
  dispatched :: "event list"
  sent :: "(nat \<times> IStreamEnvelope) list"
  closed :: "nat list"

text \<open>
  What one step asks of the browser besides the event itself: the value of
  \<open>Math.random()\<close> (a double in \<open>[0, 1)\<close>), the value of \<open>Math.pow\<close> for a base and the
  attempt counter, whether \<open>send\<close> throws for a payload, and whether \<open>new WebSocket\<close>
  throws.
\<close>

record browser =
  Math_random :: real
  Math_pow :: "number \<Rightarrow> nat \<Rightarrow> number"
  send_throws :: "string \<Rightarrow> bool"
  WebSocket_throws :: bool

text \<open>
  The constructor: all flags false, no socket, \<open>reconnector = 0\<close>, an empty handler
  table and the empty gate. Timer numbers start at \<open>1\<close>, as the browser's do.
\<close>

definition empty_gate :: IPubsConnectionGate where
  "empty_gate = \<lparr>g_promise = None, g_reject = False, g_thens = []\<rparr>"

definition no_attempt :: attempt where
  "no_attempt = \<lparr>a_created = False, a_isTimeout = False, a_timeout = 0, a_reconnector = False,
     a_call = 0, a_promise = Pending, a_onmessage = False\<rparr>"

definition new_Pubs :: pubs where
  "new_Pubs =
     \<lparr>connecting = False, connected = False, reconnecting = False, socket = None,
      closing = False, reconnector = 0, reconnectAttempts = 0, replyHandlers = Map.empty,
      gate = 0, websocketSequence = 0, timers = [], next_timer = 1,
      gates = (\<lambda>_. empty_gate), connect_promises = (\<lambda>_. Pending), fetching = (\<lambda>_. False),
      next_call = 1, attempts = (\<lambda>_. no_attempt), next_socket = 0,
      send_promises = (\<lambda>_. Pending), send_thens = (\<lambda>_. None), next_send = 0,
      sub_promises = (\<lambda>_. Pending), next_sub = 0, dispatched = [], sent = [], closed = []\<rparr>"

subsection \<open>Timers\<close>

definition setTimeout :: "task \<Rightarrow> number \<Rightarrow> pubs \<Rightarrow> nat \<times> pubs" where
  "setTimeout t d s =
     (next_timer s,
      s\<lparr>timers := timers s @ [(next_timer s, d, t)], next_timer := Suc (next_timer s)\<rparr>)"

definition clearTimeout :: "nat \<Rightarrow> pubs \<Rightarrow> pubs" where
  "clearTimeout i s = s\<lparr>timers := filter (\<lambda>e. fst e \<noteq> i) (timers s)\<rparr>"

subsection \<open>Event dispatch\<close>

text \<open>
  \<open>dispatchEvent\<close> hands the event to the handler slot of its kind; an empty slot makes
  it a no-op. The log \<open>dispatched\<close> records every event passed to \<open>dispatchEvent\<close>, in
  order; the handlers themselves are code of the embedding application.
\<close>

definition dispatchEvent :: "event \<Rightarrow> pubs \<Rightarrow> pubs" where
  "dispatchEvent ev s = s\<lparr>dispatched := dispatched s @ [ev]\<rparr>"

definition dispatchStateChangedEvent :: "pubs \<Rightarrow> pubs" where
  "dispatchStateChangedEvent s =
     dispatchEvent (PubsStateChangedEvent (connecting s) (connected s) (reconnecting s)) s"

definition dispatchStreamEvent :: "string option \<Rightarrow> IStreamInfo option \<Rightarrow> pubs \<Rightarrow> pubs" where
  "dispatchStreamEvent d i s = dispatchEvent (PubsStreamEvent d i) s"

definition dispatchErrorEvent :: "IErrorWithCodeAndMessage \<Rightarrow> pubs \<Rightarrow> pubs" where
  "dispatchErrorEvent err s = dispatchEvent (PubsErrorEvent (code err) (msg err)) s"

subsection \<open>Settling promises\<close>

text \<open>
  Settling a promise that is already settled does nothing. A subscription promise has no
  callbacks of the library attached. A send promise created by \<open>pubsub\<close> carries the
  callback \<open>() => { resolve() }\<close> for its subscription promise, on fulfilment only.
\<close>

definition resolve_sub :: "nat \<Rightarrow> pubs \<Rightarrow> pubs" where
  "resolve_sub p s =
     (if sub_promises s p = Pending
      then s\<lparr>sub_promises := (sub_promises s)(p := Fulfilled ())\<rparr> else s)"

definition reject_sub :: "nat \<Rightarrow> failure \<Rightarrow> pubs \<Rightarrow> pubs" where
  "reject_sub p e s =
     (if sub_promises s p = Pending
      then s\<lparr>sub_promises := (sub_promises s)(p := Rejected e)\<rparr> else s)"

definition resolve_send :: "nat \<Rightarrow> IStreamEnvelope option \<Rightarrow> pubs \<Rightarrow> pubs" where
  "resolve_send q m s =
     (if send_promises s q = Pending
      then let s1 = s\<lparr>send_promises := (send_promises s)(q := Fulfilled m)\<rparr>
           in (case send_thens s1 q of None \<Rightarrow> s1 | Some p \<Rightarrow> resolve_sub p s1)
      else s)"

definition reject_send :: "nat \<Rightarrow> failure \<Rightarrow> pubs \<Rightarrow> pubs" where
  "reject_send q e s =
     (if send_promises s q = Pending
      then s\<lparr>send_promises := (send_promises s)(q := Rejected e)\<rparr> else s)"

definition resolve_connect :: "nat \<Rightarrow> pubs \<Rightarrow> pubs" where
  "resolve_connect k s =
     (if connect_promises s k = Pending
      then s\<lparr>connect_promises := (connect_promises s)(k := Fulfilled ())\<rparr> else s)"

definition reject_connect :: "nat \<Rightarrow> failure \<Rightarrow> pubs \<Rightarrow> pubs" where
  "reject_connect k e s =
     (if connect_promises s k = Pending
      then s\<lparr>connect_promises := (connect_promises s)(k := Rejected e)\<rparr> else s)"

subsection \<open>sendStreamWebSocketPayload\<close>

text \<open>
  The arguments are the payload, \<open>replyTimeout\<close>, and the subscription promise whose
  \<open>resolve\<close> the caller attaches with \<open>then\<close> (\<open>None\<close> for a call of the application).
  The result is the number of the promise returned and the new state.
\<close>

definition sendStreamWebSocketPayload ::
  "options \<Rightarrow> browser \<Rightarrow> IStreamEnvelope \<Rightarrow> real \<Rightarrow> nat option \<Rightarrow> pubs \<Rightarrow> nat \<times> pubs" where
  "sendStreamWebSocketPayload opts b payload replyTimeout0 then_sub s =
     (let replyTimeout = (if replyTimeout0 = 0 then streamAckTimeout opts else replyTimeout0);
          q = next_send s;
          s0 = s\<lparr>send_promises := (send_promises s)(q := Pending),
                 send_thens := (send_thens s)(q := then_sub), next_send := Suc q\<rparr>
      in if \<not> connected s0 then (q, reject_send q (Error ''no_connection'') s0)
         else case socket s0 of
           None \<Rightarrow> (q, reject_send q (Error ''no_connection'') s0)
         | Some sock \<Rightarrow>
             if closing s0 then (q, reject_send q (Error ''no_connection'') s0)
             else
               let n = js_incr (websocketSequence s0);
                   payload1 = payload\<lparr>state := String_of n\<rparr>;
                   s1 = s0\<lparr>websocketSequence := n\<rparr>
               in if send_throws b (state payload1)
                  then (q, reject_send q (Thrown ''InvalidStateError'') s1)
                  else
                    let s2 = s1\<lparr>sent := sent s1 @ [(sock, payload1)]\<rparr>
                    in if replyTimeout > 0
                       then let (t, s3) = setTimeout (Reply_timeout q) (Finite replyTimeout) s2
                            in (q, s3\<lparr>replyHandlers :=
                                      (replyHandlers s3)(state payload1 \<mapsto>
                                         \<lparr>resolve = q, timeout = t\<rparr>)\<rparr>)
                       else (q, snd (setTimeout (Resolve_send q) (Finite 0) s2)))"

subsection \<open>The gate's promise\<close>

text \<open>
  The callbacks waiting on a gate's promise come from \<open>pubsub\<close>: each sends its payload
  with the default \<open>replyTimeout\<close> and resolves its subscription promise when the send
  promise is fulfilled. They run in the order they were attached. On rejection there is
  nothing to run: \<open>pubsub\<close> attaches no rejection callback.
\<close>

fun run_thens :: "options \<Rightarrow> browser \<Rightarrow> (IStreamEnvelope \<times> nat) list \<Rightarrow> pubs \<Rightarrow> pubs" where
  "run_thens opts b [] s = s"
| "run_thens opts b ((payload, p) # ws) s =
     run_thens opts b ws (snd (sendStreamWebSocketPayload opts b payload 0 (Some p) s))"

definition gateResolve :: "options \<Rightarrow> browser \<Rightarrow> nat \<Rightarrow> pubs \<Rightarrow> pubs" where
  "gateResolve opts b k s =
     (let g = gates s k
      in if g_promise g = Some Pending
         then run_thens opts b (g_thens g)
                (s\<lparr>gates := (gates s)(k := g\<lparr>g_promise := Some (Fulfilled ()), g_thens := []\<rparr>)\<rparr>)
         else s)"

definition gateReject :: "nat \<Rightarrow> pubs \<Rightarrow> pubs" where
  "gateReject k s =
     (let g = gates s k
      in if g_promise g = Some Pending
         then s\<lparr>gates := (gates s)(k := g\<lparr>g_promise := Some (Rejected Undefined), g_thens := []\<rparr>)\<rparr>
         else s)"

subsection \<open>The reconnector closure of connect\<close>

text \<open>
  The delay the reconnector computes, from the options, what the browser answers for
  \<open>Math.pow\<close> and \<open>Math.random()\<close>, the attempt counter and the flag \<open>fast\<close>. Every
  operation is the one on doubles.
\<close>

definition reconnectTimeout :: "options \<Rightarrow> browser \<Rightarrow> nat \<Rightarrow> bool \<Rightarrow> number" where
  "reconnectTimeout opts b n fast =
     (if fast then reconnectInterval opts
      else
        let t = js_mul (reconnectInterval opts)
                  (Math_trunc (Math_pow b (reconnectFactor opts) n));
            t1 = (if js_gt t (maxReconnectInterval opts) then maxReconnectInterval opts else t)
        in js_add t1 (Math_floor (js_mul (Finite (Math_random b)) (reconnectSpreader opts))))"

definition connect_reconnector :: "options \<Rightarrow> browser \<Rightarrow> bool \<Rightarrow> pubs \<Rightarrow> pubs" where
  "connect_reconnector opts b fast s =
     (let s1 = clearTimeout (reconnector s) s
      in if \<not> reconnecting s1 then s1
         else
           let (t, s2) = setTimeout Reconnect
                           (reconnectTimeout opts b (reconnectAttempts s1) fast) s1
           in s2\<lparr>reconnector := t, reconnectAttempts := js_incr (reconnectAttempts s2)\<rparr>)"

subsection \<open>closeStreamWebsocket\<close>

text \<open>The log \<open>closed\<close> records the calls of \<open>close()\<close> on sockets.\<close>

definition closeStreamWebsocket :: "nat \<Rightarrow> pubs \<Rightarrow> pubs" where
  "closeStreamWebsocket sock s =
     (let s1 = (if Some sock = socket s then s\<lparr>closing := True\<rparr> else s)
      in s1\<lparr>closed := closed s1 @ [sock]\<rparr>)"

subsection \<open>The callbacks connect attaches to an attempt's promise\<close>

definition resolve_attempt :: "options \<Rightarrow> browser \<Rightarrow> nat \<Rightarrow> pubs \<Rightarrow> pubs" where
  "resolve_attempt opts b a s =
     (let c = attempts s a
      in if a_promise c = Pending
         then
           let s1 = s\<lparr>attempts := (attempts s)(a := c\<lparr>a_promise := Fulfilled a\<rparr>)\<rparr>;
               k = a_call c;
               s2 = s1\<lparr>reconnectAttempts := 0\<rparr>;
               s3 = s2\<lparr>gates := (gates s2)(k := (gates s2 k)\<lparr>g_reject := False\<rparr>)\<rparr>
           in gateResolve opts b k (resolve_connect k s3)
         else s)"

definition reject_attempt :: "options \<Rightarrow> browser \<Rightarrow> nat \<Rightarrow> failure \<Rightarrow> pubs \<Rightarrow> pubs" where
  "reject_attempt opts b a err s =
     (let c = attempts s a
      in if a_promise c = Pending
         then
           let s1 = s\<lparr>attempts := (attempts s)(a := c\<lparr>a_promise := Rejected err\<rparr>)\<rparr>;
               k = a_call c
           in if reconnecting s1 then connect_reconnector opts b False s1
              else
                let s2 = s1\<lparr>gates := (gates s1)(k := (gates s1 k)\<lparr>g_reject := False\<rparr>)\<rparr>
                in gateReject k (reject_connect k err s2)
         else s)"

subsection \<open>connectStreamWebSocket\<close>

text \<open>
  The body of the promise's executor: an attached socket is detached and closed, the new
  socket and its connect timeout are created, the callbacks are set, and the new socket
  becomes the current one. When \<open>new WebSocket\<close> throws, the executor's exception rejects
  the promise.
\<close>

definition connectStreamWebSocket :: "options \<Rightarrow> browser \<Rightarrow> bool \<Rightarrow> nat \<Rightarrow> pubs \<Rightarrow> pubs" where
  "connectStreamWebSocket opts b recon k s =
     (let s1 = (case socket s of
                  None \<Rightarrow> s
                | Some oldSocket \<Rightarrow>
                    closeStreamWebsocket oldSocket (s\<lparr>socket := None, connected := False\<rparr>));
          sock = next_socket s1;
          s2 = s1\<lparr>next_socket := Suc sock,
                  attempts := (attempts s1)(sock := no_attempt\<lparr>a_reconnector := recon, a_call := k\<rparr>)\<rparr>
      in if WebSocket_throws b then reject_attempt opts b sock (Thrown ''SyntaxError'') s2
         else
           let (t, s3) = setTimeout (Connect_timeout sock) (Finite (connectTimeout opts)) s2
           in s3\<lparr>attempts := (attempts s3)(sock := (attempts s3 sock)\<lparr>a_created := True, a_timeout := t\<rparr>),
                 closing := False, socket := Some sock\<rparr>)"

text \<open>The callback of the connect timeout.\<close>

definition connect_timeout_fired :: "options \<Rightarrow> browser \<Rightarrow> nat \<Rightarrow> pubs \<Rightarrow> pubs" where
  "connect_timeout_fired opts b sock s =
     (let s1 = s\<lparr>attempts := (attempts s)(sock := (attempts s sock)\<lparr>a_isTimeout := True\<rparr>)\<rparr>;
          s2 = (if Some sock = socket s1
                then dispatchStateChangedEvent
                       (s1\<lparr>socket := None, connected := False, connecting := False\<rparr>)
                else s1);
          s3 = snd (setTimeout (Close_socket sock) (Finite 0) s2)
      in reject_attempt opts b sock (Error ''connect_timeout'') s3)"

text \<open>\<open>socket.onopen\<close>, \<open>socket.onclose\<close> and \<open>socket.onerror\<close>; \<open>sock\<close> is the event's target.\<close>

definition onopen :: "options \<Rightarrow> browser \<Rightarrow> nat \<Rightarrow> pubs \<Rightarrow> pubs" where
  "onopen opts b sock s =
     (let c = attempts s sock;
          s1 = clearTimeout (a_timeout c) s
      in if a_isTimeout c then s1
         else if Some sock \<noteq> socket s1 then closeStreamWebsocket sock s1
         else
           let s2 = dispatchStateChangedEvent (s1\<lparr>connected := True, connecting := False\<rparr>);
               s3 = s2\<lparr>attempts := (attempts s2)(sock := (attempts s2 sock)\<lparr>a_onmessage := True\<rparr>)\<rparr>
           in resolve_attempt opts b sock s3)"

definition onclose :: "options \<Rightarrow> browser \<Rightarrow> nat \<Rightarrow> pubs \<Rightarrow> pubs" where
  "onclose opts b sock s =
     (let c = attempts s sock;
          s1 = clearTimeout (a_timeout c) s
      in if a_isTimeout c then s1
         else if Some sock \<noteq> socket s1
         then (if socket s1 = None \<and> \<not> connecting s1 \<and> a_reconnector c
               then connect_reconnector opts b True s1 else s1)
         else
           let s2 = dispatchStateChangedEvent
                      (s1\<lparr>socket := None, closing := False, connected := False, connecting := False\<rparr>)
           in if a_reconnector c then connect_reconnector opts b False s2 else s2)"

definition onerror :: "nat \<Rightarrow> pubs \<Rightarrow> pubs" where
  "onerror sock s =
     (let c = attempts s sock;
          s1 = clearTimeout (a_timeout c) s
      in if a_isTimeout c then s1
         else
           let s2 = snd (setTimeout (Reject_attempt sock) (Finite 0) s1)
           in if Some sock \<noteq> socket s2 then s2
              else
                let s3 = s2\<lparr>socket := None, connected := False, connecting := False\<rparr>;
                    s4 = dispatchErrorEvent
                           \<lparr>code = ''websocket_error'', msg = Some ''[object Event]''\<rparr> s3
                in dispatchStateChangedEvent s4)"

subsection \<open>connect\<close>

text \<open>
  \<open>connect\<close> up to its \<open>await\<close>: the pending retry timer is cleared, the flags are set,
  the state change is dispatched, a fresh gate with a pending promise becomes the current
  gate, and the handshake request is under way. The result is the number of the call.
\<close>

definition connect :: "options \<Rightarrow> pubs \<Rightarrow> nat \<times> pubs" where
  "connect opts s =
     (let s1 = clearTimeout (reconnector s) s;
          s2 = s1\<lparr>reconnecting := js_or (reconnectEnabled opts) True\<rparr>;
          s3 = s2\<lparr>connecting := True\<rparr>;
          s4 = dispatchStateChangedEvent s3;
          k = next_call s4
      in (k, s4\<lparr>gate := k,
                gates := (gates s4)(k := \<lparr>g_promise = Some Pending, g_reject = True, g_thens = []\<rparr>),
                connect_promises := (connect_promises s4)(k := Pending),
                fetching := (fetching s4)(k := True),
                next_call := Suc k\<rparr>))"

text \<open>
  What \<open>fetch\<close> can do: reject, or deliver a response with its \<open>ok\<close> flag, status,
  status text and, when the body parses, the body. \<open>fetchStreamWebSocketConnect\<close> turns
  that into a thrown value (\<open>Inl\<close>) or a connect response.
\<close>

datatype fetch_outcome =
    Fetch_rejected string
  | Response bool nat string "IStreamWebsocketConnectResponse option"

definition fetchStreamWebSocketConnect ::
  "fetch_outcome \<Rightarrow> string + IStreamWebsocketConnectResponse" where
  "fetchStreamWebSocketConnect r =
     (case r of
        Fetch_rejected err \<Rightarrow> Inl err
      | Response ok status statusText body \<Rightarrow>
          if \<not> ok
          then Inr \<lparr>error = Some \<lparr>code = ''http_error_'' @ String_of status, msg = Some statusText\<rparr>,
                    streamUrl = None\<rparr>
          else (case body of None \<Rightarrow> Inl ''SyntaxError'' | Some j \<Rightarrow> Inr j))"

text \<open>\<open>connect\<close> after its \<open>await\<close>, for call \<open>k\<close>.\<close>

definition connect_fetched ::
  "options \<Rightarrow> browser \<Rightarrow> nat \<Rightarrow> string + IStreamWebsocketConnectResponse \<Rightarrow> pubs \<Rightarrow> pubs" where
  "connect_fetched opts b k r s =
     (let s0 = s\<lparr>fetching := (fetching s)(k := False)\<rparr>;
          connectResponse =
            (case r of
               Inl err \<Rightarrow> \<lparr>error = Some \<lparr>code = ''request_failed'', msg = Some err\<rparr>,
                           streamUrl = Some []\<rparr>
             | Inr resp \<Rightarrow> resp)
      in if falsy (streamUrl connectResponse)
         then
           let s1 = dispatchStateChangedEvent (s0\<lparr>connecting := False\<rparr>)
           in if reconnecting s1
              then
                let s2 = (case error connectResponse of
                            None \<Rightarrow> s1
                          | Some e \<Rightarrow>
                              if code e = ''http_error_403''
                              then dispatchErrorEvent e
                                     (dispatchStateChangedEvent (s1\<lparr>reconnecting := False\<rparr>))
                              else s1)
                in connect_reconnector opts b False s2
              else (case error connectResponse of
                      Some e \<Rightarrow> reject_connect k (new_PubsDataError e) s1
                    | None \<Rightarrow>
                        reject_connect k
                          (new_PubsDataError \<lparr>code = ''unknown_error'', msg = Some []\<rparr>) s1)
         else connectStreamWebSocket opts b (reconnecting s0) k s0)"

subsection \<open>pubsub, sub and unsub\<close>

text \<open>
  The result is the number of the promise returned and the new state. A callback attached
  to a promise that is already fulfilled runs at once; one attached to a rejected promise
  never runs.
\<close>

definition pubsub :: "options \<Rightarrow> browser \<Rightarrow> string \<Rightarrow> string list \<Rightarrow> pubs \<Rightarrow> nat \<times> pubs" where
  "pubsub opts b ty tps s =
     (let payload = \<lparr>type = ty, state = [], info = Some \<lparr>ref = None, topics = Some tps\<rparr>,
                     data = None\<rparr>;
          p = next_sub s;
          s0 = s\<lparr>sub_promises := (sub_promises s)(p := Pending), next_sub := Suc p\<rparr>;
          g = gates s0 (gate s0)
      in case g_promise g of
           None \<Rightarrow> (p, reject_sub p (Error ''no gate - connected not called?'') s0)
         | Some Pending \<Rightarrow>
             (p, s0\<lparr>gates := (gates s0)(gate s0 := g\<lparr>g_thens := g_thens g @ [(payload, p)]\<rparr>)\<rparr>)
         | Some (Fulfilled _) \<Rightarrow>
             (p, snd (sendStreamWebSocketPayload opts b payload 0 (Some p) s0))
         | Some (Rejected _) \<Rightarrow> (p, s0))"

definition sub :: "options \<Rightarrow> browser \<Rightarrow> string list \<Rightarrow> pubs \<Rightarrow> nat \<times> pubs" where
  "sub opts b tps s = pubsub opts b ''sub'' tps s"

definition unsub :: "options \<Rightarrow> browser \<Rightarrow> string list \<Rightarrow> pubs \<Rightarrow> nat \<times> pubs" where
  "unsub opts b tps s = pubsub opts b ''unsub'' tps s"

subsection \<open>handleStreamWebSocketMessage\<close>

text \<open>
  \<open>sock\<close> is the event's target; the message is \<open>None\<close> when \<open>JSON.parse\<close> throws, which
  leaves the state as it is.
\<close>

definition handleStreamWebSocketMessage :: "nat \<Rightarrow> IStreamEnvelope option \<Rightarrow> pubs \<Rightarrow> pubs" where
  "handleStreamWebSocketMessage sock parsed s =
     (if Some sock \<noteq> socket s then s\<lparr>closed := closed s @ [sock]\<rparr>
      else case parsed of
        None \<Rightarrow> s
      | Some message \<Rightarrow>
          if type message = ''hello'' then s
          else if type message = ''goodbye''
          then (closeStreamWebsocket sock (s\<lparr>reconnectAttempts := 1\<rparr>))\<lparr>connected := False\<rparr>
          else if type message = ''ack''
          then (case replyHandlers s (state message) of
                  Some replyTimeout \<Rightarrow>
                    resolve_send (resolve replyTimeout) (Some message)
                      (clearTimeout (timeout replyTimeout)
                         (s\<lparr>replyHandlers := (replyHandlers s)(state message := None)\<rparr>))
                | None \<Rightarrow> s)
          else if type message = ''event''
          then dispatchStreamEvent (data message) (info message) s
          else s)"

subsection \<open>The event loop\<close>

text \<open>
  A timer that fires leaves the timer table and runs its callback. A number that names no
  live timer fires nothing.
\<close>

definition run_task :: "options \<Rightarrow> browser \<Rightarrow> task \<Rightarrow> pubs \<Rightarrow> pubs" where
  "run_task opts b t s =
     (case t of
        Reconnect \<Rightarrow> snd (connect opts s)
      | Connect_timeout sock \<Rightarrow> connect_timeout_fired opts b sock s
      | Close_socket sock \<Rightarrow> closeStreamWebsocket sock s
      | Reject_attempt sock \<Rightarrow> reject_attempt opts b sock (ErrorEvent sock) s
      | Reply_timeout q \<Rightarrow> reject_send q (Error ''timeout'') s
      | Resolve_send q \<Rightarrow> resolve_send q None s)"

definition fire :: "options \<Rightarrow> browser \<Rightarrow> nat \<Rightarrow> pubs \<Rightarrow> pubs" where
  "fire opts b i s =
     (case find (\<lambda>e. fst e = i) (timers s) of
        None \<Rightarrow> s
      | Some e \<Rightarrow> run_task opts b (snd (snd e)) (clearTimeout i s))"

text \<open>
  The inputs of the instance: the calls of the application and the events of the browser.
  A handshake result is delivered to a call that is waiting for one; a socket event comes
  from a socket that exists; a message reaches the handler only through \<open>onmessage\<close>,
  which \<open>onopen\<close> sets.
\<close>

datatype input =
    Call_connect
  | Call_sub "string list"
  | Call_unsub "string list"
  | Call_send IStreamEnvelope real
  | Fetched nat fetch_outcome
  | Socket_open nat
  | Socket_close nat
  | Socket_error nat
  | Socket_message nat "IStreamEnvelope option"
  | Timer nat

definition step :: "options \<Rightarrow> browser \<times> input \<Rightarrow> pubs \<Rightarrow> pubs" where
  "step opts bi s =
     (let b = fst bi
      in case snd bi of
           Call_connect \<Rightarrow> snd (connect opts s)
         | Call_sub tps \<Rightarrow> snd (sub opts b tps s)
         | Call_unsub tps \<Rightarrow> snd (unsub opts b tps s)
         | Call_send payload replyTimeout \<Rightarrow>
             snd (sendStreamWebSocketPayload opts b payload replyTimeout None s)
         | Fetched k r \<Rightarrow>
             if fetching s k then connect_fetched opts b k (fetchStreamWebSocketConnect r) s else s
         | Socket_open sock \<Rightarrow> if a_created (attempts s sock) then onopen opts b sock s else s
         | Socket_close sock \<Rightarrow> if a_created (attempts s sock) then onclose opts b sock s else s
         | Socket_error sock \<Rightarrow> if a_created (attempts s sock) then onerror sock s else s
         | Socket_message sock m \<Rightarrow>
             if a_onmessage (attempts s sock) then handleStreamWebSocketMessage sock m s else s
         | Timer i \<Rightarrow> fire opts b i s)"

fun run :: "options \<Rightarrow> (browser \<times> input) list \<Rightarrow> pubs \<Rightarrow> pubs" where
  "run opts [] s = s"
| "run opts (bi # rest) s = run opts rest (step opts bi s)"

section \<open>Invariants and scenarios\<close>

subsection \<open>Predicates on promises and inputs\<close>

fun rejected :: "'a promise \<Rightarrow> bool" where
  "rejected (Rejected _) = True"
| "rejected _ = False"

definition calls_connect :: "browser \<times> input \<Rightarrow> bool" where
  "calls_connect bi = (snd bi = Call_connect)"

subsection \<open>Retry timers\<close>

text \<open>The live timers set by the reconnector.\<close>

definition retry_timers :: "pubs \<Rightarrow> (nat \<times> number \<times> task) list" where
  "retry_timers s = filter (\<lambda>e. snd (snd e) = Reconnect) (timers s)"

text \<open>
  Every live retry timer is the one the field \<open>reconnector\<close> names; timer numbers are
  distinct and below the next number to be handed out.
\<close>

definition retry_inv :: "pubs \<Rightarrow> bool" where
  "retry_inv s =
     ((\<forall>e \<in> set (timers s). snd (snd e) = Reconnect \<longrightarrow> fst e = reconnector s) \<and>
      (\<forall>e \<in> set (timers s). fst e < next_timer s) \<and>
      distinct (map fst (timers s)))"

text \<open>The instance has given up reconnecting: the flag is cleared and no retry is pending.\<close>

definition gave_up :: "pubs \<Rightarrow> bool" where
  "gave_up s = (\<not> reconnecting s \<and> retry_timers s = [])"

text \<open>While the flag \<open>reconnecting\<close> is cleared, no retry timer is live.\<close>

definition off_inv :: "pubs \<Rightarrow> bool" where
  "off_inv s = (\<not> reconnecting s \<longrightarrow> retry_timers s = [])"

subsection \<open>Before the first connect\<close>

text \<open>
  What holds as long as \<open>connect\<close> has never run: the gate is the constructor's empty
  object, there is no socket, no timer and no handshake, and nothing was sent.
\<close>

definition never_connected :: "pubs \<Rightarrow> bool" where
  "never_connected s =
     (g_promise (gates s (gate s)) = None \<and> socket s = None \<and> timers s = [] \<and> sent s = [] \<and>
      (\<forall>k. \<not> fetching s k) \<and>
      (\<forall>a. \<not> a_created (attempts s a) \<and> \<not> a_onmessage (attempts s a)))"

subsection \<open>Subscription promises\<close>

text \<open>The subscription promise \<open>p\<close> has been handed out and is not rejected.\<close>

definition unrejected :: "nat \<Rightarrow> pubs \<Rightarrow> bool" where
  "unrejected p s = (p < next_sub s \<and> \<not> rejected (sub_promises s p))"

text \<open>
  The subscription promise \<open>p\<close> waits on the pending promise of gate \<open>g\<close>: its callback
  is attached there and nowhere else, and no send promise resolves it.
\<close>

definition waiting :: "nat \<Rightarrow> nat \<Rightarrow> pubs \<Rightarrow> bool" where
  "waiting p g s =
     (p < next_sub s \<and> sub_promises s p = Pending \<and> g_promise (gates s g) = Some Pending \<and>
      p \<in> snd ` set (g_thens (gates s g)) \<and>
      (\<forall>k. k \<noteq> g \<longrightarrow> p \<notin> snd ` set (g_thens (gates s k))) \<and>
      (\<forall>q. send_thens s q \<noteq> Some p))"

text \<open>
  The subscription promise \<open>p\<close> waits on the pending send promise \<open>q\<close>: no gate holds
  its callback any more and no other send promise resolves it.
\<close>

definition in_flight :: "nat \<Rightarrow> nat \<Rightarrow> pubs \<Rightarrow> bool" where
  "in_flight p q s =
     (p < next_sub s \<and> sub_promises s p = Pending \<and> send_promises s q = Pending \<and>
      send_thens s q = Some p \<and>
      (\<forall>k. p \<notin> snd ` set (g_thens (gates s k))) \<and>
      (\<forall>r. r \<noteq> q \<longrightarrow> send_thens s r \<noteq> Some p))"

text \<open>
  The subscription promise \<open>p\<close> is pending and nothing is left that could settle it: no
  gate holds its callback and every send promise that would resolve it is settled.
\<close>

definition abandoned :: "nat \<Rightarrow> pubs \<Rightarrow> bool" where
  "abandoned p s =
     (p < next_sub s \<and> sub_promises s p = Pending \<and>
      (\<forall>k. p \<notin> snd ` set (g_thens (gates s k))) \<and>
      (\<forall>q. send_thens s q = Some p \<longrightarrow> send_promises s q \<noteq> Pending))"

text \<open>
  The promise of gate \<open>g\<close>, a gate that some \<open>connect\<close> call created, is settled with
  \<open>v\<close>.
\<close>

definition gate_settled :: "unit promise \<Rightarrow> nat \<Rightarrow> pubs \<Rightarrow> bool" where
  "gate_settled v g s = (g < next_call s \<and> v \<noteq> Pending \<and> g_promise (gates s g) = Some v)"

text \<open>
  The subscription promise \<open>p\<close> has left its gate: it is not rejected, and while it is
  pending no gate holds its callback.
\<close>

definition launched :: "nat \<Rightarrow> pubs \<Rightarrow> bool" where
  "launched p s =
     (p < next_sub s \<and> \<not> rejected (sub_promises s p) \<and>
      (sub_promises s p = Pending \<longrightarrow> (\<forall>k. p \<notin> snd ` set (g_thens (gates s k)))))"

text \<open>
  The life of a subscription promise \<open>p\<close> made while gate \<open>g\<close> was the current gate:
  it waits on the pending gate; or the gate is rejected and nothing can settle \<open>p\<close>; or
  the gate is fulfilled and \<open>p\<close> has left it.
\<close>

definition track :: "nat \<Rightarrow> nat \<Rightarrow> pubs \<Rightarrow> bool" where
  "track p g s =
     ((g < next_call s \<and> waiting p g s) \<or>
      ((\<exists>e. gate_settled (Rejected e) g s) \<and> abandoned p s) \<or>
      (gate_settled (Fulfilled ()) g s \<and> launched p s))"

text \<open>
  A send made now would be transmitted: the instance is connected, has a socket, is not
  closing it, and the socket's \<open>send\<close> does not throw on the next correlation id.
\<close>

definition send_possible :: "browser \<Rightarrow> pubs \<Rightarrow> bool" where
  "send_possible b s =
     (connected s \<and> socket s \<noteq> None \<and> \<not> closing s \<and>
      \<not> send_throws b (String_of (js_incr (websocketSequence s))))"

text \<open>
  Subscription promises not handed out yet are referred to nowhere: by no callback attached
  to a gate and by no send promise.
\<close>

definition fresh_inv :: "pubs \<Rightarrow> bool" where
  "fresh_inv s =
     ((\<forall>k. \<forall>w \<in> set (g_thens (gates s k)). snd w < next_sub s) \<and>
      (\<forall>q p. send_thens s q = Some p \<longrightarrow> p < next_sub s))"

subsection \<open>Correlation ids\<close>

text \<open>The correlation ids of the envelopes sent so far, oldest first.\<close>

definition sent_ids :: "pubs \<Rightarrow> string list" where
  "sent_ids s = map (\<lambda>e. state (snd e)) (sent s)"

text \<open>
  The ids sent are the decimal forms of strictly increasing numbers, none above the
  counter.
\<close>

definition ids_inv :: "pubs \<Rightarrow> bool" where
  "ids_inv s =
     (\<exists>ns. sent_ids s = map String_of ns \<and> sorted_wrt (<) ns \<and>
           (\<forall>n \<in> set ns. n \<le> websocketSequence s))"

subsection \<open>Two instances in one module\<close>

text \<open>
  \<open>websocketSequence\<close> is declared by \<open>let\<close> at the top of the module, so all instances
  of the class read and write the same variable. A pair of instance states models two
  instances; an operation on one of them runs on its state and the value it leaves in the
  variable is the value the other instance sees.
\<close>

definition two_instances :: "pubs \<times> pubs \<Rightarrow> bool" where
  "two_instances w = (websocketSequence (fst w) = websocketSequence (snd w))"

definition on_first :: "(pubs \<Rightarrow> pubs) \<Rightarrow> pubs \<times> pubs \<Rightarrow> pubs \<times> pubs" where
  "on_first f w =
     (let a = f (fst w) in (a, (snd w)\<lparr>websocketSequence := websocketSequence a\<rparr>))"

definition on_second :: "(pubs \<Rightarrow> pubs) \<Rightarrow> pubs \<times> pubs \<Rightarrow> pubs \<times> pubs" where
  "on_second f w =
     (let c = f (snd w) in ((fst w)\<lparr>websocketSequence := websocketSequence c\<rparr>, c))"

text \<open>An input of the module names the instance it is for.\<close>

datatype which = First | Second

definition step2 :: "options \<Rightarrow> which \<times> browser \<times> input \<Rightarrow> pubs \<times> pubs \<Rightarrow> pubs \<times> pubs" where
  "step2 opts wbi w =
     (case fst wbi of
        First \<Rightarrow> on_first (step opts (snd wbi)) w
      | Second \<Rightarrow> on_second (step opts (snd wbi)) w)"

fun run2 :: "options \<Rightarrow> (which \<times> browser \<times> input) list \<Rightarrow> pubs \<times> pubs \<Rightarrow> pubs \<times> pubs" where
  "run2 opts [] w = w"
| "run2 opts (wbi # rest) w = run2 opts rest (step2 opts wbi w)"

subsection \<open>Scenarios\<close>

text \<open>
  A browser whose socket calls do not throw, whose \<open>Math.random()\<close> is \<open>0\<close> and whose
  \<open>Math.pow\<close> is correctly rounded.
\<close>

definition quiet :: browser where
  "quiet = \<lparr>Math_random = 0, Math_pow = exact_pow, send_throws = (\<lambda>_. False),
             WebSocket_throws = False\<rparr>"

text \<open>A handshake that succeeds, one refused with status 403, and one that fails in transit.\<close>

definition handshake_ok :: fetch_outcome where
  "handshake_ok = Response True 200 ''OK'' (Some \<lparr>error = None, streamUrl = Some ''/stream''\<rparr>)"

definition handshake_forbidden :: fetch_outcome where
  "handshake_forbidden = Response False 403 ''Forbidden'' None"

definition handshake_failed :: fetch_outcome where
  "handshake_failed = Fetch_rejected ''TypeError: Failed to fetch''"

text \<open>A fresh instance after \<open>connect()\<close>, a successful handshake and the socket's open event.\<close>

definition connected_Pubs :: pubs where
  "connected_Pubs =
     run PubsInit_options
       [(quiet, Call_connect), (quiet, Fetched 1 handshake_ok), (quiet, Socket_open 0)] new_Pubs"

text \<open>A fresh instance after \<open>connect()\<close> and a failed handshake: a retry is scheduled.\<close>

definition retrying_Pubs :: pubs where
  "retrying_Pubs =
     run PubsInit_options [(quiet, Call_connect), (quiet, Fetched 1 handshake_failed)] new_Pubs"

text \<open>A fresh instance after \<open>connect()\<close> and a handshake refused with status 403.\<close>

definition forbidden_Pubs :: pubs where
  "forbidden_Pubs =
     run PubsInit_options [(quiet, Call_connect), (quiet, Fetched 1 handshake_forbidden)] new_Pubs"

text \<open>
  Two sockets attached one after the other: \<open>connect()\<close> and its handshake create socket
  \<open>0\<close>; a second \<open>connect()\<close> and its handshake create socket \<open>1\<close>, which detaches
  and closes socket \<open>0\<close>.
\<close>

definition replaced_Pubs :: pubs where
  "replaced_Pubs =
     run PubsInit_options
       [(quiet, Call_connect), (quiet, Fetched 1 handshake_ok),
        (quiet, Call_connect), (quiet, Fetched 2 handshake_ok)] new_Pubs"






text \<open>A fresh instance after \<open>connect()\<close> and its handshake: socket \<open>0\<close> has not opened yet.\<close>

definition opening_Pubs :: pubs where
  "opening_Pubs =
     run PubsInit_options [(quiet, Call_connect), (quiet, Fetched 1 handshake_ok)] new_Pubs"

text \<open>
  What rejects the gate of the first \<open>connect()\<close> of \<open>opening_Pubs\<close>: a second
  \<open>connect()\<close> whose handshake is refused with status 403 clears \<open>reconnecting\<close>; then
  socket \<open>0\<close> reports an error, and the timer \<open>onerror\<close> sets (timer \<open>2\<close>) rejects the
  first attempt.
\<close>

definition gate_lost :: "(browser \<times> input) list" where
  "gate_lost =
     [(quiet, Call_connect), (quiet, Fetched 2 handshake_forbidden), (quiet, Socket_error 0),
      (quiet, Timer 2)]"

text \<open>A connected instance whose socket has closed: a retry is pending, the gate is fulfilled.\<close>

definition dropped_Pubs :: pubs where
  "dropped_Pubs =
     run PubsInit_options
       [(quiet, Call_connect), (quiet, Fetched 1 handshake_ok), (quiet, Socket_open 0),
        (quiet, Socket_close 0)] new_Pubs"

text \<open>An envelope of the application.\<close>

definition ping :: IStreamEnvelope where
  "ping = \<lparr>type = ''ping'', state = [], info = None, data = None\<rparr>"

text \<open>The application sends \<open>ping\<close> with no timeout, in a cooperative browser.\<close>

definition send_ping :: "pubs \<Rightarrow> pubs" where
  "send_ping s = snd (sendStreamWebSocketPayload PubsInit_options quiet ping 0 None s)"

text \<open>Two connected instances of the class in one module; nothing has been sent yet.\<close>

definition two_connected :: "pubs \<times> pubs" where
  "two_connected = (connected_Pubs, connected_Pubs)"

section \<open>Arithmetic on doubles\<close>

text \<open>
  What the claims need of the rounding: the binade found by bisection is the right one, the
  rounded value is within half a quantum, integers up to \<open>2^53\<close> and their multiples by
  powers of two are doubles, and a double below one is at most \<open>1 - 2^-53\<close>.
\<close>

lemma pow2_less_iff [simp]: "(2 :: real) powi a < 2 powi b \<longleftrightarrow> a < b"
proof
  assume l: "(2 :: real) powi a < 2 powi b"
  show "a < b"
  proof (rule ccontr)
    assume "\<not> a < b"
    then have "(2 :: real) powi b \<le> 2 powi a"
      by (intro power_int_increasing) simp_all
    with l show False by simp
  qed
next
  assume "a < b"
  then show "(2 :: real) powi a < 2 powi b"
    by (intro power_int_strict_increasing) simp_all
qed

lemma pow2_le_iff [simp]: "(2 :: real) powi a \<le> 2 powi b \<longleftrightarrow> a \<le> b"
  using pow2_less_iff [of b a] by (simp only: not_less [symmetric]) 

lemma binade_bounds: "e \<le> binade k e x \<and> binade k e x < e + 2 ^ k"
proof (induction k arbitrary: e)
  case 0
  show ?case by simp
next
  case (Suc k)
  from Suc [of e] Suc [of "e + 2 ^ k"] show ?case by auto
qed

lemma binade_below: "x < 2 powi e \<Longrightarrow> binade k e x = e"
proof (induction k arbitrary: e)
  case 0
  show ?case by simp
next
  case (Suc k)
  have "(2 :: real) powi e \<le> 2 powi (e + 2 ^ k)"
    by simp
  with Suc.prems have "\<not> 2 powi (e + 2 ^ k) \<le> x" by linarith
  with Suc show ?case by simp
qed

lemma binade_le: "2 powi e \<le> x \<Longrightarrow> 2 powi (binade k e x) \<le> x"
  by (induction k arbitrary: e) simp_all

lemma binade_gt: "x < 2 powi (e + 2 ^ k) \<Longrightarrow> x < 2 powi (binade k e x + 1)"
proof (induction k arbitrary: e)
  case 0
  then show ?case by simp
next
  case (Suc k)
  show ?case
  proof (cases "2 powi (e + 2 ^ k) \<le> x")
    case True
    from Suc.prems have "x < 2 powi (e + 2 ^ k + 2 ^ k)" by (simp add: add.assoc)
    from Suc.IH [OF this] True show ?thesis by simp
  next
    case False
    then have "x < 2 powi (e + 2 ^ k)" by simp
    from Suc.IH [OF this] False show ?thesis by simp
  qed
qed

lemma exponent_range: "- 1022 \<le> exponent x" "exponent x \<le> 1025"
  using binade_bounds [of "- 1022" 11 "\<bar>x\<bar>"] by (simp_all add: exponent_def)

lemma exponent_le: "2 powi (- 1022) \<le> \<bar>x\<bar> \<Longrightarrow> 2 powi (exponent x) \<le> \<bar>x\<bar>"
  unfolding exponent_def by (rule binade_le)

lemma exponent_gt: "\<bar>x\<bar> < 2 powi 1026 \<Longrightarrow> \<bar>x\<bar> < 2 powi (exponent x + 1)"
  unfolding exponent_def by (rule binade_gt) simp

lemma exponent_small: "\<bar>x\<bar> < 2 powi (- 1022) \<Longrightarrow> exponent x = - 1022"
  unfolding exponent_def by (rule binade_below)

lemma exponent_mono:
  assumes "\<bar>x\<bar> \<le> \<bar>y\<bar>" and "\<bar>y\<bar> < 2 powi 1026"
  shows "exponent x \<le> exponent y"
proof (cases "\<bar>x\<bar> < 2 powi (- 1022)")
  case True
  then show ?thesis using exponent_range(1) [of y] by (simp add: exponent_small)
next
  case False
  then have "2 powi (exponent x) \<le> \<bar>x\<bar>" by (simp add: exponent_le)
  also note assms(1)
  also have "\<bar>y\<bar> < 2 powi (exponent y + 1)" using assms(2) by (rule exponent_gt)
  finally have "(2 :: real) powi (exponent x) < 2 powi (exponent y + 1)" .
  then have "exponent x < exponent y + 1"
    by simp
  then show ?thesis by simp
qed

lemma exponent_eqI:
  assumes "2 powi e \<le> \<bar>x\<bar>" and "\<bar>x\<bar> < 2 powi (e + 1)" and "- 1022 \<le> e" and "e \<le> 1025"
  shows "exponent x = e"
proof -
  have lo: "(2 :: real) powi (- 1022) \<le> 2 powi e"
    using assms(3) by (intro pow2_le_iff [THEN iffD2])
  with assms(1) have n: "2 powi (- 1022) \<le> \<bar>x\<bar>" by simp
  have "(2 :: real) powi (e + 1) \<le> 2 powi 1026"
    using assms(4) by (intro pow2_le_iff [THEN iffD2]) simp
  with assms(2) have h: "\<bar>x\<bar> < 2 powi 1026" by simp
  from exponent_le [OF n] assms(2) have "(2 :: real) powi (exponent x) < 2 powi (e + 1)" by linarith
  then have 1: "exponent x < e + 1" by simp
  from exponent_gt [OF h] assms(1) have "(2 :: real) powi e < 2 powi (exponent x + 1)" by linarith
  then have 2: "e < exponent x + 1" by simp
  from 1 2 show ?thesis by simp
qed

lemma round_half_even_error: "\<bar>of_int (round_half_even t) - t\<bar> \<le> 1 / 2"
proof -
  have "of_int \<lfloor>t\<rfloor> \<le> t" "t < of_int \<lfloor>t\<rfloor> + 1" by linarith+
  then show ?thesis by (auto simp: round_half_even_def Let_def)
qed

lemma round_half_even_of_int [simp]: "round_half_even (of_int k) = k"
  by (simp add: round_half_even_def)

lemma round_half_even_nonneg: "0 \<le> t \<Longrightarrow> 0 \<le> round_half_even t"
  by (auto simp: round_half_even_def Let_def)

lemma round_half_even_nonpos: "t \<le> 0 \<Longrightarrow> round_half_even t \<le> 0"
proof -
  assume "t \<le> 0"
  have "of_int (round_half_even t) \<le> t + 1 / 2"
    using round_half_even_error [of t] by linarith
  with \<open>t \<le> 0\<close> have "(of_int (round_half_even t) :: real) < 1" by linarith
  then show ?thesis by linarith
qed

lemma quantum_pos [simp]: "0 < quantum x" "0 \<le> quantum x" "quantum x \<noteq> 0"
  by (simp_all add: quantum_def)

lemma nearest_error: "\<bar>nearest x - x\<bar> \<le> quantum x / 2"
proof -
  let ?q = "quantum x"
  have "nearest x - x = (of_int (round_half_even (x / ?q)) - x / ?q) * ?q"
    by (simp add: nearest_def left_diff_distrib)
  then have "\<bar>nearest x - x\<bar> = \<bar>of_int (round_half_even (x / ?q)) - x / ?q\<bar> * ?q"
    by (simp add: abs_mult)
  also have "\<dots> \<le> 1 / 2 * ?q"
    by (intro mult_right_mono round_half_even_error) simp
  finally show ?thesis by simp
qed

lemma nearest_nonneg: "0 \<le> x \<Longrightarrow> 0 \<le> nearest x"
proof -
  assume "0 \<le> x"
  then have "0 \<le> x / quantum x" by simp
  then have "0 \<le> round_half_even (x / quantum x)" by (rule round_half_even_nonneg)
  then show ?thesis by (simp add: nearest_def)
qed

lemma nearest_exact: "x / quantum x = of_int k \<Longrightarrow> nearest x = x"
proof -
  assume a: "x / quantum x = of_int k"
  then have "x = of_int k * quantum x" by (simp add: field_simps)
  with a show ?thesis by (simp add: nearest_def)
qed

lemma round_double_finite:
  "nearest x < 2 powi 1024 \<Longrightarrow> - (2 powi 1024) < nearest x \<Longrightarrow>
   round_double x = Finite (nearest x)"
  by (simp add: round_double_def Let_def del: power_int_numeral)

lemma is_double_nearest: "is_double x \<Longrightarrow> nearest x = x"
  by (auto simp: is_double_def round_double_def Let_def split: if_splits)

lemma is_double_multiple: "is_double x \<Longrightarrow> \<exists>k. x = of_int k * quantum x"
  using is_double_nearest [of x] by (auto simp: nearest_def) metis

lemma quantum_fine:
  assumes "exponent x \<le> 52"
  shows "1 / quantum x = of_int (2 ^ nat (52 - exponent x))"
proof -
  have "quantum x = 2 powi (- int (nat (52 - exponent x)))"
    using assms by (simp add: quantum_def)
  also have "\<dots> = inverse (2 ^ nat (52 - exponent x))"
    by (simp only: power_int_minus power_int_of_nat)
  finally show ?thesis by (simp add: field_simps)
qed

lemma nearest_of_int:
  assumes "\<bar>k\<bar> \<le> 2 ^ 53"
  shows "nearest (of_int k) = of_int k"
proof -
  let ?x = "of_int k :: real"
  from assms have "\<bar>?x\<bar> \<le> of_int (2 ^ 53)"
    by (simp only: of_int_abs [symmetric] of_int_le_iff)
  then have b: "\<bar>?x\<bar> \<le> 2 powi 53" by simp
  have e: "exponent ?x \<le> 53"
  proof (cases "\<bar>?x\<bar> < 2 powi (- 1022)")
    case True
    then show ?thesis by (simp only: exponent_small)
  next
    case False
    then have "2 powi (exponent ?x) \<le> \<bar>?x\<bar>" by (intro exponent_le) simp
    with b have "(2 :: real) powi (exponent ?x) \<le> 2 powi 53" by linarith
    then show ?thesis by (simp only: pow2_le_iff)
  qed
  show ?thesis
  proof (cases "exponent ?x = 53")
    case True
    have "2 powi (- 1022) \<le> \<bar>?x\<bar>"
    proof (rule ccontr)
      assume "\<not> 2 powi (- 1022) \<le> \<bar>?x\<bar>"
      then have "exponent ?x = - 1022" by (intro exponent_small) simp
      with True show False by simp
    qed
    from exponent_le [OF this] True b have "\<bar>?x\<bar> = 2 powi 53" by simp
    then have "real_of_int \<bar>k\<bar> = 2 ^ 53"
      by (simp only: of_int_abs [symmetric] power_int_numeral)
    then have "\<bar>k\<bar> = 2 ^ 53"
      by (simp only: of_int_eq_numeral_power_cancel_iff)
    then have "even \<bar>k\<bar>" by simp
    then have ev: "even k" by simp
    have q: "quantum ?x = 2" by (simp add: quantum_def True)
    from ev obtain j where j: "k = 2 * j" by (auto elim: evenE)
    have "?x / quantum ?x = ?x / 2" by (simp only: q)
    also have "\<dots> = of_int j" by (simp add: j)
    finally have "?x / quantum ?x = of_int j" .
    then show ?thesis by (rule nearest_exact)
  next
    case False
    with e have le: "exponent ?x \<le> 52" by simp
    have "?x / quantum ?x = ?x * (1 / quantum ?x)" by simp
    also have "\<dots> = of_int (k * 2 ^ nat (52 - exponent ?x))"
      by (simp only: quantum_fine [OF le] of_int_mult)
    finally show ?thesis by (rule nearest_exact)
  qed
qed

lemma round_double_of_int:
  assumes "\<bar>k\<bar> \<le> 2 ^ 53"
  shows "round_double (of_int k) = Finite (of_int k)"
proof -
  from assms have "\<bar>of_int k :: real\<bar> \<le> of_int (2 ^ 53)"
    by (simp only: of_int_abs [symmetric] of_int_le_iff)
  then have "\<bar>of_int k :: real\<bar> < 2 powi 1024" by simp
  then show ?thesis
    using nearest_of_int [OF assms] by (intro round_double_finite [THEN trans]) simp_all
qed

lemma js_mul_Finite [simp]: "js_mul (Finite x) (Finite y) = round_double (x * y)"
  by (simp add: js_mul_def)

lemma js_add_Finite [simp]: "js_add (Finite x) (Finite y) = round_double (x + y)"
  by (simp add: js_add_def)

lemma js_gt_Finite [simp]: "js_gt (Finite x) (Finite y) = (y < x)"
  by (simp add: js_gt_def)

lemma js_gt_Infinity [simp]: "js_gt Infinity (Finite y)"
  by (simp add: js_gt_def)

lemma round_double_numeral [simp]:
  "(numeral w :: int) \<le> 2 ^ 53 \<Longrightarrow> round_double (numeral w) = Finite (numeral w)"
  using round_double_of_int [of "numeral w"] by simp

lemma round_double_0 [simp]: "round_double 0 = Finite 0"
  using round_double_of_int [of 0] by simp

lemma round_double_1 [simp]: "round_double 1 = Finite 1"
  using round_double_of_int [of 1] by simp

lemma is_double_below_one:
  assumes "is_double r" and "r < 1"
  shows "r \<le> 1 - 2 powi (- 53)"
proof (cases "1 / 2 \<le> r")
  case False
  then show ?thesis by simp
next
  case True
  have "exponent r = - 1"
    using True assms(2) by (intro exponent_eqI) simp_all
  then have q: "quantum r = 1 / 2 ^ 53"
    by (simp add: quantum_def)
  from is_double_multiple [OF assms(1)] obtain k where k: "r = of_int k * quantum r"
    by blast
  then have r: "r = of_int k / 2 ^ 53" unfolding q by simp
  with assms(2) have "of_int k < (2 ^ 53 :: real)" by (simp add: field_simps)
  then have "k < 2 ^ 53" by simp
  then have "k \<le> 2 ^ 53 - 1" by simp
  then have "(of_int k :: real) \<le> of_int (2 ^ 53 - 1)" by (simp only: of_int_le_iff)
  then have "(of_int k :: real) \<le> 2 ^ 53 - 1" by simp
  then show ?thesis by (simp add: r field_simps)
qed

lemma two_53: "(2 :: real) ^ 53 = 9007199254740992" "(2 :: real) ^ 52 = 4503599627370496"
  by simp_all

lemma nearest_upper: "nearest x \<le> x + quantum x / 2"
  using nearest_error [of x] by linarith

lemma nearest_lower: "x - quantum x / 2 \<le> nearest x"
  using nearest_error [of x] by linarith

lemma quantum_le:
  assumes "exponent x \<le> e"
  shows "quantum x \<le> 2 powi e / 2 ^ 52"
proof -
  have "quantum x \<le> 2 powi (e - 52)"
    unfolding quantum_def using assms by (intro pow2_le_iff [THEN iffD2]) simp
  also have "\<dots> = 2 powi e / 2 powi 52"
    by (rule power_int_diff) simp
  finally show ?thesis by simp
qed

lemma exponent_one: "exponent 1 = 0"
  by (rule exponent_eqI) simp_all

lemma exponent_below_one:
  assumes "\<bar>x\<bar> < 1"
  shows "exponent x \<le> - 1"
proof (cases "\<bar>x\<bar> < 2 powi (- 1022)")
  case True
  then show ?thesis by (simp only: exponent_small)
next
  case False
  then have "2 powi (exponent x) \<le> \<bar>x\<bar>" by (intro exponent_le) simp
  with assms have "(2 :: real) powi (exponent x) < 2 powi 0" by simp
  then have "exponent x < 0" by (simp only: pow2_less_iff)
  then show ?thesis by simp
qed

lemma nearest_product_below:
  assumes "is_double r" and "0 \<le> r" and "r < 1" and "1 \<le> sp" and "sp < 2 powi 1024"
  shows "nearest (r * sp) < sp"
proof -
  let ?x = "r * sp" and ?e = "exponent sp"
  define p where "p = (2 :: real) powi ?e"
  have p0: "0 < p" by (simp add: p_def)
  from is_double_below_one [OF assms(1,3)] have "r \<le> 1 - 1 / 2 ^ 53" by simp
  with assms(4) have "?x \<le> (1 - 1 / 2 ^ 53) * sp"
    by (intro mult_right_mono) simp_all
  then have x1: "?x \<le> sp - sp / 2 ^ 53" by (simp add: algebra_simps)
  from assms have x0: "0 \<le> ?x" by simp
  from assms have x2: "?x < sp" by simp
  have "2 powi (- 1022) \<le> (1 :: real)" by simp
  with assms(4) have "2 powi (- 1022) \<le> \<bar>sp\<bar>" by linarith
  from exponent_le [OF this] assms(4) have lo: "p \<le> sp" by (simp add: p_def)
  have "sp < 2 powi 1026" using assms(5) by simp
  with assms(4) have hi: "\<bar>sp\<bar> < 2 powi 1026" by simp
  from x0 x2 have "\<bar>?x\<bar> \<le> \<bar>sp\<bar>" by linarith
  from exponent_mono [OF this hi] have ex: "exponent ?x \<le> ?e" .
  have e0: "0 \<le> ?e"
    using exponent_mono [of 1 sp] assms(4) hi by (simp add: exponent_one)
  show ?thesis
  proof (cases "exponent ?x = ?e")
    case False
    with ex have "exponent ?x \<le> ?e - 1" by simp
    from quantum_le [OF this] have "quantum ?x \<le> 2 powi (?e - 1) / 2 ^ 52" .
    also have "2 powi (?e - 1) = p / 2"
      unfolding p_def by (subst power_int_diff) simp_all
    finally have "quantum ?x \<le> p / 2 ^ 53" by simp
    with nearest_upper [of ?x] x1 lo p0 show ?thesis unfolding two_53 by linarith
  next
    case True
    have "2 powi (- 1022) \<le> \<bar>?x\<bar>"
    proof (rule ccontr)
      assume "\<not> 2 powi (- 1022) \<le> \<bar>?x\<bar>"
      then have "exponent ?x = - 1022" by (intro exponent_small) simp
      with True e0 show False by simp
    qed
    from exponent_le [OF this] x0 True have px: "p \<le> ?x" by (simp add: p_def)
    from quantum_le [OF ex] have "quantum ?x \<le> p / 2 ^ 52" by (simp add: p_def)
    with nearest_upper [of ?x] x1 x2 px p0 show ?thesis unfolding two_53 by linarith
  qed
qed

lemma nearest_product_small:
  assumes "is_double r" and "0 \<le> r" and "r < 1" and "0 < sp" and "sp < 1"
  shows "nearest (r * sp) < 1"
proof -
  let ?x = "r * sp"
  from assms have x0: "0 \<le> ?x" by simp
  from is_double_below_one [OF assms(1,3)] have "r \<le> 1 - 1 / 2 ^ 53" by simp
  with assms(4) have "?x \<le> (1 - 1 / 2 ^ 53) * sp"
    by (intro mult_right_mono) simp_all
  also from assms(5) have "\<dots> < (1 - 1 / 2 ^ 53) * 1"
    by (intro mult_strict_left_mono) simp_all
  finally have x1: "?x < 1 - 1 / 2 ^ 53" by simp
  with x0 have "\<bar>?x\<bar> < 1" by simp
  then have "exponent ?x \<le> - 1" by (rule exponent_below_one)
  from quantum_le [OF this] have "quantum ?x \<le> 1 / 2 ^ 53" by simp
  with nearest_upper [of ?x] x1 show ?thesis unfolding two_53 by linarith
qed

lemma jitter_range:
  assumes "is_double r" and "0 \<le> r" and "r < 1" and "0 < sp" and "sp < 2 powi 1024"
  shows "\<exists>j. Math_floor (js_mul (Finite r) (Finite sp)) = Finite (of_int j) \<and> 0 \<le> j \<and>
             of_int j < sp"
proof -
  let ?y = "nearest (r * sp)"
  from assms have "0 \<le> r * sp" by simp
  then have y0: "0 \<le> ?y" by (rule nearest_nonneg)
  have y1: "?y < sp \<or> ?y < 1"
    using nearest_product_below [OF assms(1-3) _ assms(5)] nearest_product_small [OF assms(1-4)]
    by (cases "1 \<le> sp") simp_all
  have fl: "of_int \<lfloor>?y\<rfloor> < sp"
  proof (cases "?y < sp")
    case True
    have "of_int \<lfloor>?y\<rfloor> \<le> ?y" by simp
    with True show ?thesis by linarith
  next
    case False
    with y1 have "?y < 1" by simp
    with y0 have "\<lfloor>?y\<rfloor> = 0" by linarith
    with assms(4) show ?thesis by simp
  qed
  from y1 assms(5) have "?y < 2 powi 1024" by auto
  moreover from y0 have "- (2 powi 1024) < ?y" by (simp add: less_le_trans [of _ 0])
  ultimately have "round_double (r * sp) = Finite ?y" by (rule round_double_finite)
  then have "Math_floor (js_mul (Finite r) (Finite sp)) = Finite (of_int \<lfloor>?y\<rfloor>)"
    by (simp add: Math_floor_def)
  moreover from y0 have "0 \<le> \<lfloor>?y\<rfloor>" by simp
  ultimately show ?thesis using fl by blast
qed

lemma is_double_finite:
  assumes "is_double x"
  shows "x < 2 powi 1024"
proof (rule ccontr)
  assume "\<not> x < 2 powi 1024"
  then have "2 powi 1024 \<le> nearest x"
    by (simp only: is_double_nearest [OF assms] not_less)
  then have "round_double x = Infinity"
    by (simp only: round_double_def Let_def if_True)
  with assms show False
    by (simp only: is_double_def number.distinct)
qed

lemma nearest_multiple: "x = of_int m * quantum x \<Longrightarrow> nearest x = x"
proof -
  assume "x = of_int m * quantum x"
  then have "x / quantum x = of_int m" by (simp add: field_simps)
  then show ?thesis by (rule nearest_exact)
qed

lemma nearest_scaled:
  assumes "\<bar>k\<bar> < 2 ^ 53"
  shows "nearest (of_int k * 2 ^ n) = of_int k * 2 ^ n"
proof (cases "k = 0")
  case True
  then show ?thesis using nearest_of_int [of 0] by simp
next
  case False
  let ?x = "of_int k * 2 ^ n :: real"
  from False have "1 \<le> \<bar>k\<bar>" by simp
  then have "(1 :: real) \<le> of_int \<bar>k\<bar>" by (simp only: of_int_1_le_iff)
  then have k1: "1 \<le> \<bar>of_int k :: real\<bar>" by simp
  have "(1 :: real) \<le> 2 ^ n" by simp
  with k1 have "1 * 1 \<le> \<bar>of_int k :: real\<bar> * 2 ^ n"
    by (intro mult_mono) simp_all
  then have x1: "1 \<le> \<bar>?x\<bar>" by (simp add: abs_mult)
  have "2 powi (- 1022) \<le> (1 :: real)" by simp
  with x1 have "2 powi (- 1022) \<le> \<bar>?x\<bar>" by linarith
  then have lo: "2 powi (exponent ?x) \<le> \<bar>?x\<bar>" by (rule exponent_le)
  from assms have "of_int \<bar>k\<bar> < (of_int (2 ^ 53) :: real)" by (simp only: of_int_less_iff)
  then have "\<bar>of_int k :: real\<bar> < 2 ^ 53" by simp
  then have "\<bar>?x\<bar> < 2 ^ 53 * 2 ^ n" by (simp add: abs_mult)
  also have "\<dots> = 2 powi 53 * 2 powi (int n)" by simp
  also have "\<dots> = 2 powi (53 + int n)" by (rule power_int_add [symmetric]) simp
  finally have "(2 :: real) powi (exponent ?x) < 2 powi (53 + int n)" using lo by linarith
  then have "exponent ?x < 53 + int n" by (simp only: pow2_less_iff)
  then have nn: "0 \<le> int n + 52 - exponent ?x" by simp
  define d where "d = nat (int n + 52 - exponent ?x)"
  from nn have d: "int n + 52 - exponent ?x = int d" by (simp add: d_def)
  have "quantum ?x * 2 ^ d = 2 powi (exponent ?x - 52) * 2 powi (int d)"
    by (simp add: quantum_def)
  also have "\<dots> = 2 powi (exponent ?x - 52 + int d)"
    by (rule power_int_add [symmetric]) simp
  also have "exponent ?x - 52 + int d = int n" using d by simp
  finally have eq: "quantum ?x * 2 ^ d = 2 ^ n" by simp
  have "of_int (k * 2 ^ d) * quantum ?x = of_int k * (quantum ?x * 2 ^ d)" by simp
  also have "\<dots> = ?x" by (simp only: eq)
  finally have "of_int (k * 2 ^ d) * quantum ?x = ?x" .
  then have "?x = of_int (k * 2 ^ d) * quantum ?x" by (rule sym)
  then show ?thesis by (rule nearest_multiple)
qed

lemma round_double_scaled:
  assumes "\<bar>k\<bar> < 2 ^ 53"
  shows "round_double (of_int k * 2 ^ n) =
           (if 2 powi 1024 \<le> (of_int k * 2 ^ n :: real) then Infinity
            else if (of_int k * 2 ^ n :: real) \<le> - (2 powi 1024) then MinusInfinity
            else Finite (of_int k * 2 ^ n))"
  by (simp only: round_double_def Let_def nearest_scaled [OF assms])

text \<open>The default factor and its square are doubles.\<close>

lemma round_double_three_halves [simp]:
  "round_double (3 / 2) = Finite (3 / 2)" "round_double (9 / 4) = Finite (9 / 4)"
  by (simp_all add: round_double_def nearest_def quantum_def exponent_def eval_nat_numeral
        round_half_even_def Let_def)

text \<open>Sums and products of integers that stay within \<open>2^53\<close> are exact.\<close>

lemma round_double_int_sum:
  "\<bar>a + b\<bar> \<le> 2 ^ 53 \<Longrightarrow>
   js_add (Finite (of_int a)) (Finite (of_int b)) = Finite (of_int (a + b))"
  using round_double_of_int [of "a + b"] by simp

lemma round_double_int_product:
  "\<bar>a * b\<bar> \<le> 2 ^ 53 \<Longrightarrow>
   js_mul (Finite (of_int a)) (Finite (of_int b)) = Finite (of_int (a * b))"
  using round_double_of_int [of "a * b"] by simp

lemma Math_trunc_Finite [simp]: "Math_trunc (Finite x) = Finite (of_int (trunc x))"
  by (simp add: Math_trunc_def)

lemma trunc_of_int [simp]: "trunc (of_int k) = k"
  by (simp add: trunc_def)

lemma trunc_two_power [simp]: "trunc (2 ^ n) = 2 ^ n"
  using trunc_of_int [of "2 ^ n"] by simp

text \<open>With a correctly rounded power of two the product by 1000 is exact or infinite.\<close>

lemma exact_pow_two:
  "exact_pow (Finite 2) n = (if 2 powi 1024 \<le> (2 ^ n :: real) then Infinity else Finite (2 ^ n))"
proof -
  have "round_double (of_int 1 * 2 ^ n) =
      (if 2 powi 1024 \<le> (of_int 1 * 2 ^ n :: real) then Infinity
       else if (of_int 1 * 2 ^ n :: real) \<le> - (2 powi 1024) then MinusInfinity
       else Finite (of_int 1 * 2 ^ n))"
    by (rule round_double_scaled) simp
  moreover have "\<not> (2 ^ n :: real) \<le> - (2 powi 1024)"
  proof -
    have "(0 :: real) < 2 ^ n" by simp
    moreover have "(0 :: real) < 2 powi 1024" by (rule zero_less_power_int) simp
    ultimately show ?thesis by linarith
  qed
  ultimately have "round_double (2 ^ n) =
      (if 2 powi 1024 \<le> (2 ^ n :: real) then Infinity else Finite (2 ^ n))"
    by (simp only: of_int_1 mult_1 if_False)
  then show ?thesis
    by (cases "n = 0") (simp_all add: exact_pow_def del: power_int_numeral)
qed

section \<open>Frame lemmas\<close>

text \<open>
  For every operation, the fields it leaves alone. The operations that run a timer or a
  whole step may touch any field and are treated where they are needed.
\<close>

lemma clearTimeout_frame [simp]:
  "connecting (clearTimeout i s) = connecting s"
  "connected (clearTimeout i s) = connected s"
  "reconnecting (clearTimeout i s) = reconnecting s"
  "socket (clearTimeout i s) = socket s"
  "closing (clearTimeout i s) = closing s"
  "reconnector (clearTimeout i s) = reconnector s"
  "reconnectAttempts (clearTimeout i s) = reconnectAttempts s"
  "replyHandlers (clearTimeout i s) = replyHandlers s"
  "gate (clearTimeout i s) = gate s"
  "websocketSequence (clearTimeout i s) = websocketSequence s"
  "next_timer (clearTimeout i s) = next_timer s"
  "gates (clearTimeout i s) = gates s"
  "connect_promises (clearTimeout i s) = connect_promises s"
  "fetching (clearTimeout i s) = fetching s"
  "next_call (clearTimeout i s) = next_call s"
  "attempts (clearTimeout i s) = attempts s"
  "next_socket (clearTimeout i s) = next_socket s"
  "send_promises (clearTimeout i s) = send_promises s"
  "send_thens (clearTimeout i s) = send_thens s"
  "next_send (clearTimeout i s) = next_send s"
  "sub_promises (clearTimeout i s) = sub_promises s"
  "next_sub (clearTimeout i s) = next_sub s"
  "dispatched (clearTimeout i s) = dispatched s"
  "sent (clearTimeout i s) = sent s"
  "closed (clearTimeout i s) = closed s"
  by (simp_all add: clearTimeout_def)

lemma dispatchEvent_frame [simp]:
  "connecting (dispatchEvent ev s) = connecting s"
  "connected (dispatchEvent ev s) = connected s"
  "reconnecting (dispatchEvent ev s) = reconnecting s"
  "socket (dispatchEvent ev s) = socket s"
  "closing (dispatchEvent ev s) = closing s"
  "reconnector (dispatchEvent ev s) = reconnector s"
  "reconnectAttempts (dispatchEvent ev s) = reconnectAttempts s"
  "replyHandlers (dispatchEvent ev s) = replyHandlers s"
  "gate (dispatchEvent ev s) = gate s"
  "websocketSequence (dispatchEvent ev s) = websocketSequence s"
  "timers (dispatchEvent ev s) = timers s"
  "next_timer (dispatchEvent ev s) = next_timer s"
  "gates (dispatchEvent ev s) = gates s"
  "connect_promises (dispatchEvent ev s) = connect_promises s"
  "fetching (dispatchEvent ev s) = fetching s"
  "next_call (dispatchEvent ev s) = next_call s"
  "attempts (dispatchEvent ev s) = attempts s"
  "next_socket (dispatchEvent ev s) = next_socket s"
  "send_promises (dispatchEvent ev s) = send_promises s"
  "send_thens (dispatchEvent ev s) = send_thens s"
  "next_send (dispatchEvent ev s) = next_send s"
  "sub_promises (dispatchEvent ev s) = sub_promises s"
  "next_sub (dispatchEvent ev s) = next_sub s"
  "sent (dispatchEvent ev s) = sent s"
  "closed (dispatchEvent ev s) = closed s"
  by (simp_all add: dispatchEvent_def)

lemma dispatchStateChangedEvent_frame [simp]:
  "connecting (dispatchStateChangedEvent s) = connecting s"
  "connected (dispatchStateChangedEvent s) = connected s"
  "reconnecting (dispatchStateChangedEvent s) = reconnecting s"
  "socket (dispatchStateChangedEvent s) = socket s"
  "closing (dispatchStateChangedEvent s) = closing s"
  "reconnector (dispatchStateChangedEvent s) = reconnector s"
  "reconnectAttempts (dispatchStateChangedEvent s) = reconnectAttempts s"
  "replyHandlers (dispatchStateChangedEvent s) = replyHandlers s"
  "gate (dispatchStateChangedEvent s) = gate s"
  "websocketSequence (dispatchStateChangedEvent s) = websocketSequence s"
  "timers (dispatchStateChangedEvent s) = timers s"
  "next_timer (dispatchStateChangedEvent s) = next_timer s"
  "gates (dispatchStateChangedEvent s) = gates s"
  "connect_promises (dispatchStateChangedEvent s) = connect_promises s"
  "fetching (dispatchStateChangedEvent s) = fetching s"
  "next_call (dispatchStateChangedEvent s) = next_call s"
  "attempts (dispatchStateChangedEvent s) = attempts s"
  "next_socket (dispatchStateChangedEvent s) = next_socket s"
  "send_promises (dispatchStateChangedEvent s) = send_promises s"
  "send_thens (dispatchStateChangedEvent s) = send_thens s"
  "next_send (dispatchStateChangedEvent s) = next_send s"
  "sub_promises (dispatchStateChangedEvent s) = sub_promises s"
  "next_sub (dispatchStateChangedEvent s) = next_sub s"
  "sent (dispatchStateChangedEvent s) = sent s"
  "closed (dispatchStateChangedEvent s) = closed s"
  by (simp_all add: dispatchStateChangedEvent_def)

lemma dispatchStreamEvent_frame [simp]:
  "connecting (dispatchStreamEvent dat nfo s) = connecting s"
  "connected (dispatchStreamEvent dat nfo s) = connected s"
  "reconnecting (dispatchStreamEvent dat nfo s) = reconnecting s"
  "socket (dispatchStreamEvent dat nfo s) = socket s"
  "closing (dispatchStreamEvent dat nfo s) = closing s"
  "reconnector (dispatchStreamEvent dat nfo s) = reconnector s"
  "reconnectAttempts (dispatchStreamEvent dat nfo s) = reconnectAttempts s"
  "replyHandlers (dispatchStreamEvent dat nfo s) = replyHandlers s"
  "gate (dispatchStreamEvent dat nfo s) = gate s"
  "websocketSequence (dispatchStreamEvent dat nfo s) = websocketSequence s"
  "timers (dispatchStreamEvent dat nfo s) = timers s"
  "next_timer (dispatchStreamEvent dat nfo s) = next_timer s"
  "gates (dispatchStreamEvent dat nfo s) = gates s"
  "connect_promises (dispatchStreamEvent dat nfo s) = connect_promises s"
  "fetching (dispatchStreamEvent dat nfo s) = fetching s"
  "next_call (dispatchStreamEvent dat nfo s) = next_call s"
  "attempts (dispatchStreamEvent dat nfo s) = attempts s"
  "next_socket (dispatchStreamEvent dat nfo s) = next_socket s"
  "send_promises (dispatchStreamEvent dat nfo s) = send_promises s"
  "send_thens (dispatchStreamEvent dat nfo s) = send_thens s"
  "next_send (dispatchStreamEvent dat nfo s) = next_send s"
  "sub_promises (dispatchStreamEvent dat nfo s) = sub_promises s"
  "next_sub (dispatchStreamEvent dat nfo s) = next_sub s"
  "sent (dispatchStreamEvent dat nfo s) = sent s"
  "closed (dispatchStreamEvent dat nfo s) = closed s"
  by (simp_all add: dispatchStreamEvent_def)

lemma dispatchErrorEvent_frame [simp]:
  "connecting (dispatchErrorEvent err s) = connecting s"
  "connected (dispatchErrorEvent err s) = connected s"
  "reconnecting (dispatchErrorEvent err s) = reconnecting s"
  "socket (dispatchErrorEvent err s) = socket s"
  "closing (dispatchErrorEvent err s) = closing s"
  "reconnector (dispatchErrorEvent err s) = reconnector s"
  "reconnectAttempts (dispatchErrorEvent err s) = reconnectAttempts s"
  "replyHandlers (dispatchErrorEvent err s) = replyHandlers s"
  "gate (dispatchErrorEvent err s) = gate s"
  "websocketSequence (dispatchErrorEvent err s) = websocketSequence s"
  "timers (dispatchErrorEvent err s) = timers s"
  "next_timer (dispatchErrorEvent err s) = next_timer s"
  "gates (dispatchErrorEvent err s) = gates s"
  "connect_promises (dispatchErrorEvent err s) = connect_promises s"
  "fetching (dispatchErrorEvent err s) = fetching s"
  "next_call (dispatchErrorEvent err s) = next_call s"
  "attempts (dispatchErrorEvent err s) = attempts s"
  "next_socket (dispatchErrorEvent err s) = next_socket s"
  "send_promises (dispatchErrorEvent err s) = send_promises s"
  "send_thens (dispatchErrorEvent err s) = send_thens s"
  "next_send (dispatchErrorEvent err s) = next_send s"
  "sub_promises (dispatchErrorEvent err s) = sub_promises s"
  "next_sub (dispatchErrorEvent err s) = next_sub s"
  "sent (dispatchErrorEvent err s) = sent s"
  "closed (dispatchErrorEvent err s) = closed s"
  by (simp_all add: dispatchErrorEvent_def)

lemma closeStreamWebsocket_frame [simp]:
  "connecting (closeStreamWebsocket sock s) = connecting s"
  "connected (closeStreamWebsocket sock s) = connected s"
  "reconnecting (closeStreamWebsocket sock s) = reconnecting s"
  "socket (closeStreamWebsocket sock s) = socket s"
  "reconnector (closeStreamWebsocket sock s) = reconnector s"
  "reconnectAttempts (closeStreamWebsocket sock s) = reconnectAttempts s"
  "replyHandlers (closeStreamWebsocket sock s) = replyHandlers s"
  "gate (closeStreamWebsocket sock s) = gate s"
  "websocketSequence (closeStreamWebsocket sock s) = websocketSequence s"
  "timers (closeStreamWebsocket sock s) = timers s"
  "next_timer (closeStreamWebsocket sock s) = next_timer s"
  "gates (closeStreamWebsocket sock s) = gates s"
  "connect_promises (closeStreamWebsocket sock s) = connect_promises s"
  "fetching (closeStreamWebsocket sock s) = fetching s"
  "next_call (closeStreamWebsocket sock s) = next_call s"
  "attempts (closeStreamWebsocket sock s) = attempts s"
  "next_socket (closeStreamWebsocket sock s) = next_socket s"
  "send_promises (closeStreamWebsocket sock s) = send_promises s"
  "send_thens (closeStreamWebsocket sock s) = send_thens s"
  "next_send (closeStreamWebsocket sock s) = next_send s"
  "sub_promises (closeStreamWebsocket sock s) = sub_promises s"
  "next_sub (closeStreamWebsocket sock s) = next_sub s"
  "dispatched (closeStreamWebsocket sock s) = dispatched s"
  "sent (closeStreamWebsocket sock s) = sent s"
  by (simp_all add: closeStreamWebsocket_def Let_def)

lemma resolve_sub_frame [simp]:
  "connecting (resolve_sub p s) = connecting s"
  "connected (resolve_sub p s) = connected s"
  "reconnecting (resolve_sub p s) = reconnecting s"
  "socket (resolve_sub p s) = socket s"
  "closing (resolve_sub p s) = closing s"
  "reconnector (resolve_sub p s) = reconnector s"
  "reconnectAttempts (resolve_sub p s) = reconnectAttempts s"
  "replyHandlers (resolve_sub p s) = replyHandlers s"
  "gate (resolve_sub p s) = gate s"
  "websocketSequence (resolve_sub p s) = websocketSequence s"
  "timers (resolve_sub p s) = timers s"
  "next_timer (resolve_sub p s) = next_timer s"
  "gates (resolve_sub p s) = gates s"
  "connect_promises (resolve_sub p s) = connect_promises s"
  "fetching (resolve_sub p s) = fetching s"
  "next_call (resolve_sub p s) = next_call s"
  "attempts (resolve_sub p s) = attempts s"
  "next_socket (resolve_sub p s) = next_socket s"
  "send_promises (resolve_sub p s) = send_promises s"
  "send_thens (resolve_sub p s) = send_thens s"
  "next_send (resolve_sub p s) = next_send s"
  "next_sub (resolve_sub p s) = next_sub s"
  "dispatched (resolve_sub p s) = dispatched s"
  "sent (resolve_sub p s) = sent s"
  "closed (resolve_sub p s) = closed s"
  by (simp_all add: resolve_sub_def)

lemma reject_sub_frame [simp]:
  "connecting (reject_sub p e s) = connecting s"
  "connected (reject_sub p e s) = connected s"
  "reconnecting (reject_sub p e s) = reconnecting s"
  "socket (reject_sub p e s) = socket s"
  "closing (reject_sub p e s) = closing s"
  "reconnector (reject_sub p e s) = reconnector s"
  "reconnectAttempts (reject_sub p e s) = reconnectAttempts s"
  "replyHandlers (reject_sub p e s) = replyHandlers s"
  "gate (reject_sub p e s) = gate s"
  "websocketSequence (reject_sub p e s) = websocketSequence s"
  "timers (reject_sub p e s) = timers s"
  "next_timer (reject_sub p e s) = next_timer s"
  "gates (reject_sub p e s) = gates s"
  "connect_promises (reject_sub p e s) = connect_promises s"
  "fetching (reject_sub p e s) = fetching s"
  "next_call (reject_sub p e s) = next_call s"
  "attempts (reject_sub p e s) = attempts s"
  "next_socket (reject_sub p e s) = next_socket s"
  "send_promises (reject_sub p e s) = send_promises s"
  "send_thens (reject_sub p e s) = send_thens s"
  "next_send (reject_sub p e s) = next_send s"
  "next_sub (reject_sub p e s) = next_sub s"
  "dispatched (reject_sub p e s) = dispatched s"
  "sent (reject_sub p e s) = sent s"
  "closed (reject_sub p e s) = closed s"
  by (simp_all add: reject_sub_def)

lemma resolve_send_frame [simp]:
  "connecting (resolve_send q m s) = connecting s"
  "connected (resolve_send q m s) = connected s"
  "reconnecting (resolve_send q m s) = reconnecting s"
  "socket (resolve_send q m s) = socket s"
  "closing (resolve_send q m s) = closing s"
  "reconnector (resolve_send q m s) = reconnector s"
  "reconnectAttempts (resolve_send q m s) = reconnectAttempts s"
  "replyHandlers (resolve_send q m s) = replyHandlers s"
  "gate (resolve_send q m s) = gate s"
  "websocketSequence (resolve_send q m s) = websocketSequence s"
  "timers (resolve_send q m s) = timers s"
  "next_timer (resolve_send q m s) = next_timer s"
  "gates (resolve_send q m s) = gates s"
  "connect_promises (resolve_send q m s) = connect_promises s"
  "fetching (resolve_send q m s) = fetching s"
  "next_call (resolve_send q m s) = next_call s"
  "attempts (resolve_send q m s) = attempts s"
  "next_socket (resolve_send q m s) = next_socket s"
  "send_thens (resolve_send q m s) = send_thens s"
  "next_send (resolve_send q m s) = next_send s"
  "next_sub (resolve_send q m s) = next_sub s"
  "dispatched (resolve_send q m s) = dispatched s"
  "sent (resolve_send q m s) = sent s"
  "closed (resolve_send q m s) = closed s"
  by (simp_all add: resolve_send_def Let_def split: option.splits)

lemma reject_send_frame [simp]:
  "connecting (reject_send q e s) = connecting s"
  "connected (reject_send q e s) = connected s"
  "reconnecting (reject_send q e s) = reconnecting s"
  "socket (reject_send q e s) = socket s"
  "closing (reject_send q e s) = closing s"
  "reconnector (reject_send q e s) = reconnector s"
  "reconnectAttempts (reject_send q e s) = reconnectAttempts s"
  "replyHandlers (reject_send q e s) = replyHandlers s"
  "gate (reject_send q e s) = gate s"
  "websocketSequence (reject_send q e s) = websocketSequence s"
  "timers (reject_send q e s) = timers s"
  "next_timer (reject_send q e s) = next_timer s"
  "gates (reject_send q e s) = gates s"
  "connect_promises (reject_send q e s) = connect_promises s"
  "fetching (reject_send q e s) = fetching s"
  "next_call (reject_send q e s) = next_call s"
  "attempts (reject_send q e s) = attempts s"
  "next_socket (reject_send q e s) = next_socket s"
  "send_thens (reject_send q e s) = send_thens s"
  "next_send (reject_send q e s) = next_send s"
  "sub_promises (reject_send q e s) = sub_promises s"
  "next_sub (reject_send q e s) = next_sub s"
  "dispatched (reject_send q e s) = dispatched s"
  "sent (reject_send q e s) = sent s"
  "closed (reject_send q e s) = closed s"
  by (simp_all add: reject_send_def)

lemma resolve_connect_frame [simp]:
  "connecting (resolve_connect k s) = connecting s"
  "connected (resolve_connect k s) = connected s"
  "reconnecting (resolve_connect k s) = reconnecting s"
  "socket (resolve_connect k s) = socket s"
  "closing (resolve_connect k s) = closing s"
  "reconnector (resolve_connect k s) = reconnector s"
  "reconnectAttempts (resolve_connect k s) = reconnectAttempts s"
  "replyHandlers (resolve_connect k s) = replyHandlers s"
  "gate (resolve_connect k s) = gate s"
  "websocketSequence (resolve_connect k s) = websocketSequence s"
  "timers (resolve_connect k s) = timers s"
  "next_timer (resolve_connect k s) = next_timer s"
  "gates (resolve_connect k s) = gates s"
  "fetching (resolve_connect k s) = fetching s"
  "next_call (resolve_connect k s) = next_call s"
  "attempts (resolve_connect k s) = attempts s"
  "next_socket (resolve_connect k s) = next_socket s"
  "send_promises (resolve_connect k s) = send_promises s"
  "send_thens (resolve_connect k s) = send_thens s"
  "next_send (resolve_connect k s) = next_send s"
  "sub_promises (resolve_connect k s) = sub_promises s"
  "next_sub (resolve_connect k s) = next_sub s"
  "dispatched (resolve_connect k s) = dispatched s"
  "sent (resolve_connect k s) = sent s"
  "closed (resolve_connect k s) = closed s"
  by (simp_all add: resolve_connect_def)

lemma reject_connect_frame [simp]:
  "connecting (reject_connect k e s) = connecting s"
  "connected (reject_connect k e s) = connected s"
  "reconnecting (reject_connect k e s) = reconnecting s"
  "socket (reject_connect k e s) = socket s"
  "closing (reject_connect k e s) = closing s"
  "reconnector (reject_connect k e s) = reconnector s"
  "reconnectAttempts (reject_connect k e s) = reconnectAttempts s"
  "replyHandlers (reject_connect k e s) = replyHandlers s"
  "gate (reject_connect k e s) = gate s"
  "websocketSequence (reject_connect k e s) = websocketSequence s"
  "timers (reject_connect k e s) = timers s"
  "next_timer (reject_connect k e s) = next_timer s"
  "gates (reject_connect k e s) = gates s"
  "fetching (reject_connect k e s) = fetching s"
  "next_call (reject_connect k e s) = next_call s"
  "attempts (reject_connect k e s) = attempts s"
  "next_socket (reject_connect k e s) = next_socket s"
  "send_promises (reject_connect k e s) = send_promises s"
  "send_thens (reject_connect k e s) = send_thens s"
  "next_send (reject_connect k e s) = next_send s"
  "sub_promises (reject_connect k e s) = sub_promises s"
  "next_sub (reject_connect k e s) = next_sub s"
  "dispatched (reject_connect k e s) = dispatched s"
  "sent (reject_connect k e s) = sent s"
  "closed (reject_connect k e s) = closed s"
  by (simp_all add: reject_connect_def)

lemma gateReject_frame [simp]:
  "connecting (gateReject k s) = connecting s"
  "connected (gateReject k s) = connected s"
  "reconnecting (gateReject k s) = reconnecting s"
  "socket (gateReject k s) = socket s"
  "closing (gateReject k s) = closing s"
  "reconnector (gateReject k s) = reconnector s"
  "reconnectAttempts (gateReject k s) = reconnectAttempts s"
  "replyHandlers (gateReject k s) = replyHandlers s"
  "gate (gateReject k s) = gate s"
  "websocketSequence (gateReject k s) = websocketSequence s"
  "timers (gateReject k s) = timers s"
  "next_timer (gateReject k s) = next_timer s"
  "connect_promises (gateReject k s) = connect_promises s"
  "fetching (gateReject k s) = fetching s"
  "next_call (gateReject k s) = next_call s"
  "attempts (gateReject k s) = attempts s"
  "next_socket (gateReject k s) = next_socket s"
  "send_promises (gateReject k s) = send_promises s"
  "send_thens (gateReject k s) = send_thens s"
  "next_send (gateReject k s) = next_send s"
  "sub_promises (gateReject k s) = sub_promises s"
  "next_sub (gateReject k s) = next_sub s"
  "dispatched (gateReject k s) = dispatched s"
  "sent (gateReject k s) = sent s"
  "closed (gateReject k s) = closed s"
  by (simp_all add: gateReject_def Let_def)

lemma sendStreamWebSocketPayload_frame [simp]:
  "connecting (snd (sendStreamWebSocketPayload opts b payload rt ts s)) = connecting s"
  "connected (snd (sendStreamWebSocketPayload opts b payload rt ts s)) = connected s"
  "reconnecting (snd (sendStreamWebSocketPayload opts b payload rt ts s)) = reconnecting s"
  "socket (snd (sendStreamWebSocketPayload opts b payload rt ts s)) = socket s"
  "closing (snd (sendStreamWebSocketPayload opts b payload rt ts s)) = closing s"
  "reconnector (snd (sendStreamWebSocketPayload opts b payload rt ts s)) = reconnector s"
  "reconnectAttempts (snd (sendStreamWebSocketPayload opts b payload rt ts s)) = reconnectAttempts s"
  "gate (snd (sendStreamWebSocketPayload opts b payload rt ts s)) = gate s"
  "gates (snd (sendStreamWebSocketPayload opts b payload rt ts s)) = gates s"
  "connect_promises (snd (sendStreamWebSocketPayload opts b payload rt ts s)) = connect_promises s"
  "fetching (snd (sendStreamWebSocketPayload opts b payload rt ts s)) = fetching s"
  "next_call (snd (sendStreamWebSocketPayload opts b payload rt ts s)) = next_call s"
  "attempts (snd (sendStreamWebSocketPayload opts b payload rt ts s)) = attempts s"
  "next_socket (snd (sendStreamWebSocketPayload opts b payload rt ts s)) = next_socket s"
  "sub_promises (snd (sendStreamWebSocketPayload opts b payload rt ts s)) = sub_promises s"
  "next_sub (snd (sendStreamWebSocketPayload opts b payload rt ts s)) = next_sub s"
  "dispatched (snd (sendStreamWebSocketPayload opts b payload rt ts s)) = dispatched s"
  "closed (snd (sendStreamWebSocketPayload opts b payload rt ts s)) = closed s"
  by (simp_all add: sendStreamWebSocketPayload_def Let_def setTimeout_def split: option.splits)

lemma run_thens_frame [simp]:
  "connecting (run_thens opts b ws s) = connecting s \<and>
   connected (run_thens opts b ws s) = connected s \<and>
   reconnecting (run_thens opts b ws s) = reconnecting s \<and>
   socket (run_thens opts b ws s) = socket s \<and>
   closing (run_thens opts b ws s) = closing s \<and>
   reconnector (run_thens opts b ws s) = reconnector s \<and>
   reconnectAttempts (run_thens opts b ws s) = reconnectAttempts s \<and>
   gate (run_thens opts b ws s) = gate s \<and>
   gates (run_thens opts b ws s) = gates s \<and>
   connect_promises (run_thens opts b ws s) = connect_promises s \<and>
   fetching (run_thens opts b ws s) = fetching s \<and>
   next_call (run_thens opts b ws s) = next_call s \<and>
   attempts (run_thens opts b ws s) = attempts s \<and>
   next_socket (run_thens opts b ws s) = next_socket s \<and>
   sub_promises (run_thens opts b ws s) = sub_promises s \<and>
   next_sub (run_thens opts b ws s) = next_sub s \<and>
   dispatched (run_thens opts b ws s) = dispatched s \<and>
   closed (run_thens opts b ws s) = closed s"
  proof (induction ws arbitrary: s)
  case Nil
  show ?case by simp
next
  case (Cons w ws)
  show ?case by (cases w) (simp add: Cons.IH)
qed

lemma gateResolve_frame [simp]:
  "connecting (gateResolve opts b k s) = connecting s"
  "connected (gateResolve opts b k s) = connected s"
  "reconnecting (gateResolve opts b k s) = reconnecting s"
  "socket (gateResolve opts b k s) = socket s"
  "closing (gateResolve opts b k s) = closing s"
  "reconnector (gateResolve opts b k s) = reconnector s"
  "reconnectAttempts (gateResolve opts b k s) = reconnectAttempts s"
  "gate (gateResolve opts b k s) = gate s"
  "connect_promises (gateResolve opts b k s) = connect_promises s"
  "fetching (gateResolve opts b k s) = fetching s"
  "next_call (gateResolve opts b k s) = next_call s"
  "attempts (gateResolve opts b k s) = attempts s"
  "next_socket (gateResolve opts b k s) = next_socket s"
  "sub_promises (gateResolve opts b k s) = sub_promises s"
  "next_sub (gateResolve opts b k s) = next_sub s"
  "dispatched (gateResolve opts b k s) = dispatched s"
  "closed (gateResolve opts b k s) = closed s"
  by (simp_all add: gateResolve_def Let_def)

lemma connect_reconnector_frame [simp]:
  "connecting (connect_reconnector opts b fast s) = connecting s"
  "connected (connect_reconnector opts b fast s) = connected s"
  "reconnecting (connect_reconnector opts b fast s) = reconnecting s"
  "socket (connect_reconnector opts b fast s) = socket s"
  "closing (connect_reconnector opts b fast s) = closing s"
  "replyHandlers (connect_reconnector opts b fast s) = replyHandlers s"
  "gate (connect_reconnector opts b fast s) = gate s"
  "websocketSequence (connect_reconnector opts b fast s) = websocketSequence s"
  "gates (connect_reconnector opts b fast s) = gates s"
  "connect_promises (connect_reconnector opts b fast s) = connect_promises s"
  "fetching (connect_reconnector opts b fast s) = fetching s"
  "next_call (connect_reconnector opts b fast s) = next_call s"
  "attempts (connect_reconnector opts b fast s) = attempts s"
  "next_socket (connect_reconnector opts b fast s) = next_socket s"
  "send_promises (connect_reconnector opts b fast s) = send_promises s"
  "send_thens (connect_reconnector opts b fast s) = send_thens s"
  "next_send (connect_reconnector opts b fast s) = next_send s"
  "sub_promises (connect_reconnector opts b fast s) = sub_promises s"
  "next_sub (connect_reconnector opts b fast s) = next_sub s"
  "dispatched (connect_reconnector opts b fast s) = dispatched s"
  "sent (connect_reconnector opts b fast s) = sent s"
  "closed (connect_reconnector opts b fast s) = closed s"
  by (simp_all add: connect_reconnector_def Let_def setTimeout_def)

lemma resolve_attempt_frame [simp]:
  "connecting (resolve_attempt opts b a s) = connecting s"
  "connected (resolve_attempt opts b a s) = connected s"
  "reconnecting (resolve_attempt opts b a s) = reconnecting s"
  "socket (resolve_attempt opts b a s) = socket s"
  "closing (resolve_attempt opts b a s) = closing s"
  "reconnector (resolve_attempt opts b a s) = reconnector s"
  "gate (resolve_attempt opts b a s) = gate s"
  "fetching (resolve_attempt opts b a s) = fetching s"
  "next_call (resolve_attempt opts b a s) = next_call s"
  "next_socket (resolve_attempt opts b a s) = next_socket s"
  "sub_promises (resolve_attempt opts b a s) = sub_promises s"
  "next_sub (resolve_attempt opts b a s) = next_sub s"
  "dispatched (resolve_attempt opts b a s) = dispatched s"
  "closed (resolve_attempt opts b a s) = closed s"
  by (simp_all add: resolve_attempt_def Let_def)

lemma reject_attempt_frame [simp]:
  "connecting (reject_attempt opts b a e s) = connecting s"
  "connected (reject_attempt opts b a e s) = connected s"
  "reconnecting (reject_attempt opts b a e s) = reconnecting s"
  "socket (reject_attempt opts b a e s) = socket s"
  "closing (reject_attempt opts b a e s) = closing s"
  "replyHandlers (reject_attempt opts b a e s) = replyHandlers s"
  "gate (reject_attempt opts b a e s) = gate s"
  "websocketSequence (reject_attempt opts b a e s) = websocketSequence s"
  "fetching (reject_attempt opts b a e s) = fetching s"
  "next_call (reject_attempt opts b a e s) = next_call s"
  "next_socket (reject_attempt opts b a e s) = next_socket s"
  "send_promises (reject_attempt opts b a e s) = send_promises s"
  "send_thens (reject_attempt opts b a e s) = send_thens s"
  "next_send (reject_attempt opts b a e s) = next_send s"
  "sub_promises (reject_attempt opts b a e s) = sub_promises s"
  "next_sub (reject_attempt opts b a e s) = next_sub s"
  "dispatched (reject_attempt opts b a e s) = dispatched s"
  "sent (reject_attempt opts b a e s) = sent s"
  "closed (reject_attempt opts b a e s) = closed s"
  by (simp_all add: reject_attempt_def Let_def)

lemma connectStreamWebSocket_frame [simp]:
  "connecting (connectStreamWebSocket opts b recon k s) = connecting s"
  "reconnecting (connectStreamWebSocket opts b recon k s) = reconnecting s"
  "replyHandlers (connectStreamWebSocket opts b recon k s) = replyHandlers s"
  "gate (connectStreamWebSocket opts b recon k s) = gate s"
  "websocketSequence (connectStreamWebSocket opts b recon k s) = websocketSequence s"
  "fetching (connectStreamWebSocket opts b recon k s) = fetching s"
  "next_call (connectStreamWebSocket opts b recon k s) = next_call s"
  "send_promises (connectStreamWebSocket opts b recon k s) = send_promises s"
  "send_thens (connectStreamWebSocket opts b recon k s) = send_thens s"
  "next_send (connectStreamWebSocket opts b recon k s) = next_send s"
  "sub_promises (connectStreamWebSocket opts b recon k s) = sub_promises s"
  "next_sub (connectStreamWebSocket opts b recon k s) = next_sub s"
  "dispatched (connectStreamWebSocket opts b recon k s) = dispatched s"
  "sent (connectStreamWebSocket opts b recon k s) = sent s"
  by (simp_all add: connectStreamWebSocket_def Let_def setTimeout_def split: option.splits)

lemma connect_timeout_fired_frame [simp]:
  "reconnecting (connect_timeout_fired opts b sock s) = reconnecting s"
  "closing (connect_timeout_fired opts b sock s) = closing s"
  "replyHandlers (connect_timeout_fired opts b sock s) = replyHandlers s"
  "gate (connect_timeout_fired opts b sock s) = gate s"
  "websocketSequence (connect_timeout_fired opts b sock s) = websocketSequence s"
  "fetching (connect_timeout_fired opts b sock s) = fetching s"
  "next_call (connect_timeout_fired opts b sock s) = next_call s"
  "next_socket (connect_timeout_fired opts b sock s) = next_socket s"
  "send_promises (connect_timeout_fired opts b sock s) = send_promises s"
  "send_thens (connect_timeout_fired opts b sock s) = send_thens s"
  "next_send (connect_timeout_fired opts b sock s) = next_send s"
  "sub_promises (connect_timeout_fired opts b sock s) = sub_promises s"
  "next_sub (connect_timeout_fired opts b sock s) = next_sub s"
  "sent (connect_timeout_fired opts b sock s) = sent s"
  "closed (connect_timeout_fired opts b sock s) = closed s"
  by (simp_all add: connect_timeout_fired_def Let_def setTimeout_def)

lemma onopen_frame [simp]:
  "reconnecting (onopen opts b sock s) = reconnecting s"
  "socket (onopen opts b sock s) = socket s"
  "reconnector (onopen opts b sock s) = reconnector s"
  "gate (onopen opts b sock s) = gate s"
  "fetching (onopen opts b sock s) = fetching s"
  "next_call (onopen opts b sock s) = next_call s"
  "next_socket (onopen opts b sock s) = next_socket s"
  "sub_promises (onopen opts b sock s) = sub_promises s"
  "next_sub (onopen opts b sock s) = next_sub s"
  by (simp_all add: onopen_def Let_def)

lemma onclose_frame [simp]:
  "reconnecting (onclose opts b sock s) = reconnecting s"
  "replyHandlers (onclose opts b sock s) = replyHandlers s"
  "gate (onclose opts b sock s) = gate s"
  "websocketSequence (onclose opts b sock s) = websocketSequence s"
  "gates (onclose opts b sock s) = gates s"
  "connect_promises (onclose opts b sock s) = connect_promises s"
  "fetching (onclose opts b sock s) = fetching s"
  "next_call (onclose opts b sock s) = next_call s"
  "attempts (onclose opts b sock s) = attempts s"
  "next_socket (onclose opts b sock s) = next_socket s"
  "send_promises (onclose opts b sock s) = send_promises s"
  "send_thens (onclose opts b sock s) = send_thens s"
  "next_send (onclose opts b sock s) = next_send s"
  "sub_promises (onclose opts b sock s) = sub_promises s"
  "next_sub (onclose opts b sock s) = next_sub s"
  "sent (onclose opts b sock s) = sent s"
  "closed (onclose opts b sock s) = closed s"
  by (simp_all add: onclose_def Let_def)

lemma onerror_frame [simp]:
  "reconnecting (onerror sock s) = reconnecting s"
  "closing (onerror sock s) = closing s"
  "reconnector (onerror sock s) = reconnector s"
  "reconnectAttempts (onerror sock s) = reconnectAttempts s"
  "replyHandlers (onerror sock s) = replyHandlers s"
  "gate (onerror sock s) = gate s"
  "websocketSequence (onerror sock s) = websocketSequence s"
  "gates (onerror sock s) = gates s"
  "connect_promises (onerror sock s) = connect_promises s"
  "fetching (onerror sock s) = fetching s"
  "next_call (onerror sock s) = next_call s"
  "attempts (onerror sock s) = attempts s"
  "next_socket (onerror sock s) = next_socket s"
  "send_promises (onerror sock s) = send_promises s"
  "send_thens (onerror sock s) = send_thens s"
  "next_send (onerror sock s) = next_send s"
  "sub_promises (onerror sock s) = sub_promises s"
  "next_sub (onerror sock s) = next_sub s"
  "sent (onerror sock s) = sent s"
  "closed (onerror sock s) = closed s"
  by (simp_all add: onerror_def Let_def setTimeout_def)

lemma connect_frame [simp]:
  "connected (snd (connect opts s)) = connected s"
  "socket (snd (connect opts s)) = socket s"
  "closing (snd (connect opts s)) = closing s"
  "reconnector (snd (connect opts s)) = reconnector s"
  "reconnectAttempts (snd (connect opts s)) = reconnectAttempts s"
  "replyHandlers (snd (connect opts s)) = replyHandlers s"
  "websocketSequence (snd (connect opts s)) = websocketSequence s"
  "next_timer (snd (connect opts s)) = next_timer s"
  "attempts (snd (connect opts s)) = attempts s"
  "next_socket (snd (connect opts s)) = next_socket s"
  "send_promises (snd (connect opts s)) = send_promises s"
  "send_thens (snd (connect opts s)) = send_thens s"
  "next_send (snd (connect opts s)) = next_send s"
  "sub_promises (snd (connect opts s)) = sub_promises s"
  "next_sub (snd (connect opts s)) = next_sub s"
  "sent (snd (connect opts s)) = sent s"
  "closed (snd (connect opts s)) = closed s"
  by (simp_all add: connect_def Let_def)

lemma connect_fetched_frame [simp]:
  "replyHandlers (connect_fetched opts b k r s) = replyHandlers s"
  "gate (connect_fetched opts b k r s) = gate s"
  "websocketSequence (connect_fetched opts b k r s) = websocketSequence s"
  "next_call (connect_fetched opts b k r s) = next_call s"
  "send_promises (connect_fetched opts b k r s) = send_promises s"
  "send_thens (connect_fetched opts b k r s) = send_thens s"
  "next_send (connect_fetched opts b k r s) = next_send s"
  "sub_promises (connect_fetched opts b k r s) = sub_promises s"
  "next_sub (connect_fetched opts b k r s) = next_sub s"
  "sent (connect_fetched opts b k r s) = sent s"
  by (simp_all add: connect_fetched_def Let_def split: option.splits sum.splits)

lemma pubsub_frame [simp]:
  "connecting (snd (pubsub opts b ty tps s)) = connecting s"
  "connected (snd (pubsub opts b ty tps s)) = connected s"
  "reconnecting (snd (pubsub opts b ty tps s)) = reconnecting s"
  "socket (snd (pubsub opts b ty tps s)) = socket s"
  "closing (snd (pubsub opts b ty tps s)) = closing s"
  "reconnector (snd (pubsub opts b ty tps s)) = reconnector s"
  "reconnectAttempts (snd (pubsub opts b ty tps s)) = reconnectAttempts s"
  "gate (snd (pubsub opts b ty tps s)) = gate s"
  "connect_promises (snd (pubsub opts b ty tps s)) = connect_promises s"
  "fetching (snd (pubsub opts b ty tps s)) = fetching s"
  "next_call (snd (pubsub opts b ty tps s)) = next_call s"
  "attempts (snd (pubsub opts b ty tps s)) = attempts s"
  "next_socket (snd (pubsub opts b ty tps s)) = next_socket s"
  "dispatched (snd (pubsub opts b ty tps s)) = dispatched s"
  "closed (snd (pubsub opts b ty tps s)) = closed s"
  by (simp_all add: pubsub_def Let_def split: option.splits promise.splits)

lemma handleStreamWebSocketMessage_frame [simp]:
  "connecting (handleStreamWebSocketMessage sock m s) = connecting s"
  "reconnecting (handleStreamWebSocketMessage sock m s) = reconnecting s"
  "socket (handleStreamWebSocketMessage sock m s) = socket s"
  "reconnector (handleStreamWebSocketMessage sock m s) = reconnector s"
  "gate (handleStreamWebSocketMessage sock m s) = gate s"
  "websocketSequence (handleStreamWebSocketMessage sock m s) = websocketSequence s"
  "next_timer (handleStreamWebSocketMessage sock m s) = next_timer s"
  "gates (handleStreamWebSocketMessage sock m s) = gates s"
  "connect_promises (handleStreamWebSocketMessage sock m s) = connect_promises s"
  "fetching (handleStreamWebSocketMessage sock m s) = fetching s"
  "next_call (handleStreamWebSocketMessage sock m s) = next_call s"
  "attempts (handleStreamWebSocketMessage sock m s) = attempts s"
  "next_socket (handleStreamWebSocketMessage sock m s) = next_socket s"
  "send_thens (handleStreamWebSocketMessage sock m s) = send_thens s"
  "next_send (handleStreamWebSocketMessage sock m s) = next_send s"
  "next_sub (handleStreamWebSocketMessage sock m s) = next_sub s"
  "sent (handleStreamWebSocketMessage sock m s) = sent s"
  by (simp_all add: handleStreamWebSocketMessage_def Let_def split: option.splits)

section \<open>At most one retry timer\<close>

text \<open>
  \<open>retry_inv\<close> holds in the constructor's state and is kept by every operation, hence
  by every step.
\<close>

lemma retry_inv_update [simp]:
  "retry_inv (s\<lparr>connecting := x0\<rparr>) = retry_inv s"
  "retry_inv (s\<lparr>connected := x1\<rparr>) = retry_inv s"
  "retry_inv (s\<lparr>reconnecting := x2\<rparr>) = retry_inv s"
  "retry_inv (s\<lparr>socket := x3\<rparr>) = retry_inv s"
  "retry_inv (s\<lparr>closing := x4\<rparr>) = retry_inv s"
  "retry_inv (s\<lparr>reconnectAttempts := x6\<rparr>) = retry_inv s"
  "retry_inv (s\<lparr>replyHandlers := x7\<rparr>) = retry_inv s"
  "retry_inv (s\<lparr>gate := x8\<rparr>) = retry_inv s"
  "retry_inv (s\<lparr>websocketSequence := x9\<rparr>) = retry_inv s"
  "retry_inv (s\<lparr>gates := x12\<rparr>) = retry_inv s"
  "retry_inv (s\<lparr>connect_promises := x13\<rparr>) = retry_inv s"
  "retry_inv (s\<lparr>fetching := x14\<rparr>) = retry_inv s"
  "retry_inv (s\<lparr>next_call := x15\<rparr>) = retry_inv s"
  "retry_inv (s\<lparr>attempts := x16\<rparr>) = retry_inv s"
  "retry_inv (s\<lparr>next_socket := x17\<rparr>) = retry_inv s"
  "retry_inv (s\<lparr>send_promises := x18\<rparr>) = retry_inv s"
  "retry_inv (s\<lparr>send_thens := x19\<rparr>) = retry_inv s"
  "retry_inv (s\<lparr>next_send := x20\<rparr>) = retry_inv s"
  "retry_inv (s\<lparr>sub_promises := x21\<rparr>) = retry_inv s"
  "retry_inv (s\<lparr>next_sub := x22\<rparr>) = retry_inv s"
  "retry_inv (s\<lparr>dispatched := x23\<rparr>) = retry_inv s"
  "retry_inv (s\<lparr>sent := x24\<rparr>) = retry_inv s"
  "retry_inv (s\<lparr>closed := x25\<rparr>) = retry_inv s"
  by (simp_all add: retry_inv_def)

lemma retry_inv_frame [simp]:
  "retry_inv (dispatchEvent ev s) = retry_inv s"
  "retry_inv (dispatchStateChangedEvent s) = retry_inv s"
  "retry_inv (dispatchStreamEvent dat nfo s) = retry_inv s"
  "retry_inv (dispatchErrorEvent err s) = retry_inv s"
  "retry_inv (closeStreamWebsocket sock s) = retry_inv s"
  "retry_inv (resolve_sub p s) = retry_inv s"
  "retry_inv (reject_sub p e s) = retry_inv s"
  "retry_inv (resolve_send q m s) = retry_inv s"
  "retry_inv (reject_send q e s) = retry_inv s"
  "retry_inv (resolve_connect k s) = retry_inv s"
  "retry_inv (reject_connect k e s) = retry_inv s"
  "retry_inv (gateReject k s) = retry_inv s"
  by (simp_all add: retry_inv_def)


lemma retry_inv_clearTimeout [simp]: "retry_inv s \<Longrightarrow> retry_inv (clearTimeout i s)"
  by (auto simp: retry_inv_def clearTimeout_def distinct_map_filter)

lemma retry_inv_timer_added [simp]:
  "retry_inv r \<Longrightarrow> timers r = ts \<Longrightarrow> next_timer r = n \<Longrightarrow> t \<noteq> Reconnect \<Longrightarrow>
   retry_inv (r\<lparr>timers := ts @ [(n, d, t)], next_timer := Suc n\<rparr>)"
  by (fastforce simp: retry_inv_def)

lemma retry_inv_send [simp]:
  "retry_inv s \<Longrightarrow> retry_inv (snd (sendStreamWebSocketPayload opts b payload rt k s))"
  by (simp add: sendStreamWebSocketPayload_def Let_def setTimeout_def reject_send_def split: option.splits)

lemma retry_inv_run_thens [simp]: "retry_inv s \<Longrightarrow> retry_inv (run_thens opts b ws s)"
proof (induction ws arbitrary: s)
  case Nil
  then show ?case by simp
next
  case (Cons w ws)
  then show ?case by (cases w) simp
qed

lemma retry_inv_gateResolve [simp]: "retry_inv s \<Longrightarrow> retry_inv (gateResolve opts b k s)"
  by (simp add: gateResolve_def Let_def)

lemma retry_inv_connect_reconnector [simp]:
  "retry_inv s \<Longrightarrow> retry_inv (connect_reconnector opts b fast s)"
  unfolding connect_reconnector_def Let_def setTimeout_def clearTimeout_def retry_inv_def
  by (auto simp: distinct_map_filter)

lemma retry_inv_resolve_attempt [simp]: "retry_inv s \<Longrightarrow> retry_inv (resolve_attempt opts b a s)"
  by (simp add: resolve_attempt_def Let_def)

lemma retry_inv_reject_attempt [simp]: "retry_inv s \<Longrightarrow> retry_inv (reject_attempt opts b a err s)"
  by (simp add: reject_attempt_def Let_def)

lemma retry_inv_connectStreamWebSocket [simp]:
  "retry_inv s \<Longrightarrow> retry_inv (connectStreamWebSocket opts b recon k s)"
  by (simp add: connectStreamWebSocket_def Let_def setTimeout_def split: option.splits)

lemma retry_inv_connect_timeout_fired [simp]:
  "retry_inv s \<Longrightarrow> retry_inv (connect_timeout_fired opts b sock s)"
  by (simp add: connect_timeout_fired_def Let_def setTimeout_def)

lemma retry_inv_onopen [simp]: "retry_inv s \<Longrightarrow> retry_inv (onopen opts b sock s)"
  by (simp add: onopen_def Let_def)

lemma retry_inv_onclose [simp]: "retry_inv s \<Longrightarrow> retry_inv (onclose opts b sock s)"
  by (simp add: onclose_def Let_def)

lemma retry_inv_onerror [simp]: "retry_inv s \<Longrightarrow> retry_inv (onerror sock s)"
  by (simp add: onerror_def Let_def setTimeout_def)

lemma retry_inv_connect [simp]: "retry_inv s \<Longrightarrow> retry_inv (snd (connect opts s))"
  by (simp add: connect_def Let_def)

lemma retry_inv_connect_fetched [simp]:
  "retry_inv s \<Longrightarrow> retry_inv (connect_fetched opts b k r s)"
  by (simp add: connect_fetched_def Let_def split: option.splits sum.splits)

lemma retry_inv_pubsub [simp]: "retry_inv s \<Longrightarrow> retry_inv (snd (pubsub opts b ty tps s))"
  by (simp add: pubsub_def Let_def split: option.splits promise.splits)

lemma retry_inv_handleStreamWebSocketMessage [simp]:
  "retry_inv s \<Longrightarrow> retry_inv (handleStreamWebSocketMessage sock m s)"
  by (simp add: handleStreamWebSocketMessage_def Let_def split: option.splits)

lemma retry_inv_run_task [simp]: "retry_inv s \<Longrightarrow> retry_inv (run_task opts b t s)"
  by (simp add: run_task_def split: task.splits)

lemma retry_inv_fire [simp]: "retry_inv s \<Longrightarrow> retry_inv (fire opts b i s)"
  by (simp add: fire_def split: option.splits)

lemma retry_inv_step: "retry_inv s \<Longrightarrow> retry_inv (step opts bi s)"
  by (simp add: step_def Let_def sub_def unsub_def split: input.splits)

lemma retry_inv_run: "retry_inv s \<Longrightarrow> retry_inv (run opts ins s)"
  by (induction ins arbitrary: s) (simp_all add: retry_inv_step)

lemma retry_inv_new_Pubs: "retry_inv new_Pubs"
  by (simp add: retry_inv_def new_Pubs_def)

lemma filter_same_key:
  "distinct (map fst xs) \<Longrightarrow> \<forall>e \<in> set xs. P e \<longrightarrow> fst e = c \<Longrightarrow> length (filter P xs) \<le> 1"
proof (induction xs)
  case Nil
  then show ?case by simp
next
  case (Cons x xs)
  show ?case
  proof (cases "P x")
    case True
    with Cons.prems have "fst x = c" by simp
    have "filter P xs = []"
    proof (rule ccontr)
      assume "filter P xs \<noteq> []"
      then obtain y where y: "y \<in> set xs" "P y"
        by (metis filter_False)
      with Cons.prems have "fst y = c" by simp
      with \<open>fst x = c\<close> y Cons.prems(1) show False by (auto simp: image_iff)
    qed
    with True show ?thesis by simp
  next
    case False
    with Cons show ?thesis by simp
  qed
qed

lemma retry_inv_at_most_one: "retry_inv s \<Longrightarrow> length (retry_timers s) \<le> 1"
  unfolding retry_timers_def retry_inv_def
  by (rule filter_same_key [where c = "reconnector s"]) auto

lemma retry_inv_cleared: "retry_inv s \<Longrightarrow> retry_timers (clearTimeout (reconnector s) s) = []"
  by (auto simp: retry_inv_def retry_timers_def clearTimeout_def filter_empty_conv)

section \<open>No retry while the flag is cleared\<close>

text \<open>
  \<open>off_inv\<close> is kept by every step as well: the only place that clears the flag, the
  forbidden handshake, calls the reconnector next, which cancels the pending retry.
\<close>

lemma retry_timers_update [simp]:
  "retry_timers (s\<lparr>connecting := x0\<rparr>) = retry_timers s"
  "retry_timers (s\<lparr>connected := x1\<rparr>) = retry_timers s"
  "retry_timers (s\<lparr>reconnecting := x2\<rparr>) = retry_timers s"
  "retry_timers (s\<lparr>socket := x3\<rparr>) = retry_timers s"
  "retry_timers (s\<lparr>closing := x4\<rparr>) = retry_timers s"
  "retry_timers (s\<lparr>reconnector := x5\<rparr>) = retry_timers s"
  "retry_timers (s\<lparr>reconnectAttempts := x6\<rparr>) = retry_timers s"
  "retry_timers (s\<lparr>replyHandlers := x7\<rparr>) = retry_timers s"
  "retry_timers (s\<lparr>gate := x8\<rparr>) = retry_timers s"
  "retry_timers (s\<lparr>websocketSequence := x9\<rparr>) = retry_timers s"
  "retry_timers (s\<lparr>next_timer := x11\<rparr>) = retry_timers s"
  "retry_timers (s\<lparr>gates := x12\<rparr>) = retry_timers s"
  "retry_timers (s\<lparr>connect_promises := x13\<rparr>) = retry_timers s"
  "retry_timers (s\<lparr>fetching := x14\<rparr>) = retry_timers s"
  "retry_timers (s\<lparr>next_call := x15\<rparr>) = retry_timers s"
  "retry_timers (s\<lparr>attempts := x16\<rparr>) = retry_timers s"
  "retry_timers (s\<lparr>next_socket := x17\<rparr>) = retry_timers s"
  "retry_timers (s\<lparr>send_promises := x18\<rparr>) = retry_timers s"
  "retry_timers (s\<lparr>send_thens := x19\<rparr>) = retry_timers s"
  "retry_timers (s\<lparr>next_send := x20\<rparr>) = retry_timers s"
  "retry_timers (s\<lparr>sub_promises := x21\<rparr>) = retry_timers s"
  "retry_timers (s\<lparr>next_sub := x22\<rparr>) = retry_timers s"
  "retry_timers (s\<lparr>dispatched := x23\<rparr>) = retry_timers s"
  "retry_timers (s\<lparr>sent := x24\<rparr>) = retry_timers s"
  "retry_timers (s\<lparr>closed := x25\<rparr>) = retry_timers s"
  by (simp_all add: retry_timers_def)

lemma retry_timers_frame [simp]:
  "retry_timers (dispatchEvent ev s) = retry_timers s"
  "retry_timers (dispatchStateChangedEvent s) = retry_timers s"
  "retry_timers (dispatchStreamEvent dat nfo s) = retry_timers s"
  "retry_timers (dispatchErrorEvent err s) = retry_timers s"
  "retry_timers (closeStreamWebsocket sock s) = retry_timers s"
  "retry_timers (resolve_sub p s) = retry_timers s"
  "retry_timers (reject_sub p e s) = retry_timers s"
  "retry_timers (resolve_send q m s) = retry_timers s"
  "retry_timers (reject_send q e s) = retry_timers s"
  "retry_timers (resolve_connect k s) = retry_timers s"
  "retry_timers (reject_connect k e s) = retry_timers s"
  "retry_timers (gateReject k s) = retry_timers s"
  by (simp_all add: retry_timers_def)

lemma off_inv_update [simp]:
  "off_inv (s\<lparr>connecting := x0\<rparr>) = off_inv s"
  "off_inv (s\<lparr>connected := x1\<rparr>) = off_inv s"
  "off_inv (s\<lparr>socket := x3\<rparr>) = off_inv s"
  "off_inv (s\<lparr>closing := x4\<rparr>) = off_inv s"
  "off_inv (s\<lparr>reconnector := x5\<rparr>) = off_inv s"
  "off_inv (s\<lparr>reconnectAttempts := x6\<rparr>) = off_inv s"
  "off_inv (s\<lparr>replyHandlers := x7\<rparr>) = off_inv s"
  "off_inv (s\<lparr>gate := x8\<rparr>) = off_inv s"
  "off_inv (s\<lparr>websocketSequence := x9\<rparr>) = off_inv s"
  "off_inv (s\<lparr>next_timer := x11\<rparr>) = off_inv s"
  "off_inv (s\<lparr>gates := x12\<rparr>) = off_inv s"
  "off_inv (s\<lparr>connect_promises := x13\<rparr>) = off_inv s"
  "off_inv (s\<lparr>fetching := x14\<rparr>) = off_inv s"
  "off_inv (s\<lparr>next_call := x15\<rparr>) = off_inv s"
  "off_inv (s\<lparr>attempts := x16\<rparr>) = off_inv s"
  "off_inv (s\<lparr>next_socket := x17\<rparr>) = off_inv s"
  "off_inv (s\<lparr>send_promises := x18\<rparr>) = off_inv s"
  "off_inv (s\<lparr>send_thens := x19\<rparr>) = off_inv s"
  "off_inv (s\<lparr>next_send := x20\<rparr>) = off_inv s"
  "off_inv (s\<lparr>sub_promises := x21\<rparr>) = off_inv s"
  "off_inv (s\<lparr>next_sub := x22\<rparr>) = off_inv s"
  "off_inv (s\<lparr>dispatched := x23\<rparr>) = off_inv s"
  "off_inv (s\<lparr>sent := x24\<rparr>) = off_inv s"
  "off_inv (s\<lparr>closed := x25\<rparr>) = off_inv s"
  by (simp_all add: off_inv_def)

lemma off_inv_frame [simp]:
  "off_inv (dispatchEvent ev s) = off_inv s"
  "off_inv (dispatchStateChangedEvent s) = off_inv s"
  "off_inv (dispatchStreamEvent dat nfo s) = off_inv s"
  "off_inv (dispatchErrorEvent err s) = off_inv s"
  "off_inv (closeStreamWebsocket sock s) = off_inv s"
  "off_inv (resolve_sub p s) = off_inv s"
  "off_inv (reject_sub p e s) = off_inv s"
  "off_inv (resolve_send q m s) = off_inv s"
  "off_inv (reject_send q e s) = off_inv s"
  "off_inv (resolve_connect k s) = off_inv s"
  "off_inv (reject_connect k e s) = off_inv s"
  "off_inv (gateReject k s) = off_inv s"
  by (simp_all add: off_inv_def)

lemma retry_timers_clearTimeout [simp]:
  "retry_timers s = [] \<Longrightarrow> retry_timers (clearTimeout i s) = []"
  by (simp add: retry_timers_def clearTimeout_def filter_empty_conv)

lemma retry_timers_added [simp]:
  "t \<noteq> Reconnect \<Longrightarrow>
   retry_timers (r\<lparr>timers := ts @ [(n, d, t)], next_timer := m\<rparr>) = retry_timers (r\<lparr>timers := ts\<rparr>)"
  by (simp add: retry_timers_def)

lemma retry_timers_same [simp]: "timers r = ts \<Longrightarrow> retry_timers (r\<lparr>timers := ts\<rparr>) = retry_timers r"
  by (simp add: retry_timers_def)

lemma off_inv_clearTimeout [simp]: "off_inv s \<Longrightarrow> off_inv (clearTimeout i s)"
  by (simp add: off_inv_def)

lemma off_inv_timer_added [simp]:
  "off_inv r \<Longrightarrow> timers r = ts \<Longrightarrow> t \<noteq> Reconnect \<Longrightarrow> off_inv (r\<lparr>timers := ts @ [(n, d, t)]\<rparr>)"
  by (simp add: off_inv_def retry_timers_def)

lemma off_inv_send [simp]:
  "off_inv s \<Longrightarrow> off_inv (snd (sendStreamWebSocketPayload opts b payload rt k s))"
  by (simp add: sendStreamWebSocketPayload_def Let_def setTimeout_def split: option.splits)

lemma off_inv_run_thens [simp]: "off_inv s \<Longrightarrow> off_inv (run_thens opts b ws s)"
proof (induction ws arbitrary: s)
  case Nil
  then show ?case by simp
next
  case (Cons w ws)
  then show ?case by (cases w) simp
qed

lemma off_inv_gateResolve [simp]: "off_inv s \<Longrightarrow> off_inv (gateResolve opts b k s)"
  by (simp add: gateResolve_def Let_def)

lemma off_inv_connect_reconnector [simp]:
  "off_inv s \<Longrightarrow> off_inv (connect_reconnector opts b fast s)"
  by (simp add: connect_reconnector_def Let_def setTimeout_def off_inv_def)

lemma off_inv_resolve_attempt [simp]: "off_inv s \<Longrightarrow> off_inv (resolve_attempt opts b a s)"
  by (simp add: resolve_attempt_def Let_def)

lemma off_inv_reject_attempt [simp]: "off_inv s \<Longrightarrow> off_inv (reject_attempt opts b a err s)"
  by (simp add: reject_attempt_def Let_def)

lemma off_inv_connectStreamWebSocket [simp]:
  "off_inv s \<Longrightarrow> off_inv (connectStreamWebSocket opts b recon k s)"
  by (simp add: connectStreamWebSocket_def Let_def setTimeout_def split: option.splits)

lemma off_inv_connect_timeout_fired [simp]:
  "off_inv s \<Longrightarrow> off_inv (connect_timeout_fired opts b sock s)"
  by (simp add: connect_timeout_fired_def Let_def setTimeout_def)

lemma off_inv_onopen [simp]: "off_inv s \<Longrightarrow> off_inv (onopen opts b sock s)"
  by (simp add: onopen_def Let_def)

lemma off_inv_onclose [simp]: "off_inv s \<Longrightarrow> off_inv (onclose opts b sock s)"
  by (simp add: onclose_def Let_def)

lemma off_inv_onerror [simp]: "off_inv s \<Longrightarrow> off_inv (onerror sock s)"
  by (simp add: onerror_def Let_def setTimeout_def)

lemma off_inv_connect [simp]: "off_inv (snd (connect opts s))"
  by (simp add: connect_def Let_def js_or_def off_inv_def)

lemma retry_inv_cleared_frame:
  "retry_inv s \<Longrightarrow> timers r = timers s \<Longrightarrow> retry_timers (clearTimeout (reconnector s) r) = []"
  by (auto simp: retry_inv_def retry_timers_def clearTimeout_def filter_empty_conv)

lemma gave_up_forbidden:
  "retry_inv s \<Longrightarrow>
   gave_up (connect_reconnector opts b fast
              (dispatchErrorEvent e (dispatchStateChangedEvent (s\<lparr>reconnecting := False\<rparr>))))"
  by (simp add: gave_up_def connect_reconnector_def Let_def retry_inv_cleared_frame)

lemma gave_up_off_inv: "gave_up s \<Longrightarrow> off_inv s"
  by (simp add: gave_up_def off_inv_def)

lemma off_inv_connect_fetched [simp]:
  "retry_inv s \<Longrightarrow> off_inv s \<Longrightarrow> off_inv (connect_fetched opts b k r s)"
  by (simp add: connect_fetched_def Let_def gave_up_forbidden gave_up_off_inv
        split: option.splits sum.splits)

lemma off_inv_pubsub [simp]: "off_inv s \<Longrightarrow> off_inv (snd (pubsub opts b ty tps s))"
  by (simp add: pubsub_def Let_def split: option.splits promise.splits)

lemma off_inv_handleStreamWebSocketMessage [simp]:
  "off_inv s \<Longrightarrow> off_inv (handleStreamWebSocketMessage sock m s)"
  by (simp add: handleStreamWebSocketMessage_def Let_def split: option.splits)

lemma off_inv_run_task [simp]: "retry_inv s \<Longrightarrow> off_inv s \<Longrightarrow> off_inv (run_task opts b t s)"
  by (simp add: run_task_def split: task.splits)

lemma off_inv_fire [simp]: "retry_inv s \<Longrightarrow> off_inv s \<Longrightarrow> off_inv (fire opts b i s)"
  by (simp add: fire_def split: option.splits)

lemma off_inv_step: "retry_inv s \<Longrightarrow> off_inv s \<Longrightarrow> off_inv (step opts bi s)"
  by (simp add: step_def Let_def sub_def unsub_def split: input.splits)

lemma off_inv_run: "retry_inv s \<Longrightarrow> off_inv s \<Longrightarrow> off_inv (run opts ins s)"
  by (induction ins arbitrary: s) (simp_all add: off_inv_step retry_inv_step)

lemma off_inv_new_Pubs: "off_inv new_Pubs"
  by (simp add: off_inv_def retry_timers_def new_Pubs_def)

text \<open>Once the instance has given up, only a call of \<open>connect\<close> sets the flag again.\<close>

lemma find_timer_task:
  "find (\<lambda>e. fst e = i) ts = Some e \<Longrightarrow> e \<in> set ts \<and> fst e = i"
  by (induction ts) (auto split: if_splits)

lemma gave_up_run_task:
  "t \<noteq> Reconnect \<Longrightarrow> \<not> reconnecting s \<Longrightarrow> \<not> reconnecting (run_task opts b t s)"
  by (simp add: run_task_def split: task.splits)

lemma gave_up_fire: "gave_up s \<Longrightarrow> \<not> reconnecting (fire opts b i s)"
  unfolding fire_def gave_up_def retry_timers_def
  by (auto split: option.splits dest!: find_timer_task simp: filter_empty_conv gave_up_run_task)

lemma connect_fetched_off: "\<not> reconnecting s \<Longrightarrow> \<not> reconnecting (connect_fetched opts b k r s)"
  by (simp add: connect_fetched_def Let_def split: option.splits sum.splits)

lemma gave_up_step_flag:
  "gave_up s \<Longrightarrow> \<not> calls_connect bi \<Longrightarrow> \<not> reconnecting (step opts bi s)"
  by (cases "snd bi")
     (simp_all add: step_def Let_def sub_def unsub_def calls_connect_def gave_up_fire connect_fetched_off
        gave_up_def)

lemma gave_up_step:
  "retry_inv s \<Longrightarrow> gave_up s \<Longrightarrow> \<not> calls_connect bi \<Longrightarrow> gave_up (step opts bi s)"
  using gave_up_step_flag [of s bi opts] off_inv_step [of s opts bi]
  by (simp add: gave_up_def off_inv_def)

lemma gave_up_run:
  "retry_inv s \<Longrightarrow> gave_up s \<Longrightarrow> list_all (\<lambda>bi. \<not> calls_connect bi) ins \<Longrightarrow> gave_up (run opts ins s)"
  by (induction ins arbitrary: s) (simp_all add: gave_up_step retry_inv_step)

section \<open>Subscription promises\<close>

text \<open>
  A subscription promise is rejected in one place only, by \<open>pubsub\<close> itself when the
  gate has no promise; afterwards nothing rejects it.
\<close>

lemma unrejected_update [simp]:
  "unrejected p0 (s\<lparr>connecting := x0\<rparr>) = unrejected p0 s"
  "unrejected p0 (s\<lparr>connected := x1\<rparr>) = unrejected p0 s"
  "unrejected p0 (s\<lparr>reconnecting := x2\<rparr>) = unrejected p0 s"
  "unrejected p0 (s\<lparr>socket := x3\<rparr>) = unrejected p0 s"
  "unrejected p0 (s\<lparr>closing := x4\<rparr>) = unrejected p0 s"
  "unrejected p0 (s\<lparr>reconnector := x5\<rparr>) = unrejected p0 s"
  "unrejected p0 (s\<lparr>reconnectAttempts := x6\<rparr>) = unrejected p0 s"
  "unrejected p0 (s\<lparr>replyHandlers := x7\<rparr>) = unrejected p0 s"
  "unrejected p0 (s\<lparr>gate := x8\<rparr>) = unrejected p0 s"
  "unrejected p0 (s\<lparr>websocketSequence := x9\<rparr>) = unrejected p0 s"
  "unrejected p0 (s\<lparr>timers := x10\<rparr>) = unrejected p0 s"
  "unrejected p0 (s\<lparr>next_timer := x11\<rparr>) = unrejected p0 s"
  "unrejected p0 (s\<lparr>gates := x12\<rparr>) = unrejected p0 s"
  "unrejected p0 (s\<lparr>connect_promises := x13\<rparr>) = unrejected p0 s"
  "unrejected p0 (s\<lparr>fetching := x14\<rparr>) = unrejected p0 s"
  "unrejected p0 (s\<lparr>next_call := x15\<rparr>) = unrejected p0 s"
  "unrejected p0 (s\<lparr>attempts := x16\<rparr>) = unrejected p0 s"
  "unrejected p0 (s\<lparr>next_socket := x17\<rparr>) = unrejected p0 s"
  "unrejected p0 (s\<lparr>send_promises := x18\<rparr>) = unrejected p0 s"
  "unrejected p0 (s\<lparr>send_thens := x19\<rparr>) = unrejected p0 s"
  "unrejected p0 (s\<lparr>next_send := x20\<rparr>) = unrejected p0 s"
  "unrejected p0 (s\<lparr>dispatched := x23\<rparr>) = unrejected p0 s"
  "unrejected p0 (s\<lparr>sent := x24\<rparr>) = unrejected p0 s"
  "unrejected p0 (s\<lparr>closed := x25\<rparr>) = unrejected p0 s"
  by (simp_all add: unrejected_def)

lemma unrejected_frame [simp]:
  "unrejected p0 (clearTimeout i s) = unrejected p0 s"
  "unrejected p0 (dispatchEvent ev s) = unrejected p0 s"
  "unrejected p0 (dispatchStateChangedEvent s) = unrejected p0 s"
  "unrejected p0 (dispatchStreamEvent dat nfo s) = unrejected p0 s"
  "unrejected p0 (dispatchErrorEvent err s) = unrejected p0 s"
  "unrejected p0 (closeStreamWebsocket sock s) = unrejected p0 s"
  "unrejected p0 (reject_send q e s) = unrejected p0 s"
  "unrejected p0 (resolve_connect k s) = unrejected p0 s"
  "unrejected p0 (reject_connect k e s) = unrejected p0 s"
  "unrejected p0 (gateReject k s) = unrejected p0 s"
  "unrejected p0 (snd (sendStreamWebSocketPayload opts b payload rt ts s)) = unrejected p0 s"
  "unrejected p0 (run_thens opts b ws s) = unrejected p0 s"
  "unrejected p0 (gateResolve opts b k s) = unrejected p0 s"
  "unrejected p0 (connect_reconnector opts b fast s) = unrejected p0 s"
  "unrejected p0 (resolve_attempt opts b a s) = unrejected p0 s"
  "unrejected p0 (reject_attempt opts b a e s) = unrejected p0 s"
  "unrejected p0 (connectStreamWebSocket opts b recon k s) = unrejected p0 s"
  "unrejected p0 (connect_timeout_fired opts b sock s) = unrejected p0 s"
  "unrejected p0 (onopen opts b sock s) = unrejected p0 s"
  "unrejected p0 (onclose opts b sock s) = unrejected p0 s"
  "unrejected p0 (onerror sock s) = unrejected p0 s"
  "unrejected p0 (snd (connect opts s)) = unrejected p0 s"
  "unrejected p0 (connect_fetched opts b k r s) = unrejected p0 s"
  by (simp_all add: unrejected_def)


lemma unrejected_resolve_sub [simp]: "unrejected p s \<Longrightarrow> unrejected p (resolve_sub r s)"
  by (simp add: unrejected_def resolve_sub_def)

lemma unrejected_resolve_send [simp]: "unrejected p s \<Longrightarrow> unrejected p (resolve_send q m s)"
  by (simp add: resolve_send_def Let_def split: option.splits)

lemma unrejected_pubsub [simp]: "unrejected p s \<Longrightarrow> unrejected p (snd (pubsub opts b ty tps s))"
  by (simp add: pubsub_def Let_def split: option.splits promise.splits)
     (auto simp: unrejected_def reject_sub_def)

lemma unrejected_handleStreamWebSocketMessage [simp]:
  "unrejected p s \<Longrightarrow> unrejected p (handleStreamWebSocketMessage sock m s)"
  by (simp add: handleStreamWebSocketMessage_def Let_def split: option.splits)

lemma unrejected_run_task [simp]: "unrejected p s \<Longrightarrow> unrejected p (run_task opts b t s)"
  by (simp add: run_task_def split: task.splits)

lemma unrejected_fire [simp]: "unrejected p s \<Longrightarrow> unrejected p (fire opts b i s)"
  by (simp add: fire_def split: option.splits)

lemma unrejected_step: "unrejected p s \<Longrightarrow> unrejected p (step opts bi s)"
  by (simp add: step_def Let_def sub_def unsub_def split: input.splits)

lemma unrejected_run: "unrejected p s \<Longrightarrow> unrejected p (run opts ins s)"
  by (induction ins arbitrary: s) (simp_all add: unrejected_step)

lemma pubsub_unrejected:
  "g_promise (gates s (gate s)) \<noteq> None \<Longrightarrow>
   unrejected (fst (pubsub opts b ty tps s)) (snd (pubsub opts b ty tps s))"
  by (auto simp: pubsub_def Let_def unrejected_def split: option.splits promise.splits)

text \<open>Promises not handed out yet are referred to nowhere.\<close>

lemma fresh_inv_update [simp]:
  "fresh_inv (s\<lparr>connecting := x0\<rparr>) = fresh_inv s"
  "fresh_inv (s\<lparr>connected := x1\<rparr>) = fresh_inv s"
  "fresh_inv (s\<lparr>reconnecting := x2\<rparr>) = fresh_inv s"
  "fresh_inv (s\<lparr>socket := x3\<rparr>) = fresh_inv s"
  "fresh_inv (s\<lparr>closing := x4\<rparr>) = fresh_inv s"
  "fresh_inv (s\<lparr>reconnector := x5\<rparr>) = fresh_inv s"
  "fresh_inv (s\<lparr>reconnectAttempts := x6\<rparr>) = fresh_inv s"
  "fresh_inv (s\<lparr>replyHandlers := x7\<rparr>) = fresh_inv s"
  "fresh_inv (s\<lparr>gate := x8\<rparr>) = fresh_inv s"
  "fresh_inv (s\<lparr>websocketSequence := x9\<rparr>) = fresh_inv s"
  "fresh_inv (s\<lparr>timers := x10\<rparr>) = fresh_inv s"
  "fresh_inv (s\<lparr>next_timer := x11\<rparr>) = fresh_inv s"
  "fresh_inv (s\<lparr>connect_promises := x13\<rparr>) = fresh_inv s"
  "fresh_inv (s\<lparr>fetching := x14\<rparr>) = fresh_inv s"
  "fresh_inv (s\<lparr>next_call := x15\<rparr>) = fresh_inv s"
  "fresh_inv (s\<lparr>attempts := x16\<rparr>) = fresh_inv s"
  "fresh_inv (s\<lparr>next_socket := x17\<rparr>) = fresh_inv s"
  "fresh_inv (s\<lparr>send_promises := x18\<rparr>) = fresh_inv s"
  "fresh_inv (s\<lparr>next_send := x20\<rparr>) = fresh_inv s"
  "fresh_inv (s\<lparr>sub_promises := x21\<rparr>) = fresh_inv s"
  "fresh_inv (s\<lparr>dispatched := x23\<rparr>) = fresh_inv s"
  "fresh_inv (s\<lparr>sent := x24\<rparr>) = fresh_inv s"
  "fresh_inv (s\<lparr>closed := x25\<rparr>) = fresh_inv s"
  by (simp_all add: fresh_inv_def)

lemma fresh_inv_frame [simp]:
  "fresh_inv (clearTimeout i s) = fresh_inv s"
  "fresh_inv (dispatchEvent ev s) = fresh_inv s"
  "fresh_inv (dispatchStateChangedEvent s) = fresh_inv s"
  "fresh_inv (dispatchStreamEvent dat nfo s) = fresh_inv s"
  "fresh_inv (dispatchErrorEvent err s) = fresh_inv s"
  "fresh_inv (closeStreamWebsocket sock s) = fresh_inv s"
  "fresh_inv (resolve_sub p s) = fresh_inv s"
  "fresh_inv (reject_sub p e s) = fresh_inv s"
  "fresh_inv (resolve_send q m s) = fresh_inv s"
  "fresh_inv (reject_send q e s) = fresh_inv s"
  "fresh_inv (resolve_connect k s) = fresh_inv s"
  "fresh_inv (reject_connect k e s) = fresh_inv s"
  "fresh_inv (connect_reconnector opts b fast s) = fresh_inv s"
  "fresh_inv (onclose opts b sock s) = fresh_inv s"
  "fresh_inv (onerror sock s) = fresh_inv s"
  "fresh_inv (handleStreamWebSocketMessage sock m s) = fresh_inv s"
  by (simp_all add: fresh_inv_def)

lemma fresh_inv_new_Pubs: "fresh_inv new_Pubs"
  by (simp add: fresh_inv_def new_Pubs_def empty_gate_def)

lemma fresh_inv_gateReject [simp]: "fresh_inv s \<Longrightarrow> fresh_inv (gateReject k s)"
  by (simp add: fresh_inv_def gateReject_def Let_def)

lemma fresh_inv_send_Some [simp]:
  "fresh_inv s \<Longrightarrow> p < next_sub s \<Longrightarrow>
   fresh_inv (snd (sendStreamWebSocketPayload opts b payload rt (Some p) s))"
  by (simp add: sendStreamWebSocketPayload_def Let_def setTimeout_def reject_send_def fresh_inv_def
        split: option.splits)

lemma fresh_inv_send_None [simp]:
  "fresh_inv s \<Longrightarrow> fresh_inv (snd (sendStreamWebSocketPayload opts b payload rt None s))"
  by (simp add: sendStreamWebSocketPayload_def Let_def setTimeout_def reject_send_def fresh_inv_def
        split: option.splits)

lemma fresh_inv_run_thens [simp]:
  "fresh_inv s \<Longrightarrow> \<forall>w \<in> set ws. snd w < next_sub s \<Longrightarrow> fresh_inv (run_thens opts b ws s)"
proof (induction ws arbitrary: s)
  case Nil
  then show ?case by simp
next
  case (Cons w ws)
  obtain payload p where w: "w = (payload, p)"
    by (cases w)
  let ?s = "snd (sendStreamWebSocketPayload opts b payload 0 (Some p) s)"
  from Cons.prems w have "fresh_inv ?s"
    by simp
  moreover from Cons.prems have "\<forall>w \<in> set ws. snd w < next_sub ?s"
    by simp
  ultimately have "fresh_inv (run_thens opts b ws ?s)"
    by (rule Cons.IH)
  with w show ?case by simp
qed

lemma fresh_inv_gate_cleared:
  "fresh_inv s \<Longrightarrow> fresh_inv (s\<lparr>gates := (gates s)(k := g\<lparr>g_thens := []\<rparr>)\<rparr>)"
  by (simp add: fresh_inv_def)

lemma fresh_inv_gate_flag [simp]:
  "fresh_inv r \<Longrightarrow> gates r = gs \<Longrightarrow>
   fresh_inv (r\<lparr>gates := gs(k := (gs k)\<lparr>g_reject := x\<rparr>)\<rparr>)"
  by (auto simp: fresh_inv_def)

lemma fresh_inv_thens: "fresh_inv s \<Longrightarrow> w \<in> set (g_thens (gates s k)) \<Longrightarrow> snd w < next_sub s"
  by (auto simp: fresh_inv_def)

lemma fresh_inv_gateResolve [simp]:
  assumes "fresh_inv s"
  shows "fresh_inv (gateResolve opts b k s)"
proof (cases "g_promise (gates s k) = Some Pending")
  case True
  let ?g = "(gates s k)\<lparr>g_promise := Some (Fulfilled ())\<rparr>"
  let ?s = "s\<lparr>gates := (gates s)(k := ?g\<lparr>g_thens := []\<rparr>)\<rparr>"
  have "fresh_inv ?s"
    using assms by (rule fresh_inv_gate_cleared)
  moreover have "\<forall>w \<in> set (g_thens (gates s k)). snd w < next_sub ?s"
    using assms by (auto dest: fresh_inv_thens)
  ultimately have "fresh_inv (run_thens opts b (g_thens (gates s k)) ?s)"
    by (rule fresh_inv_run_thens)
  with True show ?thesis by (simp add: gateResolve_def Let_def)
next
  case False
  with assms show ?thesis by (simp add: gateResolve_def Let_def)
qed

lemma fresh_inv_resolve_attempt [simp]: "fresh_inv s \<Longrightarrow> fresh_inv (resolve_attempt opts b a s)"
  by (simp add: resolve_attempt_def Let_def)

lemma fresh_inv_reject_attempt [simp]: "fresh_inv s \<Longrightarrow> fresh_inv (reject_attempt opts b a e s)"
  by (simp add: reject_attempt_def Let_def)

lemma fresh_inv_connectStreamWebSocket [simp]:
  "fresh_inv s \<Longrightarrow> fresh_inv (connectStreamWebSocket opts b recon k s)"
  by (simp add: connectStreamWebSocket_def Let_def setTimeout_def split: option.splits)

lemma fresh_inv_connect_timeout_fired [simp]:
  "fresh_inv s \<Longrightarrow> fresh_inv (connect_timeout_fired opts b sock s)"
  by (simp add: connect_timeout_fired_def Let_def setTimeout_def)

lemma fresh_inv_onopen [simp]: "fresh_inv s \<Longrightarrow> fresh_inv (onopen opts b sock s)"
  by (simp add: onopen_def Let_def)

lemma fresh_inv_connect [simp]: "fresh_inv s \<Longrightarrow> fresh_inv (snd (connect opts s))"
  by (simp add: connect_def Let_def) (simp add: fresh_inv_def)

lemma fresh_inv_connect_fetched [simp]:
  "fresh_inv s \<Longrightarrow> fresh_inv (connect_fetched opts b k r s)"
  by (simp add: connect_fetched_def Let_def split: option.splits sum.splits)

lemma fresh_inv_allocated:
  "fresh_inv s \<Longrightarrow> fresh_inv (s\<lparr>sub_promises := x, next_sub := Suc (next_sub s)\<rparr>)"
  by (auto simp: fresh_inv_def less_Suc_eq)

lemma fresh_inv_pubsub [simp]: "fresh_inv s \<Longrightarrow> fresh_inv (snd (pubsub opts b ty tps s))"
proof -
  assume f: "fresh_inv s"
  let ?s0 = "s\<lparr>sub_promises := (sub_promises s)(next_sub s := Pending), next_sub := Suc (next_sub s)\<rparr>"
  let ?g = "gates s (gate s)"
  have f0: "fresh_inv ?s0"
    using f by (rule fresh_inv_allocated)
  show ?thesis
  proof (cases "g_promise ?g")
    case None
    with f0 show ?thesis by (simp add: pubsub_def Let_def)
  next
    case (Some st)
    show ?thesis
    proof (cases st)
      case Pending
      have "fresh_inv (?s0\<lparr>gates := (gates s)(gate s := ?g\<lparr>g_thens := g_thens ?g @ [(payload, next_sub s)]\<rparr>)\<rparr>)"
        for payload
        using f0 by (auto simp: fresh_inv_def)
      with Some Pending show ?thesis by (simp add: pubsub_def Let_def)
    next
      case (Fulfilled u)
      with Some f0 show ?thesis by (simp add: pubsub_def Let_def)
    next
      case (Rejected e)
      with Some f0 show ?thesis by (simp add: pubsub_def Let_def)
    qed
  qed
qed

lemma fresh_inv_run_task [simp]: "fresh_inv s \<Longrightarrow> fresh_inv (run_task opts b t s)"
  by (simp add: run_task_def split: task.splits)

lemma fresh_inv_fire [simp]: "fresh_inv s \<Longrightarrow> fresh_inv (fire opts b i s)"
  by (simp add: fire_def split: option.splits)

lemma fresh_inv_step: "fresh_inv s \<Longrightarrow> fresh_inv (step opts bi s)"
  by (simp add: step_def Let_def sub_def unsub_def split: input.splits)

lemma fresh_inv_run: "fresh_inv s \<Longrightarrow> fresh_inv (run opts ins s)"
  by (induction ins arbitrary: s) (simp_all add: fresh_inv_step)

lemma fresh_inv_reachable: "fresh_inv (run opts ins new_Pubs)"
  by (simp add: fresh_inv_run fresh_inv_new_Pubs)

text \<open>A subscription promise that nothing can settle stays that way.\<close>

lemma abandoned_update [simp]:
  "abandoned p0 (s\<lparr>connecting := x0\<rparr>) = abandoned p0 s"
  "abandoned p0 (s\<lparr>connected := x1\<rparr>) = abandoned p0 s"
  "abandoned p0 (s\<lparr>reconnecting := x2\<rparr>) = abandoned p0 s"
  "abandoned p0 (s\<lparr>socket := x3\<rparr>) = abandoned p0 s"
  "abandoned p0 (s\<lparr>closing := x4\<rparr>) = abandoned p0 s"
  "abandoned p0 (s\<lparr>reconnector := x5\<rparr>) = abandoned p0 s"
  "abandoned p0 (s\<lparr>reconnectAttempts := x6\<rparr>) = abandoned p0 s"
  "abandoned p0 (s\<lparr>replyHandlers := x7\<rparr>) = abandoned p0 s"
  "abandoned p0 (s\<lparr>gate := x8\<rparr>) = abandoned p0 s"
  "abandoned p0 (s\<lparr>websocketSequence := x9\<rparr>) = abandoned p0 s"
  "abandoned p0 (s\<lparr>timers := x10\<rparr>) = abandoned p0 s"
  "abandoned p0 (s\<lparr>next_timer := x11\<rparr>) = abandoned p0 s"
  "abandoned p0 (s\<lparr>connect_promises := x13\<rparr>) = abandoned p0 s"
  "abandoned p0 (s\<lparr>fetching := x14\<rparr>) = abandoned p0 s"
  "abandoned p0 (s\<lparr>next_call := x15\<rparr>) = abandoned p0 s"
  "abandoned p0 (s\<lparr>attempts := x16\<rparr>) = abandoned p0 s"
  "abandoned p0 (s\<lparr>next_socket := x17\<rparr>) = abandoned p0 s"
  "abandoned p0 (s\<lparr>next_send := x20\<rparr>) = abandoned p0 s"
  "abandoned p0 (s\<lparr>dispatched := x23\<rparr>) = abandoned p0 s"
  "abandoned p0 (s\<lparr>sent := x24\<rparr>) = abandoned p0 s"
  "abandoned p0 (s\<lparr>closed := x25\<rparr>) = abandoned p0 s"
  by (simp_all add: abandoned_def)

lemma abandoned_frame [simp]:
  "abandoned p0 (clearTimeout i s) = abandoned p0 s"
  "abandoned p0 (dispatchEvent ev s) = abandoned p0 s"
  "abandoned p0 (dispatchStateChangedEvent s) = abandoned p0 s"
  "abandoned p0 (dispatchStreamEvent dat nfo s) = abandoned p0 s"
  "abandoned p0 (dispatchErrorEvent err s) = abandoned p0 s"
  "abandoned p0 (closeStreamWebsocket sock s) = abandoned p0 s"
  "abandoned p0 (resolve_connect k s) = abandoned p0 s"
  "abandoned p0 (reject_connect k e s) = abandoned p0 s"
  "abandoned p0 (connect_reconnector opts b fast s) = abandoned p0 s"
  "abandoned p0 (onclose opts b sock s) = abandoned p0 s"
  "abandoned p0 (onerror sock s) = abandoned p0 s"
  by (simp_all add: abandoned_def)

lemma abandoned_resolve_sub [simp]: "abandoned p s \<Longrightarrow> r \<noteq> p \<Longrightarrow> abandoned p (resolve_sub r s)"
  by (simp add: abandoned_def resolve_sub_def)

lemma abandoned_resolve_send [simp]: "abandoned p s \<Longrightarrow> abandoned p (resolve_send q m s)"
proof (cases "send_promises s q = Pending")
  case False
  assume "abandoned p s"
  with False show ?thesis by (simp add: resolve_send_def)
next
  case True
  assume a: "abandoned p s"
  let ?s1 = "s\<lparr>send_promises := (send_promises s)(q := Fulfilled m)\<rparr>"
  have a1: "abandoned p ?s1"
    using a by (simp add: abandoned_def)
  have "send_thens s q \<noteq> Some p"
    using a True by (auto simp: abandoned_def)
  with a1 True show ?thesis
    by (auto simp: resolve_send_def Let_def split: option.splits)
qed

lemma abandoned_reject_send [simp]: "abandoned p s \<Longrightarrow> abandoned p (reject_send q e s)"
  by (simp add: abandoned_def reject_send_def)

lemma abandoned_gateReject [simp]: "abandoned p s \<Longrightarrow> abandoned p (gateReject k s)"
  by (simp add: abandoned_def gateReject_def Let_def)

lemma abandoned_send [simp]:
  "abandoned p s \<Longrightarrow> ts \<noteq> Some p \<Longrightarrow>
   abandoned p (snd (sendStreamWebSocketPayload opts b payload rt ts s))"
  by (simp add: sendStreamWebSocketPayload_def Let_def setTimeout_def reject_send_def abandoned_def
        split: option.splits)

lemma abandoned_run_thens [simp]:
  "abandoned p s \<Longrightarrow> p \<notin> snd ` set ws \<Longrightarrow> abandoned p (run_thens opts b ws s)"
proof (induction ws arbitrary: s)
  case Nil
  then show ?case by simp
next
  case (Cons w ws)
  obtain payload r where w: "w = (payload, r)"
    by (cases w)
  with Cons.prems have "r \<noteq> p" "p \<notin> snd ` set ws"
    by auto
  with Cons.prems(1) Cons.IH w show ?case by simp
qed

lemma abandoned_gate_flag [simp]:
  "abandoned p r \<Longrightarrow> gates r = gs \<Longrightarrow>
   abandoned p (r\<lparr>gates := gs(k := (gs k)\<lparr>g_reject := x\<rparr>)\<rparr>)"
  by (auto simp: abandoned_def)

lemma abandoned_gateResolve [simp]:
  assumes "abandoned p s"
  shows "abandoned p (gateResolve opts b k s)"
proof (cases "g_promise (gates s k) = Some Pending")
  case True
  let ?s = "s\<lparr>gates := (gates s)(k := (gates s k)\<lparr>g_promise := Some (Fulfilled ()), g_thens := []\<rparr>)\<rparr>"
  have "abandoned p ?s"
    using assms by (simp add: abandoned_def)
  moreover have "p \<notin> snd ` set (g_thens (gates s k))"
    using assms by (simp add: abandoned_def)
  ultimately have "abandoned p (run_thens opts b (g_thens (gates s k)) ?s)"
    by (rule abandoned_run_thens)
  with True show ?thesis by (simp add: gateResolve_def Let_def)
next
  case False
  with assms show ?thesis by (simp add: gateResolve_def Let_def)
qed

lemma abandoned_resolve_attempt [simp]: "abandoned p s \<Longrightarrow> abandoned p (resolve_attempt opts b a s)"
  by (simp add: resolve_attempt_def Let_def)

lemma abandoned_reject_attempt [simp]: "abandoned p s \<Longrightarrow> abandoned p (reject_attempt opts b a e s)"
  by (simp add: reject_attempt_def Let_def)

lemma abandoned_connectStreamWebSocket [simp]:
  "abandoned p s \<Longrightarrow> abandoned p (connectStreamWebSocket opts b recon k s)"
  by (simp add: connectStreamWebSocket_def Let_def setTimeout_def split: option.splits)

lemma abandoned_connect_timeout_fired [simp]:
  "abandoned p s \<Longrightarrow> abandoned p (connect_timeout_fired opts b sock s)"
  by (simp add: connect_timeout_fired_def Let_def setTimeout_def)

lemma abandoned_onopen [simp]: "abandoned p s \<Longrightarrow> abandoned p (onopen opts b sock s)"
  by (simp add: onopen_def Let_def)

lemma abandoned_connect [simp]: "abandoned p s \<Longrightarrow> abandoned p (snd (connect opts s))"
  by (simp add: connect_def Let_def) (simp add: abandoned_def)

lemma abandoned_connect_fetched [simp]:
  "abandoned p s \<Longrightarrow> abandoned p (connect_fetched opts b k r s)"
  by (simp add: connect_fetched_def Let_def split: option.splits sum.splits)

lemma abandoned_pubsub [simp]: "abandoned p s \<Longrightarrow> abandoned p (snd (pubsub opts b ty tps s))"
proof -
  assume a: "abandoned p s"
  let ?s0 = "s\<lparr>sub_promises := (sub_promises s)(next_sub s := Pending), next_sub := Suc (next_sub s)\<rparr>"
  let ?g = "gates s (gate s)"
  have ne: "next_sub s \<noteq> p"
    using a by (auto simp: abandoned_def)
  have a0: "abandoned p ?s0"
    using a by (auto simp: abandoned_def)
  show ?thesis
  proof (cases "g_promise ?g")
    case None
    with a ne show ?thesis by (simp add: pubsub_def Let_def reject_sub_def abandoned_def)
  next
    case (Some st)
    show ?thesis
    proof (cases st)
      case Pending
      have "abandoned p (?s0\<lparr>gates := (gates s)(gate s := ?g\<lparr>g_thens := g_thens ?g @ [(payload, next_sub s)]\<rparr>)\<rparr>)"
        for payload
        using a0 ne by (auto simp: abandoned_def)
      with Some Pending show ?thesis by (simp add: pubsub_def Let_def)
    next
      case (Fulfilled u)
      with Some a0 ne show ?thesis by (simp add: pubsub_def Let_def)
    next
      case (Rejected e)
      with Some a0 show ?thesis by (simp add: pubsub_def Let_def)
    qed
  qed
qed

lemma abandoned_handleStreamWebSocketMessage [simp]:
  "abandoned p s \<Longrightarrow> abandoned p (handleStreamWebSocketMessage sock m s)"
  by (simp add: handleStreamWebSocketMessage_def Let_def split: option.splits)

lemma abandoned_run_task [simp]: "abandoned p s \<Longrightarrow> abandoned p (run_task opts b t s)"
  by (simp add: run_task_def split: task.splits)

lemma abandoned_fire [simp]: "abandoned p s \<Longrightarrow> abandoned p (fire opts b i s)"
  by (simp add: fire_def split: option.splits)

lemma abandoned_step: "abandoned p s \<Longrightarrow> abandoned p (step opts bi s)"
  by (simp add: step_def Let_def sub_def unsub_def split: input.splits)

lemma abandoned_run: "abandoned p s \<Longrightarrow> abandoned p (run opts ins s)"
  by (induction ins arbitrary: s) (simp_all add: abandoned_step)

text \<open>The ways into this state.\<close>

lemma waiting_gateReject: "waiting p g s \<Longrightarrow> abandoned p (gateReject g s)"
  by (auto simp: waiting_def abandoned_def gateReject_def Let_def)

lemma in_flight_reject_send: "in_flight p q s \<Longrightarrow> abandoned p (reject_send q e s)"
  by (auto simp: in_flight_def abandoned_def reject_send_def)

text \<open>A gate's promise, once settled, stays as it is.\<close>

lemma gate_settled_update [simp]:
  "gate_settled v0 g0 (s\<lparr>connecting := x0\<rparr>) = gate_settled v0 g0 s"
  "gate_settled v0 g0 (s\<lparr>connected := x1\<rparr>) = gate_settled v0 g0 s"
  "gate_settled v0 g0 (s\<lparr>reconnecting := x2\<rparr>) = gate_settled v0 g0 s"
  "gate_settled v0 g0 (s\<lparr>socket := x3\<rparr>) = gate_settled v0 g0 s"
  "gate_settled v0 g0 (s\<lparr>closing := x4\<rparr>) = gate_settled v0 g0 s"
  "gate_settled v0 g0 (s\<lparr>reconnector := x5\<rparr>) = gate_settled v0 g0 s"
  "gate_settled v0 g0 (s\<lparr>reconnectAttempts := x6\<rparr>) = gate_settled v0 g0 s"
  "gate_settled v0 g0 (s\<lparr>replyHandlers := x7\<rparr>) = gate_settled v0 g0 s"
  "gate_settled v0 g0 (s\<lparr>gate := x8\<rparr>) = gate_settled v0 g0 s"
  "gate_settled v0 g0 (s\<lparr>websocketSequence := x9\<rparr>) = gate_settled v0 g0 s"
  "gate_settled v0 g0 (s\<lparr>timers := x10\<rparr>) = gate_settled v0 g0 s"
  "gate_settled v0 g0 (s\<lparr>next_timer := x11\<rparr>) = gate_settled v0 g0 s"
  "gate_settled v0 g0 (s\<lparr>connect_promises := x13\<rparr>) = gate_settled v0 g0 s"
  "gate_settled v0 g0 (s\<lparr>fetching := x14\<rparr>) = gate_settled v0 g0 s"
  "gate_settled v0 g0 (s\<lparr>attempts := x16\<rparr>) = gate_settled v0 g0 s"
  "gate_settled v0 g0 (s\<lparr>next_socket := x17\<rparr>) = gate_settled v0 g0 s"
  "gate_settled v0 g0 (s\<lparr>send_promises := x18\<rparr>) = gate_settled v0 g0 s"
  "gate_settled v0 g0 (s\<lparr>send_thens := x19\<rparr>) = gate_settled v0 g0 s"
  "gate_settled v0 g0 (s\<lparr>next_send := x20\<rparr>) = gate_settled v0 g0 s"
  "gate_settled v0 g0 (s\<lparr>sub_promises := x21\<rparr>) = gate_settled v0 g0 s"
  "gate_settled v0 g0 (s\<lparr>next_sub := x22\<rparr>) = gate_settled v0 g0 s"
  "gate_settled v0 g0 (s\<lparr>dispatched := x23\<rparr>) = gate_settled v0 g0 s"
  "gate_settled v0 g0 (s\<lparr>sent := x24\<rparr>) = gate_settled v0 g0 s"
  "gate_settled v0 g0 (s\<lparr>closed := x25\<rparr>) = gate_settled v0 g0 s"
  by (simp_all add: gate_settled_def)

lemma gate_settled_frame [simp]:
  "gate_settled v0 g0 (clearTimeout i s) = gate_settled v0 g0 s"
  "gate_settled v0 g0 (dispatchEvent ev s) = gate_settled v0 g0 s"
  "gate_settled v0 g0 (dispatchStateChangedEvent s) = gate_settled v0 g0 s"
  "gate_settled v0 g0 (dispatchStreamEvent dat nfo s) = gate_settled v0 g0 s"
  "gate_settled v0 g0 (dispatchErrorEvent err s) = gate_settled v0 g0 s"
  "gate_settled v0 g0 (closeStreamWebsocket sock s) = gate_settled v0 g0 s"
  "gate_settled v0 g0 (resolve_sub p s) = gate_settled v0 g0 s"
  "gate_settled v0 g0 (reject_sub p e s) = gate_settled v0 g0 s"
  "gate_settled v0 g0 (resolve_send q m s) = gate_settled v0 g0 s"
  "gate_settled v0 g0 (reject_send q e s) = gate_settled v0 g0 s"
  "gate_settled v0 g0 (resolve_connect k s) = gate_settled v0 g0 s"
  "gate_settled v0 g0 (reject_connect k e s) = gate_settled v0 g0 s"
  "gate_settled v0 g0 (snd (sendStreamWebSocketPayload opts b payload rt ts s)) = gate_settled v0 g0 s"
  "gate_settled v0 g0 (run_thens opts b ws s) = gate_settled v0 g0 s"
  "gate_settled v0 g0 (connect_reconnector opts b fast s) = gate_settled v0 g0 s"
  "gate_settled v0 g0 (onclose opts b sock s) = gate_settled v0 g0 s"
  "gate_settled v0 g0 (onerror sock s) = gate_settled v0 g0 s"
  "gate_settled v0 g0 (handleStreamWebSocketMessage sock m s) = gate_settled v0 g0 s"
  by (simp_all add: gate_settled_def)

lemma gate_settled_gateReject [simp]: "gate_settled v g s \<Longrightarrow> gate_settled v g (gateReject k s)"
  by (auto simp: gate_settled_def gateReject_def Let_def)

lemma gate_settled_gate_flag [simp]:
  "gate_settled v g r \<Longrightarrow> gates r = gs \<Longrightarrow>
   gate_settled v g (r\<lparr>gates := gs(k := (gs k)\<lparr>g_reject := x\<rparr>)\<rparr>)"
  by (auto simp: gate_settled_def)

lemma gate_settled_gateResolve [simp]: "gate_settled v g s \<Longrightarrow> gate_settled v g (gateResolve opts b k s)"
  by (auto simp: gateResolve_def Let_def) (auto simp: gate_settled_def)

lemma gate_settled_resolve_attempt [simp]:
  "gate_settled v g s \<Longrightarrow> gate_settled v g (resolve_attempt opts b a s)"
  by (simp add: resolve_attempt_def Let_def)

lemma gate_settled_reject_attempt [simp]:
  "gate_settled v g s \<Longrightarrow> gate_settled v g (reject_attempt opts b a e s)"
  by (simp add: reject_attempt_def Let_def)

lemma gate_settled_connectStreamWebSocket [simp]:
  "gate_settled v g s \<Longrightarrow> gate_settled v g (connectStreamWebSocket opts b recon k s)"
  by (simp add: connectStreamWebSocket_def Let_def setTimeout_def split: option.splits)

lemma gate_settled_connect_timeout_fired [simp]:
  "gate_settled v g s \<Longrightarrow> gate_settled v g (connect_timeout_fired opts b sock s)"
  by (simp add: connect_timeout_fired_def Let_def setTimeout_def)

lemma gate_settled_onopen [simp]: "gate_settled v g s \<Longrightarrow> gate_settled v g (onopen opts b sock s)"
  by (simp add: onopen_def Let_def)

lemma gate_settled_connect [simp]: "gate_settled v g s \<Longrightarrow> gate_settled v g (snd (connect opts s))"
  by (simp add: connect_def Let_def) (auto simp: gate_settled_def)

lemma gate_settled_connect_fetched [simp]:
  "gate_settled v g s \<Longrightarrow> gate_settled v g (connect_fetched opts b k r s)"
  by (simp add: connect_fetched_def Let_def split: option.splits sum.splits)

lemma gate_settled_pubsub [simp]:
  "gate_settled v g s \<Longrightarrow> gate_settled v g (snd (pubsub opts b ty tps s))"
  by (simp add: pubsub_def Let_def split: option.splits promise.splits)
     (auto simp: gate_settled_def)

lemma gate_settled_run_task [simp]: "gate_settled v g s \<Longrightarrow> gate_settled v g (run_task opts b t s)"
  by (simp add: run_task_def split: task.splits)

lemma gate_settled_fire [simp]: "gate_settled v g s \<Longrightarrow> gate_settled v g (fire opts b i s)"
  by (simp add: fire_def split: option.splits)

lemma gate_settled_step: "gate_settled v g s \<Longrightarrow> gate_settled v g (step opts bi s)"
  by (simp add: step_def Let_def sub_def unsub_def split: input.splits)

lemma launched_update [simp]:
  "launched p0 (s\<lparr>connecting := x0\<rparr>) = launched p0 s"
  "launched p0 (s\<lparr>connected := x1\<rparr>) = launched p0 s"
  "launched p0 (s\<lparr>reconnecting := x2\<rparr>) = launched p0 s"
  "launched p0 (s\<lparr>socket := x3\<rparr>) = launched p0 s"
  "launched p0 (s\<lparr>closing := x4\<rparr>) = launched p0 s"
  "launched p0 (s\<lparr>reconnector := x5\<rparr>) = launched p0 s"
  "launched p0 (s\<lparr>reconnectAttempts := x6\<rparr>) = launched p0 s"
  "launched p0 (s\<lparr>replyHandlers := x7\<rparr>) = launched p0 s"
  "launched p0 (s\<lparr>gate := x8\<rparr>) = launched p0 s"
  "launched p0 (s\<lparr>websocketSequence := x9\<rparr>) = launched p0 s"
  "launched p0 (s\<lparr>timers := x10\<rparr>) = launched p0 s"
  "launched p0 (s\<lparr>next_timer := x11\<rparr>) = launched p0 s"
  "launched p0 (s\<lparr>connect_promises := x13\<rparr>) = launched p0 s"
  "launched p0 (s\<lparr>fetching := x14\<rparr>) = launched p0 s"
  "launched p0 (s\<lparr>next_call := x15\<rparr>) = launched p0 s"
  "launched p0 (s\<lparr>attempts := x16\<rparr>) = launched p0 s"
  "launched p0 (s\<lparr>next_socket := x17\<rparr>) = launched p0 s"
  "launched p0 (s\<lparr>send_promises := x18\<rparr>) = launched p0 s"
  "launched p0 (s\<lparr>send_thens := x19\<rparr>) = launched p0 s"
  "launched p0 (s\<lparr>next_send := x20\<rparr>) = launched p0 s"
  "launched p0 (s\<lparr>dispatched := x23\<rparr>) = launched p0 s"
  "launched p0 (s\<lparr>sent := x24\<rparr>) = launched p0 s"
  "launched p0 (s\<lparr>closed := x25\<rparr>) = launched p0 s"
  by (simp_all add: launched_def)

lemma launched_frame [simp]:
  "launched p0 (clearTimeout i s) = launched p0 s"
  "launched p0 (dispatchEvent ev s) = launched p0 s"
  "launched p0 (dispatchStateChangedEvent s) = launched p0 s"
  "launched p0 (dispatchStreamEvent dat nfo s) = launched p0 s"
  "launched p0 (dispatchErrorEvent err s) = launched p0 s"
  "launched p0 (closeStreamWebsocket sock s) = launched p0 s"
  "launched p0 (reject_send q e s) = launched p0 s"
  "launched p0 (resolve_connect k s) = launched p0 s"
  "launched p0 (reject_connect k e s) = launched p0 s"
  "launched p0 (snd (sendStreamWebSocketPayload opts b payload rt ts s)) = launched p0 s"
  "launched p0 (run_thens opts b ws s) = launched p0 s"
  "launched p0 (connect_reconnector opts b fast s) = launched p0 s"
  "launched p0 (onclose opts b sock s) = launched p0 s"
  "launched p0 (onerror sock s) = launched p0 s"
  by (simp_all add: launched_def)


lemma launched_resolve_sub [simp]: "launched p s \<Longrightarrow> launched p (resolve_sub r s)"
  by (simp add: launched_def resolve_sub_def)

lemma launched_resolve_send [simp]: "launched p s \<Longrightarrow> launched p (resolve_send q m s)"
  by (simp add: resolve_send_def Let_def split: option.splits)

lemma launched_gateReject [simp]: "launched p s \<Longrightarrow> launched p (gateReject k s)"
  by (simp add: launched_def gateReject_def Let_def)

lemma launched_gate_flag [simp]:
  "launched p r \<Longrightarrow> gates r = gs \<Longrightarrow>
   launched p (r\<lparr>gates := gs(k := (gs k)\<lparr>g_reject := x\<rparr>)\<rparr>)"
  by (auto simp: launched_def)

lemma launched_gateResolve [simp]: "launched p s \<Longrightarrow> launched p (gateResolve opts b k s)"
  by (simp add: gateResolve_def Let_def) (simp add: launched_def)

lemma launched_resolve_attempt [simp]:
  "launched p s \<Longrightarrow> launched p (resolve_attempt opts b a s)"
  by (simp add: resolve_attempt_def Let_def)

lemma launched_reject_attempt [simp]:
  "launched p s \<Longrightarrow> launched p (reject_attempt opts b a e s)"
  by (simp add: reject_attempt_def Let_def)

lemma launched_connectStreamWebSocket [simp]:
  "launched p s \<Longrightarrow> launched p (connectStreamWebSocket opts b recon k s)"
  by (simp add: connectStreamWebSocket_def Let_def setTimeout_def split: option.splits)

lemma launched_connect_timeout_fired [simp]:
  "launched p s \<Longrightarrow> launched p (connect_timeout_fired opts b sock s)"
  by (simp add: connect_timeout_fired_def Let_def setTimeout_def)

lemma launched_onopen [simp]: "launched p s \<Longrightarrow> launched p (onopen opts b sock s)"
  by (simp add: onopen_def Let_def)

lemma launched_connect [simp]: "launched p s \<Longrightarrow> launched p (snd (connect opts s))"
  by (simp add: connect_def Let_def) (simp add: launched_def)

lemma launched_connect_fetched [simp]:
  "launched p s \<Longrightarrow> launched p (connect_fetched opts b k r s)"
  by (simp add: connect_fetched_def Let_def split: option.splits sum.splits)

lemma launched_pubsub [simp]: "launched p s \<Longrightarrow> launched p (snd (pubsub opts b ty tps s))"
proof -
  assume a: "launched p s"
  let ?s0 = "s\<lparr>sub_promises := (sub_promises s)(next_sub s := Pending), next_sub := Suc (next_sub s)\<rparr>"
  let ?g = "gates s (gate s)"
  have ne: "next_sub s \<noteq> p"
    using a by (auto simp: launched_def)
  have a0: "launched p ?s0"
    using a by (auto simp: launched_def)
  show ?thesis
  proof (cases "g_promise ?g")
    case None
    with a ne show ?thesis by (simp add: pubsub_def Let_def reject_sub_def launched_def)
  next
    case (Some st)
    show ?thesis
    proof (cases st)
      case Pending
      have "launched p (?s0\<lparr>gates := (gates s)(gate s := ?g\<lparr>g_thens := g_thens ?g @ [(payload, next_sub s)]\<rparr>)\<rparr>)"
        for payload
        using a0 ne by (auto simp: launched_def)
      with Some Pending show ?thesis by (simp add: pubsub_def Let_def)
    next
      case (Fulfilled u)
      with Some a0 ne show ?thesis by (simp add: pubsub_def Let_def)
    next
      case (Rejected e)
      with Some a0 show ?thesis by (simp add: pubsub_def Let_def)
    qed
  qed
qed

lemma launched_handleStreamWebSocketMessage [simp]:
  "launched p s \<Longrightarrow> launched p (handleStreamWebSocketMessage sock m s)"
  by (simp add: handleStreamWebSocketMessage_def Let_def split: option.splits)

lemma launched_run_task [simp]: "launched p s \<Longrightarrow> launched p (run_task opts b t s)"
  by (simp add: run_task_def split: task.splits)

lemma launched_fire [simp]: "launched p s \<Longrightarrow> launched p (fire opts b i s)"
  by (simp add: fire_def split: option.splits)

lemma launched_step: "launched p s \<Longrightarrow> launched p (step opts bi s)"
  by (simp add: step_def Let_def sub_def unsub_def split: input.splits)

text \<open>
  The life of a subscription promise: while it waits on a pending gate only the settling
  of that gate changes its state; afterwards it is either abandoned or has left the gate.
\<close>

lemma waiting_update [simp]:
  "waiting p0 g0 (s\<lparr>connecting := x0\<rparr>) = waiting p0 g0 s"
  "waiting p0 g0 (s\<lparr>connected := x1\<rparr>) = waiting p0 g0 s"
  "waiting p0 g0 (s\<lparr>reconnecting := x2\<rparr>) = waiting p0 g0 s"
  "waiting p0 g0 (s\<lparr>socket := x3\<rparr>) = waiting p0 g0 s"
  "waiting p0 g0 (s\<lparr>closing := x4\<rparr>) = waiting p0 g0 s"
  "waiting p0 g0 (s\<lparr>reconnector := x5\<rparr>) = waiting p0 g0 s"
  "waiting p0 g0 (s\<lparr>reconnectAttempts := x6\<rparr>) = waiting p0 g0 s"
  "waiting p0 g0 (s\<lparr>replyHandlers := x7\<rparr>) = waiting p0 g0 s"
  "waiting p0 g0 (s\<lparr>gate := x8\<rparr>) = waiting p0 g0 s"
  "waiting p0 g0 (s\<lparr>websocketSequence := x9\<rparr>) = waiting p0 g0 s"
  "waiting p0 g0 (s\<lparr>timers := x10\<rparr>) = waiting p0 g0 s"
  "waiting p0 g0 (s\<lparr>next_timer := x11\<rparr>) = waiting p0 g0 s"
  "waiting p0 g0 (s\<lparr>connect_promises := x13\<rparr>) = waiting p0 g0 s"
  "waiting p0 g0 (s\<lparr>fetching := x14\<rparr>) = waiting p0 g0 s"
  "waiting p0 g0 (s\<lparr>next_call := x15\<rparr>) = waiting p0 g0 s"
  "waiting p0 g0 (s\<lparr>attempts := x16\<rparr>) = waiting p0 g0 s"
  "waiting p0 g0 (s\<lparr>next_socket := x17\<rparr>) = waiting p0 g0 s"
  "waiting p0 g0 (s\<lparr>send_promises := x18\<rparr>) = waiting p0 g0 s"
  "waiting p0 g0 (s\<lparr>next_send := x20\<rparr>) = waiting p0 g0 s"
  "waiting p0 g0 (s\<lparr>dispatched := x23\<rparr>) = waiting p0 g0 s"
  "waiting p0 g0 (s\<lparr>sent := x24\<rparr>) = waiting p0 g0 s"
  "waiting p0 g0 (s\<lparr>closed := x25\<rparr>) = waiting p0 g0 s"
  by (simp_all add: waiting_def)

lemma waiting_frame [simp]:
  "waiting p0 g0 (clearTimeout i s) = waiting p0 g0 s"
  "waiting p0 g0 (dispatchEvent ev s) = waiting p0 g0 s"
  "waiting p0 g0 (dispatchStateChangedEvent s) = waiting p0 g0 s"
  "waiting p0 g0 (dispatchStreamEvent dat nfo s) = waiting p0 g0 s"
  "waiting p0 g0 (dispatchErrorEvent err s) = waiting p0 g0 s"
  "waiting p0 g0 (closeStreamWebsocket sock s) = waiting p0 g0 s"
  "waiting p0 g0 (reject_send q e s) = waiting p0 g0 s"
  "waiting p0 g0 (resolve_connect k s) = waiting p0 g0 s"
  "waiting p0 g0 (reject_connect k e s) = waiting p0 g0 s"
  "waiting p0 g0 (connect_reconnector opts b fast s) = waiting p0 g0 s"
  "waiting p0 g0 (onclose opts b sock s) = waiting p0 g0 s"
  "waiting p0 g0 (onerror sock s) = waiting p0 g0 s"
  by (simp_all add: waiting_def)

lemma track_update [simp]:
  "track p0 g0 (s\<lparr>connecting := x0\<rparr>) = track p0 g0 s"
  "track p0 g0 (s\<lparr>connected := x1\<rparr>) = track p0 g0 s"
  "track p0 g0 (s\<lparr>reconnecting := x2\<rparr>) = track p0 g0 s"
  "track p0 g0 (s\<lparr>socket := x3\<rparr>) = track p0 g0 s"
  "track p0 g0 (s\<lparr>closing := x4\<rparr>) = track p0 g0 s"
  "track p0 g0 (s\<lparr>reconnector := x5\<rparr>) = track p0 g0 s"
  "track p0 g0 (s\<lparr>reconnectAttempts := x6\<rparr>) = track p0 g0 s"
  "track p0 g0 (s\<lparr>replyHandlers := x7\<rparr>) = track p0 g0 s"
  "track p0 g0 (s\<lparr>gate := x8\<rparr>) = track p0 g0 s"
  "track p0 g0 (s\<lparr>websocketSequence := x9\<rparr>) = track p0 g0 s"
  "track p0 g0 (s\<lparr>timers := x10\<rparr>) = track p0 g0 s"
  "track p0 g0 (s\<lparr>next_timer := x11\<rparr>) = track p0 g0 s"
  "track p0 g0 (s\<lparr>connect_promises := x13\<rparr>) = track p0 g0 s"
  "track p0 g0 (s\<lparr>fetching := x14\<rparr>) = track p0 g0 s"
  "track p0 g0 (s\<lparr>attempts := x16\<rparr>) = track p0 g0 s"
  "track p0 g0 (s\<lparr>next_socket := x17\<rparr>) = track p0 g0 s"
  "track p0 g0 (s\<lparr>next_send := x20\<rparr>) = track p0 g0 s"
  "track p0 g0 (s\<lparr>dispatched := x23\<rparr>) = track p0 g0 s"
  "track p0 g0 (s\<lparr>sent := x24\<rparr>) = track p0 g0 s"
  "track p0 g0 (s\<lparr>closed := x25\<rparr>) = track p0 g0 s"
  by (simp_all add: track_def)

lemma track_frame [simp]:
  "track p0 g0 (clearTimeout i s) = track p0 g0 s"
  "track p0 g0 (dispatchEvent ev s) = track p0 g0 s"
  "track p0 g0 (dispatchStateChangedEvent s) = track p0 g0 s"
  "track p0 g0 (dispatchStreamEvent dat nfo s) = track p0 g0 s"
  "track p0 g0 (dispatchErrorEvent err s) = track p0 g0 s"
  "track p0 g0 (closeStreamWebsocket sock s) = track p0 g0 s"
  "track p0 g0 (resolve_connect k s) = track p0 g0 s"
  "track p0 g0 (reject_connect k e s) = track p0 g0 s"
  "track p0 g0 (connect_reconnector opts b fast s) = track p0 g0 s"
  "track p0 g0 (onclose opts b sock s) = track p0 g0 s"
  "track p0 g0 (onerror sock s) = track p0 g0 s"
  by (simp_all add: track_def)

lemma waiting_resolve_send: "waiting p g s \<Longrightarrow> waiting p g (resolve_send q m s)"
  by (auto simp: waiting_def resolve_send_def resolve_sub_def Let_def split: option.splits)

lemma waiting_reject_send: "waiting p g s \<Longrightarrow> waiting p g (reject_send q e s)"
  by (simp add: waiting_def reject_send_def)

lemma waiting_send:
  "waiting p g s \<Longrightarrow> ts \<noteq> Some p \<Longrightarrow>
   waiting p g (snd (sendStreamWebSocketPayload opts b payload rt ts s))"
  by (simp add: sendStreamWebSocketPayload_def Let_def setTimeout_def reject_send_def waiting_def
        split: option.splits)

lemma waiting_run_thens:
  "waiting p g s \<Longrightarrow> p \<notin> snd ` set ws \<Longrightarrow> waiting p g (run_thens opts b ws s)"
proof (induction ws arbitrary: s)
  case Nil
  then show ?case by simp
next
  case (Cons w ws)
  obtain payload r where w: "w = (payload, r)"
    by (cases w)
  with Cons.prems have "r \<noteq> p" "p \<notin> snd ` set ws"
    by auto
  with Cons.prems(1) Cons.IH w show ?case by (simp add: waiting_send)
qed

lemma waiting_gateReject_other: "waiting p g s \<Longrightarrow> k \<noteq> g \<Longrightarrow> waiting p g (gateReject k s)"
  by (auto simp: waiting_def gateReject_def Let_def)

lemma waiting_gate_flag:
  "waiting p g r \<Longrightarrow> gates r = gs \<Longrightarrow>
   waiting p g (r\<lparr>gates := gs(k := (gs k)\<lparr>g_reject := x\<rparr>)\<rparr>)"
  by (auto simp: waiting_def)

lemma waiting_gateResolve_other:
  assumes "waiting p g s" and "k \<noteq> g"
  shows "waiting p g (gateResolve opts b k s)"
proof (cases "g_promise (gates s k) = Some Pending")
  case True
  let ?s = "s\<lparr>gates := (gates s)(k := (gates s k)\<lparr>g_promise := Some (Fulfilled ()), g_thens := []\<rparr>)\<rparr>"
  have "waiting p g ?s"
    using assms by (auto simp: waiting_def)
  moreover have "p \<notin> snd ` set (g_thens (gates s k))"
    using assms by (simp add: waiting_def)
  ultimately have "waiting p g (run_thens opts b (g_thens (gates s k)) ?s)"
    by (rule waiting_run_thens)
  with True show ?thesis by (simp add: gateResolve_def Let_def)
next
  case False
  with assms show ?thesis by (simp add: gateResolve_def Let_def)
qed

lemma waiting_connect: "waiting p g s \<Longrightarrow> g < next_call s \<Longrightarrow> waiting p g (snd (connect opts s))"
  by (simp add: connect_def Let_def) (auto simp: waiting_def)

lemma waiting_pubsub: "waiting p g s \<Longrightarrow> waiting p g (snd (pubsub opts b ty tps s))"
proof -
  assume a: "waiting p g s"
  let ?s0 = "s\<lparr>sub_promises := (sub_promises s)(next_sub s := Pending), next_sub := Suc (next_sub s)\<rparr>"
  let ?g = "gates s (gate s)"
  have ne: "next_sub s \<noteq> p"
    using a by (auto simp: waiting_def)
  have a0: "waiting p g ?s0"
    using a by (auto simp: waiting_def)
  show ?thesis
  proof (cases "g_promise ?g")
    case None
    with a ne show ?thesis by (simp add: pubsub_def Let_def reject_sub_def waiting_def)
  next
    case (Some st)
    show ?thesis
    proof (cases st)
      case Pending
      have "waiting p g (?s0\<lparr>gates := (gates s)(gate s := ?g\<lparr>g_thens := g_thens ?g @ [(payload, next_sub s)]\<rparr>)\<rparr>)"
        for payload
        using a0 ne by (auto simp: waiting_def)
      with Some Pending show ?thesis by (simp add: pubsub_def Let_def)
    next
      case (Fulfilled u)
      with Some a0 ne show ?thesis by (simp add: pubsub_def Let_def waiting_send)
    next
      case (Rejected e)
      with Some a0 show ?thesis by (simp add: pubsub_def Let_def)
    qed
  qed
qed


lemma trackI_wait: "g < next_call s \<Longrightarrow> waiting p g s \<Longrightarrow> track p g s"
  by (simp add: track_def)

lemma trackI_rej: "gate_settled (Rejected e) g s \<Longrightarrow> abandoned p s \<Longrightarrow> track p g s"
  by (auto simp: track_def)

lemma trackI_ful: "gate_settled (Fulfilled ()) g s \<Longrightarrow> launched p s \<Longrightarrow> track p g s"
  by (simp add: track_def)

lemma trackE:
  assumes "track p g s"
  obtains (wait) "g < next_call s" "waiting p g s"
    | (rej) e where "gate_settled (Rejected e) g s" "abandoned p s"
    | (ful) "gate_settled (Fulfilled ()) g s" "launched p s"
  using assms by (auto simp: track_def)

lemma track_preserved:
  assumes "track p g s"
    and "g < next_call s \<Longrightarrow> waiting p g s \<Longrightarrow> g < next_call s' \<and> waiting p g s'"
    and "\<And>v. gate_settled v g s \<Longrightarrow> gate_settled v g s'"
    and "abandoned p s \<Longrightarrow> abandoned p s'"
    and "launched p s \<Longrightarrow> launched p s'"
  shows "track p g s'"
  using assms(1)
proof (cases rule: trackE)
  case wait
  with assms(2) show ?thesis by (simp add: trackI_wait)
next
  case (rej e)
  with assms(3,4) show ?thesis by (blast intro: trackI_rej)
next
  case ful
  with assms(3,5) show ?thesis by (blast intro: trackI_ful)
qed

lemma track_resolve_send [simp]: "track p g s \<Longrightarrow> track p g (resolve_send q m s)"
  by (erule track_preserved) (simp_all add: waiting_resolve_send)

lemma track_reject_send [simp]: "track p g s \<Longrightarrow> track p g (reject_send q e s)"
  by (erule track_preserved) (simp_all add: waiting_reject_send)

lemma waiting_gate_rejected:
  "waiting p g s \<Longrightarrow> g < next_call s \<Longrightarrow> gate_settled (Rejected Undefined) g (gateReject g s)"
  by (simp add: waiting_def gate_settled_def gateReject_def Let_def)

lemma track_gateReject [simp]:
  assumes "track p g s"
  shows "track p g (gateReject k s)"
  using assms
proof (cases rule: trackE)
  case wait
  show ?thesis
  proof (cases "k = g")
    case True
    with wait have "gate_settled (Rejected Undefined) g (gateReject k s)"
      "abandoned p (gateReject k s)"
      by (simp_all add: waiting_gate_rejected waiting_gateReject)
    then show ?thesis by (rule trackI_rej)
  next
    case False
    with wait show ?thesis
      by (simp add: trackI_wait waiting_gateReject_other)
  qed
next
  case (rej e)
  then have "gate_settled (Rejected e) g (gateReject k s)" "abandoned p (gateReject k s)"
    by simp_all
  then show ?thesis by (rule trackI_rej)
next
  case ful
  then have "gate_settled (Fulfilled ()) g (gateReject k s)" "launched p (gateReject k s)"
    by simp_all
  then show ?thesis by (rule trackI_ful)
qed

lemma track_gate_flag [simp]:
  "track p g r \<Longrightarrow> gates r = gs \<Longrightarrow>
   track p g (r\<lparr>gates := gs(k := (gs k)\<lparr>g_reject := x\<rparr>)\<rparr>)"
  by (erule track_preserved) (simp_all add: waiting_gate_flag)

lemma waiting_not_settled: "waiting p g s \<Longrightarrow> \<not> gate_settled v g s"
  by (auto simp: waiting_def gate_settled_def)

lemma track_send [simp]:
  assumes "track p g s" and "ts = Some p \<longrightarrow> gate_settled (Fulfilled ()) g s"
  shows "track p g (snd (sendStreamWebSocketPayload opts b payload rt ts s))"
proof -
  from assms(1) show ?thesis
  proof (cases rule: trackE)
    case wait
    with assms(2) have "ts \<noteq> Some p"
      by (auto dest: waiting_not_settled)
    with wait show ?thesis
      by (simp add: trackI_wait waiting_send)
  next
    case (rej e)
    with assms(2) have "ts \<noteq> Some p"
      by (auto simp: gate_settled_def)
    with rej have "gate_settled (Rejected e) g (snd (sendStreamWebSocketPayload opts b payload rt ts s))"
      "abandoned p (snd (sendStreamWebSocketPayload opts b payload rt ts s))"
      by simp_all
    then show ?thesis by (rule trackI_rej)
  next
    case ful
    then have "gate_settled (Fulfilled ()) g (snd (sendStreamWebSocketPayload opts b payload rt ts s))"
      "launched p (snd (sendStreamWebSocketPayload opts b payload rt ts s))"
      by simp_all
    then show ?thesis by (rule trackI_ful)
  qed
qed

lemma track_run_thens [simp]:
  "track p g s \<Longrightarrow> (p \<in> snd ` set ws \<longrightarrow> gate_settled (Fulfilled ()) g s) \<Longrightarrow>
   track p g (run_thens opts b ws s)"
proof (induction ws arbitrary: s)
  case Nil
  then show ?case by simp
next
  case (Cons w ws)
  obtain payload r where w: "w = (payload, r)"
    by (cases w)
  let ?s = "snd (sendStreamWebSocketPayload opts b payload 0 (Some r) s)"
  from Cons.prems w have "track p g ?s"
    by (intro track_send) auto
  moreover from Cons.prems w have "p \<in> snd ` set ws \<longrightarrow> gate_settled (Fulfilled ()) g ?s"
    by auto
  ultimately have "track p g (run_thens opts b ws ?s)"
    by (rule Cons.IH)
  with w show ?case by simp
qed

lemma track_gate_fulfilled:
  assumes "track p g s" and "g_promise (gates s k) = Some Pending"
  defines "s1 \<equiv> s\<lparr>gates := (gates s)(k := (gates s k)\<lparr>g_promise := Some (Fulfilled ()), g_thens := []\<rparr>)\<rparr>"
  shows "track p g s1 \<and> (p \<in> snd ` set (g_thens (gates s k)) \<longrightarrow> gate_settled (Fulfilled ()) g s1)"
proof -
  from assms(1) show ?thesis
  proof (cases rule: trackE)
    case wait
    show ?thesis
    proof (cases "k = g")
      case True
      with wait have "gate_settled (Fulfilled ()) g s1" "launched p s1"
        by (auto simp: s1_def gate_settled_def launched_def waiting_def)
      then show ?thesis
        by (simp add: trackI_ful)
    next
      case False
      with wait have "waiting p g s1" "p \<notin> snd ` set (g_thens (gates s k))"
        by (auto simp: s1_def waiting_def)
      with wait(1) show ?thesis
        by (simp add: trackI_wait s1_def)
    qed
  next
    case (rej e)
    with assms(2) have "k \<noteq> g"
      by (auto simp: gate_settled_def)
    with rej have "gate_settled (Rejected e) g s1" "abandoned p s1"
      "p \<notin> snd ` set (g_thens (gates s k))"
      by (auto simp: s1_def gate_settled_def abandoned_def)
    then show ?thesis
      by (simp add: trackI_rej)
  next
    case ful
    with assms(2) have "k \<noteq> g"
      by (auto simp: gate_settled_def)
    with ful have "gate_settled (Fulfilled ()) g s1" "launched p s1"
      by (auto simp: s1_def gate_settled_def launched_def)
    then show ?thesis
      by (simp add: trackI_ful)
  qed
qed

lemma track_gateResolve [simp]: "track p g s \<Longrightarrow> track p g (gateResolve opts b k s)"
  using track_gate_fulfilled [of p g s k]
  by (simp add: gateResolve_def Let_def)

lemma track_resolve_attempt [simp]: "track p g s \<Longrightarrow> track p g (resolve_attempt opts b a s)"
  by (simp add: resolve_attempt_def Let_def)

lemma track_reject_attempt [simp]: "track p g s \<Longrightarrow> track p g (reject_attempt opts b a e s)"
  by (simp add: reject_attempt_def Let_def)

lemma track_connectStreamWebSocket [simp]:
  "track p g s \<Longrightarrow> track p g (connectStreamWebSocket opts b recon k s)"
  by (simp add: connectStreamWebSocket_def Let_def setTimeout_def split: option.splits)

lemma track_connect_timeout_fired [simp]:
  "track p g s \<Longrightarrow> track p g (connect_timeout_fired opts b sock s)"
  by (simp add: connect_timeout_fired_def Let_def setTimeout_def)

lemma track_onopen [simp]: "track p g s \<Longrightarrow> track p g (onopen opts b sock s)"
  by (simp add: onopen_def Let_def)

lemma next_call_connect: "next_call (snd (connect opts s)) = Suc (next_call s)"
  by (simp add: connect_def Let_def)

lemma track_connect [simp]: "track p g s \<Longrightarrow> track p g (snd (connect opts s))"
  by (erule track_preserved) (simp_all add: waiting_connect next_call_connect)

lemma track_connect_fetched [simp]:
  "track p g s \<Longrightarrow> track p g (connect_fetched opts b k r s)"
  by (simp add: connect_fetched_def Let_def split: option.splits sum.splits)

lemma track_pubsub [simp]: "track p g s \<Longrightarrow> track p g (snd (pubsub opts b ty tps s))"
  by (erule track_preserved) (simp_all add: waiting_pubsub)

lemma track_handleStreamWebSocketMessage [simp]:
  "track p g s \<Longrightarrow> track p g (handleStreamWebSocketMessage sock m s)"
  by (simp add: handleStreamWebSocketMessage_def Let_def split: option.splits)

lemma track_run_task [simp]: "track p g s \<Longrightarrow> track p g (run_task opts b t s)"
  by (simp add: run_task_def split: task.splits)

lemma track_fire [simp]: "track p g s \<Longrightarrow> track p g (fire opts b i s)"
  by (simp add: fire_def split: option.splits)

lemma track_step: "track p g s \<Longrightarrow> track p g (step opts bi s)"
  by (simp add: step_def Let_def sub_def unsub_def split: input.splits)

lemma track_run: "track p g s \<Longrightarrow> track p g (run opts ins s)"
  by (induction ins arbitrary: s) (simp_all add: track_step)

lemma fresh_inv_unreferenced:
  "fresh_inv s \<Longrightarrow> next_sub s \<notin> snd ` set (g_thens (gates s k))"
  "fresh_inv s \<Longrightarrow> send_thens s q \<noteq> Some (next_sub s)"
  by (fastforce simp: fresh_inv_def)+

lemma fst_pubsub [simp]: "fst (pubsub opts b ty tps s) = next_sub s"
  by (simp add: pubsub_def Let_def split: option.splits promise.splits)

lemma pubsub_waiting:
  assumes "fresh_inv s" and "g_promise (gates s (gate s)) = Some Pending"
  shows "waiting (next_sub s) (gate s) (snd (pubsub opts b ty tps s))"
  using assms fresh_inv_unreferenced [OF assms(1)]
  by (simp add: pubsub_def Let_def waiting_def)

lemma pubsub_gate_rejected:
  assumes "fresh_inv s" and "g_promise (gates s (gate s)) = Some (Rejected e)"
  shows "abandoned (next_sub s) (snd (pubsub opts b ty tps s))"
  using assms fresh_inv_unreferenced [OF assms(1)]
  by (simp add: pubsub_def Let_def abandoned_def)

lemma pubsub_send_fails:
  assumes "fresh_inv s" and "g_promise (gates s (gate s)) = Some (Fulfilled u)"
    and "\<not> send_possible b s"
  shows "abandoned (next_sub s) (snd (pubsub opts b ty tps s))"
  using assms fresh_inv_unreferenced [OF assms(1)]
  by (auto simp: pubsub_def Let_def abandoned_def sendStreamWebSocketPayload_def reject_send_def
        send_possible_def split: option.splits)

lemma pubsub_sent:
  assumes "fresh_inv s" and "g_promise (gates s (gate s)) = Some (Fulfilled u)"
    and "send_possible b s"
  shows "in_flight (next_sub s) (next_send s) (snd (pubsub opts b ty tps s))"
  using assms fresh_inv_unreferenced [OF assms(1)]
  by (auto simp: pubsub_def Let_def in_flight_def sendStreamWebSocketPayload_def setTimeout_def
        send_possible_def split: option.splits)

lemma abandoned_pending: "abandoned p s \<Longrightarrow> sub_promises s p = Pending"
  by (simp add: abandoned_def)



lemma gate_lt_run_task: "gate s < next_call s \<Longrightarrow> gate (run_task opts b t s) < next_call (run_task opts b t s)"
  by (cases t) (simp_all add: run_task_def, simp add: connect_def Let_def)

lemma gate_lt_step: "gate s < next_call s \<Longrightarrow> gate (step opts bi s) < next_call (step opts bi s)"
  by (cases "snd bi")
     (simp_all add: step_def Let_def sub_def unsub_def fire_def gate_lt_run_task split: option.splits,
      simp add: connect_def Let_def)

lemma gate_lt_reachable: "gate (run opts ins new_Pubs) < next_call (run opts ins new_Pubs)"
proof -
  have "gate s < next_call s \<Longrightarrow> gate (run opts ins s) < next_call (run opts ins s)" for s
    by (induction ins arbitrary: s) (simp_all add: gate_lt_step)
  then show ?thesis by (simp add: new_Pubs_def)
qed

lemma pubsub_track:
  assumes "fresh_inv s" and "gate s < next_call s" and "g_promise (gates s (gate s)) \<noteq> None"
  shows "track (next_sub s) (gate s) (snd (pubsub opts b ty tps s))"
proof -
  from assms(3) obtain st where st: "g_promise (gates s (gate s)) = Some st"
    by auto
  note u = fresh_inv_unreferenced [OF assms(1)]
  show ?thesis
  proof (cases st)
    case Pending
    with st assms(1) have "waiting (next_sub s) (gate s) (snd (pubsub opts b ty tps s))"
      by (simp add: pubsub_waiting)
    with assms(2) show ?thesis
      by (simp add: trackI_wait)
  next
    case (Rejected e)
    with st assms(1) have "abandoned (next_sub s) (snd (pubsub opts b ty tps s))"
      by (simp add: pubsub_gate_rejected)
    moreover from st Rejected assms(2) have "gate_settled (Rejected e) (gate s) s"
      by (simp add: gate_settled_def)
    then have "gate_settled (Rejected e) (gate s) (snd (pubsub opts b ty tps s))"
      by simp
    ultimately show ?thesis
      by (rule trackI_rej [rotated])
  next
    case (Fulfilled x)
    with st assms(2) have "gate_settled (Fulfilled ()) (gate s) s"
      by (simp add: gate_settled_def)
    then have "gate_settled (Fulfilled ()) (gate s) (snd (pubsub opts b ty tps s))"
      by simp
    moreover have "launched (next_sub s) (snd (pubsub opts b ty tps s))"
      using st Fulfilled u
      by (simp add: pubsub_def Let_def launched_def)
    ultimately show ?thesis
      by (rule trackI_ful)
  qed
qed

lemma track_gate_rejected:
  "track p g s \<Longrightarrow> g_promise (gates s g) = Some (Rejected e) \<Longrightarrow> abandoned p s"
  by (auto simp: track_def waiting_def gate_settled_def)

lemma track_sends_settled:
  "track p g s \<Longrightarrow> g_promise (gates s g) = Some (Fulfilled ()) \<Longrightarrow> sub_promises s p = Pending \<Longrightarrow>
   \<forall>q. send_thens s q = Some p \<longrightarrow> send_promises s q \<noteq> Pending \<Longrightarrow> abandoned p s"
  by (auto simp: track_def waiting_def gate_settled_def launched_def abandoned_def)

section \<open>The scenarios, evaluated\<close>

lemmas scenario_defs = step_def connect_def Let_def new_Pubs_def clearTimeout_def setTimeout_def js_or_def
  dispatchStateChangedEvent_def dispatchEvent_def dispatchErrorEvent_def
  fetchStreamWebSocketConnect_def connect_fetched_def falsy_def String_of.simps digit_def
  connect_reconnector_def connectStreamWebSocket_def onopen_def
  resolve_attempt_def resolve_connect_def gateResolve_def
  quiet_def handshake_ok_def handshake_failed_def handshake_forbidden_def
  no_attempt_def empty_gate_def PubsInit_options_def reconnectTimeout_def Math_trunc_def
  Math_floor_def trunc_def exact_pow_def js_incr_def

lemma connected_Pubs_fields:
  "connected connected_Pubs" "\<not> connecting connected_Pubs" "reconnecting connected_Pubs"
  "socket connected_Pubs = Some 0" "\<not> closing connected_Pubs" "timers connected_Pubs = []"
  "next_timer connected_Pubs = 2" "websocketSequence connected_Pubs = 0"
  "next_send connected_Pubs = 0" "sent connected_Pubs = []"
  "replyHandlers connected_Pubs = Map.empty" "send_promises connected_Pubs = (\<lambda>_. Pending)"
  "gate connected_Pubs = 1" "g_promise (gates connected_Pubs 1) = Some (Fulfilled ())"
  "a_onmessage (attempts connected_Pubs 0)" "a_created (attempts connected_Pubs 0)"
  by (simp_all add: connected_Pubs_def scenario_defs)

lemma retrying_Pubs_fields:
  "reconnecting retrying_Pubs" "\<not> connecting retrying_Pubs" "timers retrying_Pubs = [(1, Finite 1000, Reconnect)]"
  "reconnector retrying_Pubs = 1" "next_call retrying_Pubs = 2" "\<not> fetching retrying_Pubs 2"
  by (simp_all add: retrying_Pubs_def scenario_defs)

lemma forbidden_Pubs_fields:
  "\<not> reconnecting forbidden_Pubs" "\<not> connecting forbidden_Pubs" "timers forbidden_Pubs = []"
  "dispatched forbidden_Pubs =
     [PubsStateChangedEvent True False True, PubsStateChangedEvent False False True,
      PubsStateChangedEvent False False False,
      PubsErrorEvent ''http_error_403'' (Some ''Forbidden'')]"
  "next_call forbidden_Pubs = 2" "reconnector forbidden_Pubs = 0" "next_timer forbidden_Pubs = 1"
  "connect_promises forbidden_Pubs 1 = Pending" "g_promise (gates forbidden_Pubs 1) = Some Pending"
  "reconnectAttempts forbidden_Pubs = 0"
  by (simp_all add: forbidden_Pubs_def scenario_defs)

lemma retry_inv_reachable: "retry_inv (run opts ins new_Pubs)"
  by (simp add: retry_inv_run retry_inv_new_Pubs)

lemma off_inv_reachable: "off_inv (run opts ins new_Pubs)"
  by (simp add: off_inv_run retry_inv_new_Pubs off_inv_new_Pubs)

section \<open>The claims\<close>

subsection \<open>C2: the flags set by connect\<close>

text \<open>
  Claim C2 says that \<open>connect()\<close> sets \<open>connecting\<close> to true and \<open>reconnecting\<close> to the
  configured \<open>reconnectEnabled\<close> option, so that with \<open>reconnectEnabled = false\<close> the flag
  \<open>reconnecting\<close> is false once \<open>connect()\<close> has started. The code computes
  \<open>PubsInit.options.reconnectEnabled || true\<close>, which is true whatever the option holds.
  On a fresh instance configured with \<open>reconnectEnabled = false\<close>, \<open>connect()\<close> leaves both
  \<open>connecting\<close> and \<open>reconnecting\<close> true.
\<close>

theorem connect_ignores_reconnectEnabled:
  "connecting (snd (connect (PubsInit_options\<lparr>reconnectEnabled := False\<rparr>) new_Pubs)) \<and>
   reconnecting (snd (connect (PubsInit_options\<lparr>reconnectEnabled := False\<rparr>) new_Pubs))"
  by (simp add: connect_def Let_def js_or_def)

subsection \<open>C4: sending with a zero timeout\<close>

text \<open>
  Claim C4 says that a send with \<open>timeoutMs = 0\<close> settles successfully as soon as the
  envelope is transmitted, without waiting for an acknowledgement. In the code a zero
  \<open>replyTimeout\<close> is first replaced by \<open>streamAckTimeout\<close>, and the test
  \<open>replyTimeout > 0\<close> that follows then registers a reply handler. On a connected instance
  with the default options, the send transmits the envelope with id \<open>1\<close>, its promise
  stays pending, a reply handler and a timer of 20000 ms are registered, and when that
  timer fires the promise is rejected with \<open>timeout\<close>.
\<close>

theorem send_without_timeout_waits_for_ack:
  "(let (q, s) = sendStreamWebSocketPayload PubsInit_options quiet ping 0 None connected_Pubs
    in sent s = [(0, ping\<lparr>state := ''1''\<rparr>)] \<and>
       send_promises s q = Pending \<and>
       timers s = [(2, Finite 20000, Reply_timeout q)] \<and>
       replyHandlers s ''1'' = Some \<lparr>resolve = q, timeout = 2\<rparr> \<and>
       send_promises (fire PubsInit_options quiet 2 s) q = Rejected (Error ''timeout''))"
  by (simp add: sendStreamWebSocketPayload_def Let_def connected_Pubs_fields setTimeout_def js_incr_def
        String_of.simps digit_def PubsInit_options_def quiet_def fire_def run_task_def reject_send_def
        clearTimeout_def)

subsection \<open>C5: removing a pending reply\<close>

text \<open>
  Claim C5 says that a pending reply leaves the table exactly once, by its acknowledgement
  or by its timeout, and is gone after the timeout has fired. The acknowledgement path
  deletes the entry; the timeout callback only rejects the promise. On a connected
  instance, after a send with a timeout of 1000 ms whose timer fires, the promise is
  rejected with \<open>timeout\<close>, no timer is left, and the entry for id \<open>1\<close> is still in
  \<open>replyHandlers\<close>; the acknowledgement of the same send would have removed it.
\<close>

theorem reply_timeout_leaves_entry:
  "(let (q, s) = sendStreamWebSocketPayload PubsInit_options quiet ping 1000 None connected_Pubs;
        late = fire PubsInit_options quiet 2 s;
        acked = handleStreamWebSocketMessage 0
                  (Some \<lparr>type = ''ack'', state = ''1'', info = None, data = None\<rparr>) s
    in send_promises late q = Rejected (Error ''timeout'') \<and>
       timers late = [] \<and>
       replyHandlers late ''1'' = Some \<lparr>resolve = q, timeout = 2\<rparr> \<and>
       replyHandlers acked ''1'' = None)"
  by (simp add: sendStreamWebSocketPayload_def Let_def connected_Pubs_fields setTimeout_def js_incr_def
        String_of.simps digit_def PubsInit_options_def quiet_def fire_def run_task_def reject_send_def
        clearTimeout_def handleStreamWebSocketMessage_def resolve_send_def)

subsection \<open>C1: a forbidden handshake\<close>

lemma connect_fetched_forbidden:
  assumes "reconnecting s" and "falsy (streamUrl r)" and "error r = Some e"
    and "code e = ''http_error_403''"
  shows "connect_fetched opts b k (Inr r) s =
     connect_reconnector opts b False
       (dispatchErrorEvent e (dispatchStateChangedEvent
          ((dispatchStateChangedEvent (s\<lparr>fetching := (fetching s)(k := False), connecting := False\<rparr>))
             \<lparr>reconnecting := False\<rparr>)))"
  using assms by (simp add: connect_fetched_def Let_def)


text \<open>
  Claim C1 says that a handshake response with error code \<open>http_error_403\<close>, received
  while reconnecting is enabled, dispatches exactly one Error notification and clears
  \<open>reconnecting\<close> for good, so that a later \<open>connect()\<close> does not retry by itself.
  The code clears the flag, but every \<open>connect()\<close> sets it again. As amended: in a state
  the instance reaches from its constructor, with \<open>reconnecting\<close> set, a response of
  call \<open>k\<close> that carries no stream URL and the error code \<open>http_error_403\<close> dispatches
  two state changes and then exactly one Error notification, clears \<open>connecting\<close> and
  \<open>reconnecting\<close>, leaves no retry timer and settles neither the promise of the call
  nor any gate; the flag stays cleared and no retry is scheduled as long as \<open>connect()\<close>
  is not called again; a later \<open>connect()\<close> with reconnecting enabled in the
  configuration sets the flag again.
\<close>

theorem forbidden_handshake_gives_up:
  assumes "s = run opts ins new_Pubs" and "fetching s k" and "reconnecting s"
    and "fetchStreamWebSocketConnect outcome = Inr r"
    and "falsy (streamUrl r)" and "error r = Some e" and "code e = ''http_error_403''"
    and "list_all (\<lambda>bi. \<not> calls_connect bi) later"
  shows
    "(let s1 = step opts (b, Fetched k outcome) s; s2 = run opts later s1
      in dispatched s1 =
           dispatched s @
             [PubsStateChangedEvent False (connected s) True,
              PubsStateChangedEvent False (connected s) False,
              PubsErrorEvent ''http_error_403'' (msg e)] \<and>
         \<not> reconnecting s1 \<and> \<not> connecting s1 \<and> retry_timers s1 = [] \<and>
         connect_promises s1 = connect_promises s \<and> gates s1 = gates s \<and>
         \<not> reconnecting s2 \<and> retry_timers s2 = [] \<and>
         (reconnectEnabled opts \<longrightarrow> reconnecting (snd (connect opts s2))))"
proof -
  let ?s1 = "step opts (b, Fetched k outcome) s"
  have inv: "retry_inv s"
    using assms(1) by (simp add: retry_inv_reachable)
  have s1: "?s1 = connect_reconnector opts b False
       (dispatchErrorEvent e (dispatchStateChangedEvent
          ((dispatchStateChangedEvent (s\<lparr>fetching := (fetching s)(k := False), connecting := False\<rparr>))
             \<lparr>reconnecting := False\<rparr>)))"
    using assms(2,4) connect_fetched_forbidden [OF assms(3,5,6,7)]
    by (simp add: step_def)
  have g: "gave_up ?s1"
    unfolding s1 using inv
    by (simp add: gave_up_def connect_reconnector_def Let_def retry_inv_cleared_frame)
  have inv1: "retry_inv ?s1"
    using inv by (rule retry_inv_step)
  have g2: "gave_up (run opts later ?s1)"
    using inv1 g assms(8) by (rule gave_up_run)
  have d: "dispatched ?s1 =
           dispatched s @
             [PubsStateChangedEvent False (connected s) True,
              PubsStateChangedEvent False (connected s) False,
              PubsErrorEvent ''http_error_403'' (msg e)]"
    unfolding s1 using assms(3,7)
    by (simp add: dispatchErrorEvent_def dispatchStateChangedEvent_def dispatchEvent_def)
  have c: "\<not> connecting ?s1" "connect_promises ?s1 = connect_promises s" "gates ?s1 = gates s"
    unfolding s1 by simp_all
  have again: "reconnecting (snd (connect opts (run opts later ?s1)))" if "reconnectEnabled opts"
    using that by (simp add: connect_def Let_def js_or_def)
  show ?thesis
    unfolding Let_def using g g2 d c again by (simp add: gave_up_def)
qed

text \<open>
  The theorem on a fresh instance whose first handshake is answered with status 403,
  followed by a socket event and a timer number that name nothing live.
\<close>

theorem forbidden_handshake_gives_up_witness:
  "fetching (run PubsInit_options [(quiet, Call_connect)] new_Pubs) 1 \<and>
   reconnecting (run PubsInit_options [(quiet, Call_connect)] new_Pubs) \<and>
   fetchStreamWebSocketConnect handshake_forbidden =
     Inr \<lparr>error = Some \<lparr>code = ''http_error_403'', msg = Some ''Forbidden''\<rparr>, streamUrl = None\<rparr> \<and>
   dispatched forbidden_Pubs =
     [PubsStateChangedEvent True False True, PubsStateChangedEvent False False True,
      PubsStateChangedEvent False False False, PubsErrorEvent ''http_error_403'' (Some ''Forbidden'')] \<and>
   \<not> reconnecting forbidden_Pubs \<and> retry_timers forbidden_Pubs = [] \<and>
   \<not> reconnecting (run PubsInit_options [(quiet, Socket_close 0), (quiet, Timer 1)] forbidden_Pubs) \<and>
   reconnecting (snd (connect PubsInit_options
      (run PubsInit_options [(quiet, Socket_close 0), (quiet, Timer 1)] forbidden_Pubs)))"
proof -
  let ?s = "run PubsInit_options [(quiet, Call_connect)] new_Pubs"
  let ?r = "\<lparr>error = Some \<lparr>code = ''http_error_403'', msg = Some ''Forbidden''\<rparr>, streamUrl = None\<rparr>"
  have h: "fetching ?s 1" "reconnecting ?s" "fetchStreamWebSocketConnect handshake_forbidden = Inr ?r"
    "falsy (streamUrl ?r)" "error ?r = Some \<lparr>code = ''http_error_403'', msg = Some ''Forbidden''\<rparr>"
    "code \<lparr>code = ''http_error_403'', msg = Some ''Forbidden''\<rparr> = ''http_error_403''"
    "list_all (\<lambda>bi. \<not> calls_connect bi) [(quiet, Socket_close 0), (quiet, Timer 1)]"
    "reconnectEnabled PubsInit_options"
    by (simp_all add: scenario_defs calls_connect_def)
  have f: "step PubsInit_options (quiet, Fetched 1 handshake_forbidden) ?s = forbidden_Pubs"
    by (simp add: forbidden_Pubs_def)
  have c: "connected ?s = False" "dispatched ?s = [PubsStateChangedEvent True False True]"
    by (simp_all add: scenario_defs)
  from forbidden_handshake_gives_up [OF refl h(1-7), of quiet, unfolded Let_def f] h(1,2,3,8) c
  show ?thesis by simp
qed

text \<open>
  The claim as stated fails: after the forbidden handshake a second \<open>connect()\<close> sets
  \<open>reconnecting\<close> again although nothing re-enabled it, and when its handshake fails in
  transit a retry timer of 1000 ms is scheduled.
\<close>

theorem forbidden_then_connect_counterexample:
  "\<not> reconnecting forbidden_Pubs \<and>
   reconnecting (run PubsInit_options [(quiet, Call_connect)] forbidden_Pubs) \<and>
   timers (run PubsInit_options [(quiet, Call_connect), (quiet, Fetched 2 handshake_failed)]
             forbidden_Pubs) = [(1, Finite 1000, Reconnect)]"
  by (simp add: forbidden_Pubs_fields)
     (simp add: forbidden_Pubs_fields step_def connect_def Let_def js_or_def clearTimeout_def
        connect_fetched_def fetchStreamWebSocketConnect_def handshake_failed_def falsy_def
        connect_reconnector_def setTimeout_def reconnectTimeout_def PubsInit_options_def quiet_def
        Math_trunc_def Math_floor_def trunc_def exact_pow_def)

subsection \<open>C6: the delay of a retry\<close>

lemma timers_connect_reconnector:
  "reconnecting s \<Longrightarrow>
   timers (connect_reconnector opts b fast s) =
     filter (\<lambda>e. fst e \<noteq> reconnector s) (timers s) @
       [(next_timer s, reconnectTimeout opts b (reconnectAttempts s) fast, Reconnect)]"
  by (simp add: connect_reconnector_def Let_def setTimeout_def clearTimeout_def)

lemma reconnectTimeout_slow:
  "reconnectTimeout opts b n False =
     js_add
       (let t = js_mul (reconnectInterval opts) (Math_trunc (Math_pow b (reconnectFactor opts) n))
        in if js_gt t (maxReconnectInterval opts) then maxReconnectInterval opts else t)
       (Math_floor (js_mul (Finite (Math_random b)) (reconnectSpreader opts)))"
  by (simp add: reconnectTimeout_def Let_def)

lemma reconnectTimeout_integers:
  assumes "reconnectInterval opts = Finite (of_int i)"
    and "Math_pow b (reconnectFactor opts) n = Finite p"
    and "maxReconnectInterval opts = Finite (of_int m)"
    and "Math_floor (js_mul (Finite (Math_random b)) (reconnectSpreader opts)) = Finite (of_int j)"
    and "\<bar>i * trunc p\<bar> \<le> 2 ^ 52" and "\<bar>m\<bar> \<le> 2 ^ 52" and "0 \<le> j" and "j \<le> 2 ^ 52"
  shows "reconnectTimeout opts b n False = Finite (of_int (min (i * trunc p) m + j))"
proof -
  let ?c = "i * trunc p"
  from assms(5) have "\<bar>?c\<bar> \<le> 2 ^ 53" by simp
  then have t: "js_mul (Finite (of_int i)) (Finite (of_int (trunc p))) = Finite (of_int ?c)"
    by (rule round_double_int_product)
  have g: "js_gt (Finite (of_int ?c)) (Finite (of_int m)) = (m < ?c)"
    by (simp only: js_gt_Finite of_int_less_iff)
  have c: "(if m < ?c then Finite (of_int m) else Finite (of_int ?c)) =
      Finite (real_of_int (min ?c m))"
    by (simp add: min_def)
  from assms(5-8) have "\<bar>min ?c m + j\<bar> \<le> 2 ^ 53"
    by (simp add: min_def abs_if split: if_splits)
  then have s: "js_add (Finite (of_int (min ?c m))) (Finite (of_int j)) =
      Finite (of_int (min ?c m + j))"
    by (rule round_double_int_sum)
  show ?thesis
    by (simp only: reconnectTimeout_slow assms(1-4) Math_trunc_Finite t g c s Let_def)
qed

lemma reconnectTimeout_capped:
  assumes "js_gt (js_mul (reconnectInterval opts) (Math_trunc (Math_pow b (reconnectFactor opts) n)))
             (maxReconnectInterval opts)"
    and "maxReconnectInterval opts = Finite (of_int m)"
    and "Math_floor (js_mul (Finite (Math_random b)) (reconnectSpreader opts)) = Finite (of_int j)"
    and "\<bar>m + j\<bar> \<le> 2 ^ 53"
  shows "reconnectTimeout opts b n False = Finite (of_int (m + j))"
proof -
  have "reconnectTimeout opts b n False = js_add (Finite (of_int m)) (Finite (of_int j))"
    using assms(1) by (simp add: reconnectTimeout_slow Let_def assms(2,3))
  also have "\<dots> = Finite (of_int (m + j))"
    using assms(4) by (rule round_double_int_sum)
  finally show ?thesis .
qed

lemma thousand_times_power:
  assumes "5 \<le> n"
  shows "js_gt (js_mul (Finite 1000) (Math_trunc (exact_pow (Finite 2) n))) (Finite 30000)"
proof -
  have "(2 :: real) ^ 5 \<le> 2 ^ n"
    using assms by (intro power_increasing) simp_all
  then have big: "(30000 :: real) < 1000 * 2 ^ n" by simp
  show ?thesis
  proof (cases "2 powi 1024 \<le> (2 ^ n :: real)")
    case True
    then have "exact_pow (Finite 2) n = Infinity" by (simp only: exact_pow_two if_True)
    then show ?thesis by (simp add: Math_trunc_def js_mul_def signum_def js_gt_def)
  next
    case False
    then have e: "exact_pow (Finite 2) n = Finite (2 ^ n)"
      by (simp only: exact_pow_two if_False)
    have r: "round_double (of_int 1000 * 2 ^ n) =
      (if 2 powi 1024 \<le> (of_int 1000 * 2 ^ n :: real) then Infinity
       else if (of_int 1000 * 2 ^ n :: real) \<le> - (2 powi 1024) then MinusInfinity
       else Finite (of_int 1000 * 2 ^ n))"
      by (rule round_double_scaled) simp
    have pos: "\<not> (of_int 1000 * 2 ^ n :: real) \<le> - (2 powi 1024)"
    proof -
      have "(0 :: real) < of_int 1000 * 2 ^ n" by simp
      moreover have "(0 :: real) < 2 powi 1024" by (rule zero_less_power_int) simp
      ultimately show ?thesis by linarith
    qed
    have m: "js_mul (Finite 1000) (Math_trunc (exact_pow (Finite 2) n)) =
        round_double (of_int 1000 * 2 ^ n)"
      by (simp add: e)
    show ?thesis
    proof (cases "2 powi 1024 \<le> (of_int 1000 * 2 ^ n :: real)")
      case True
      with r have "round_double (of_int 1000 * 2 ^ n) = Infinity" by (simp only: if_True)
      then show ?thesis by (simp only: m js_gt_Infinity)
    next
      case False
      with r pos have "round_double (of_int 1000 * 2 ^ n) = Finite (of_int 1000 * 2 ^ n)"
        by (simp only: if_False)
      then show ?thesis using big by (simp only: m js_gt_Finite of_int_numeral)
    qed
  qed
qed

lemma reconnectTimeout_two:
  assumes "reconnectInterval opts = Finite 1000" and "reconnectFactor opts = Finite 2"
    and "maxReconnectInterval opts = Finite 30000"
    and "Math_pow b (Finite 2) n = exact_pow (Finite 2) n"
    and "Math_floor (js_mul (Finite (Math_random b)) (reconnectSpreader opts)) = Finite (of_int j)"
    and "0 \<le> j" and "j < 500"
  shows "reconnectTimeout opts b n False = Finite (of_int (min (1000 * 2 ^ n) 30000 + j))"
proof (cases "5 \<le> n")
  case True
  then have "(2 :: int) ^ 5 \<le> 2 ^ n"
    by (intro power_increasing) simp_all
  then have mn: "min (1000 * 2 ^ n) 30000 = (30000 :: int)" by simp
  have "reconnectTimeout opts b n False = Finite (of_int (30000 + j))"
  proof (rule reconnectTimeout_capped)
    show "js_gt (js_mul (reconnectInterval opts) (Math_trunc (Math_pow b (reconnectFactor opts) n)))
             (maxReconnectInterval opts)"
      using thousand_times_power [OF True] by (simp only: assms(1-4))
    show "maxReconnectInterval opts = Finite (of_int 30000)" by (simp add: assms(3))
    show "Math_floor (js_mul (Finite (Math_random b)) (reconnectSpreader opts)) = Finite (of_int j)"
      by (rule assms(5))
    show "\<bar>30000 + j\<bar> \<le> 2 ^ 53" using assms(6,7) by simp
  qed
  then show ?thesis by (simp only: mn)
next
  case False
  then have n: "n < 5" by simp
  then have "(2 :: real) ^ n < 2 ^ 5"
    by (intro power_strict_increasing) simp_all
  then have small: "\<not> 2 powi 1024 \<le> (2 ^ n :: real)" by simp
  have p: "Math_pow b (reconnectFactor opts) n = Finite (2 ^ n)"
    using small by (simp only: assms(2,4) exact_pow_two if_False)
  from n have "(2 :: int) ^ n < 2 ^ 5"
    by (intro power_strict_increasing) simp_all
  then have b: "\<bar>1000 * trunc (2 ^ n)\<bar> \<le> 2 ^ 52" by simp
  have "reconnectTimeout opts b n False =
      Finite (of_int (min (1000 * trunc (2 ^ n)) 30000 + j))"
  proof (rule reconnectTimeout_integers)
    show "reconnectInterval opts = Finite (of_int 1000)" by (simp add: assms(1))
    show "Math_pow b (reconnectFactor opts) n = Finite (2 ^ n)" by (rule p)
    show "maxReconnectInterval opts = Finite (of_int 30000)" by (simp add: assms(3))
    show "Math_floor (js_mul (Finite (Math_random b)) (reconnectSpreader opts)) = Finite (of_int j)"
      by (rule assms(5))
    show "\<bar>1000 * trunc (2 ^ n)\<bar> \<le> 2 ^ 52" by (rule b)
    show "\<bar>30000 :: int\<bar> \<le> 2 ^ 52" by simp
    show "0 \<le> j" by (rule assms(6))
    show "j \<le> 2 ^ 52" using assms(7) by simp
  qed
  then show ?thesis by (simp only: trunc_two_power)
qed

text \<open>
  The rounding shows at the default options: for \<open>Math.random()\<close> the double nearest to
  \<open>0.24\<close>, which is below \<open>0.24\<close>, the product with 500 is below 120 and rounds to the
  double 120, so the jitter is 120 and not 119.
\<close>

lemma jitter_rounds_up:
  "is_double (8646911284551352 / 2 ^ 55) \<and>
   \<lfloor>8646911284551352 / 2 ^ 55 * 500 :: real\<rfloor> = 119 \<and>
   reconnectTimeout PubsInit_options (quiet\<lparr>Math_random := 8646911284551352 / 2 ^ 55\<rparr>) 0 False =
     Finite 1120"
  by (simp add: is_double_def reconnectTimeout_def Let_def PubsInit_options_def quiet_def
        exact_pow_def Math_trunc_def trunc_def Math_floor_def round_double_def nearest_def
        quantum_def exponent_def eval_nat_numeral round_half_even_def)

text \<open>
  Claim C6 says that the delay of a non-fast retry is the base interval times
  \<open>factor^n\<close>, capped at the maximum, plus a jitter in \<open>[0, spreader)\<close>. The code
  multiplies the base interval by \<open>Math.trunc(Math.pow(factor, n))\<close>, the power truncated
  to an integer first, and computes in doubles. As amended, for a value of
  \<open>Math.random()\<close> that is a double in \<open>[0, 1)\<close> and a spreader that is a positive
  double, there is an integer \<open>j\<close> with \<open>0 \<le> j < spreader\<close>, the jitter
  \<open>floor (random * spreader)\<close> computed in doubles, such that
  \<^item> for every attempt count, the delay is the double sum of the capped double product of
    the base interval and the truncated power, and \<open>j\<close>;
  \<^item> where the base interval, the maximum and thus the product with the truncated power
    are integers of magnitude at most \<open>2^52\<close>, and the spreader is at most \<open>2^52\<close>,
    nothing is rounded: the delay is \<open>min (base * trunc power) max + j\<close>;
  \<^item> with factor 2, base 1000, maximum 30000, spreader 500 and a correctly rounded
    \<open>Math.pow\<close>, the delay is \<open>min (1000 * 2^n) 30000 + j\<close> for every \<open>n\<close>: in
    \<open>[8000, 8500)\<close> for three attempts and in \<open>[30000, 30500)\<close> once \<open>1000 * 2^n\<close>
    exceeds 30000, also when the power or the product overflows to infinity;
  \<^item> this delay is the one the reconnector gives its timer.
\<close>

theorem reconnect_delay:
  assumes "is_double (Math_random b)" and "0 \<le> Math_random b" and "Math_random b < 1"
    and "reconnectSpreader opts = Finite sp" and "is_double sp" and "0 < sp"
  shows
    "\<exists>j. 0 \<le> j \<and> of_int j < sp \<and>
       Math_floor (js_mul (Finite (Math_random b)) (Finite sp)) = Finite (of_int j) \<and>
       (\<forall>n. reconnectTimeout opts b n False =
              js_add
                (let t = js_mul (reconnectInterval opts)
                           (Math_trunc (Math_pow b (reconnectFactor opts) n))
                 in if js_gt t (maxReconnectInterval opts) then maxReconnectInterval opts else t)
                (Finite (of_int j))) \<and>
       (\<forall>n i p m.
          reconnectInterval opts = Finite (of_int i) \<and>
          Math_pow b (reconnectFactor opts) n = Finite p \<and>
          maxReconnectInterval opts = Finite (of_int m) \<and>
          \<bar>i * trunc p\<bar> \<le> 2 ^ 52 \<and> \<bar>m\<bar> \<le> 2 ^ 52 \<and> sp \<le> 2 ^ 52 \<longrightarrow>
          reconnectTimeout opts b n False = Finite (of_int (min (i * trunc p) m + j))) \<and>
       (reconnectInterval opts = Finite 1000 \<and> reconnectFactor opts = Finite 2 \<and>
        maxReconnectInterval opts = Finite 30000 \<and> sp = 500 \<and>
        (\<forall>n. Math_pow b (Finite 2) n = exact_pow (Finite 2) n) \<longrightarrow>
          (\<forall>n. reconnectTimeout opts b n False = Finite (of_int (min (1000 * 2 ^ n) 30000 + j))) \<and>
          reconnectTimeout opts b 3 False = Finite (of_int (8000 + j)) \<and>
          8000 \<le> 8000 + j \<and> 8000 + j < 8500 \<and>
          (\<forall>n. 30000 < 1000 * (2 :: int) ^ n \<longrightarrow>
                reconnectTimeout opts b n False = Finite (of_int (30000 + j))) \<and>
          30000 \<le> 30000 + j \<and> 30000 + j < 30500) \<and>
       (\<forall>s. reconnecting s \<longrightarrow>
          timers (connect_reconnector opts b False s) =
            filter (\<lambda>e. fst e \<noteq> reconnector s) (timers s) @
              [(next_timer s, reconnectTimeout opts b (reconnectAttempts s) False, Reconnect)])"
proof -
  from assms(5) have "sp < 2 powi 1024" by (rule is_double_finite)
  from jitter_range [OF assms(1-3) assms(6) this]
  obtain j where j: "Math_floor (js_mul (Finite (Math_random b)) (Finite sp)) = Finite (of_int j)"
    "0 \<le> j" "of_int j < sp"
    by blast
  have jit: "Math_floor (js_mul (Finite (Math_random b)) (reconnectSpreader opts)) =
      Finite (of_int j)"
    by (simp only: assms(4) j(1))
  have general: "reconnectTimeout opts b n False =
      js_add
        (let t = js_mul (reconnectInterval opts) (Math_trunc (Math_pow b (reconnectFactor opts) n))
         in if js_gt t (maxReconnectInterval opts) then maxReconnectInterval opts else t)
        (Finite (of_int j))" for n
    by (simp only: reconnectTimeout_slow jit)
  have exact: "reconnectTimeout opts b n False = Finite (of_int (min (i * trunc p) m + j))"
    if h: "reconnectInterval opts = Finite (of_int i) \<and>
        Math_pow b (reconnectFactor opts) n = Finite p \<and>
        maxReconnectInterval opts = Finite (of_int m) \<and>
        \<bar>i * trunc p\<bar> \<le> 2 ^ 52 \<and> \<bar>m\<bar> \<le> 2 ^ 52 \<and> sp \<le> 2 ^ 52" for n i p m
  proof -
    from h j(3) have "real_of_int j < of_int (2 ^ 52)" by simp
    then have "j < 2 ^ 52" by (simp only: of_int_less_iff)
    then have "j \<le> 2 ^ 52" by simp
    with h jit j(2) show ?thesis by (intro reconnectTimeout_integers) simp_all
  qed
  have two: "(\<forall>n. reconnectTimeout opts b n False = Finite (of_int (min (1000 * 2 ^ n) 30000 + j))) \<and>
      reconnectTimeout opts b 3 False = Finite (of_int (8000 + j)) \<and>
      8000 \<le> 8000 + j \<and> 8000 + j < 8500 \<and>
      (\<forall>n. 30000 < 1000 * (2 :: int) ^ n \<longrightarrow>
            reconnectTimeout opts b n False = Finite (of_int (30000 + j))) \<and>
      30000 \<le> 30000 + j \<and> 30000 + j < 30500"
    if h: "reconnectInterval opts = Finite 1000 \<and> reconnectFactor opts = Finite 2 \<and>
        maxReconnectInterval opts = Finite 30000 \<and> sp = 500 \<and>
        (\<forall>n. Math_pow b (Finite 2) n = exact_pow (Finite 2) n)"
  proof -
    from h j(3) have "real_of_int j < of_int 500" by simp
    then have j5: "j < 500" by (simp only: of_int_less_iff)
    have all: "reconnectTimeout opts b n False = Finite (of_int (min (1000 * 2 ^ n) 30000 + j))"
      for n
      using h jit j(2) j5 by (intro reconnectTimeout_two) simp_all
    have three: "reconnectTimeout opts b 3 False = Finite (of_int (8000 + j))"
      using all [of 3] by simp
    have big: "reconnectTimeout opts b n False = Finite (of_int (30000 + j))"
      if "30000 < 1000 * (2 :: int) ^ n" for n
      using all [of n] that by (simp add: min_def)
    from all three big j(2) j5 show ?thesis by simp
  qed
  have sched: "timers (connect_reconnector opts b False s) =
      filter (\<lambda>e. fst e \<noteq> reconnector s) (timers s) @
        [(next_timer s, reconnectTimeout opts b (reconnectAttempts s) False, Reconnect)]"
    if "reconnecting s" for s
    using that by (rule timers_connect_reconnector)
  from j general exact two sched show ?thesis by blast
qed

text \<open>
  The theorem at \<open>Math.random() = 1/2\<close>, factor 2 and the default options otherwise:
  three attempts give 8250 ms, five give 30250 ms, and so do 2000 attempts, where the
  power is infinite; the retry scheduled after one failed handshake waits 2250 ms.
\<close>

lemma is_double_half: "is_double (1 / 2)"
  by (simp add: is_double_def round_double_def nearest_def quantum_def exponent_def
        eval_nat_numeral round_half_even_def Let_def)

lemma is_double_500: "is_double 500"
  by (simp add: is_double_def)

theorem reconnect_delay_witness:
  "is_double (Math_random (quiet\<lparr>Math_random := 1 / 2\<rparr>)) \<and>
   0 \<le> Math_random (quiet\<lparr>Math_random := 1 / 2\<rparr>) \<and>
   Math_random (quiet\<lparr>Math_random := 1 / 2\<rparr>) < 1 \<and>
   reconnectSpreader (PubsInit_options\<lparr>reconnectFactor := Finite 2\<rparr>) = Finite 500 \<and>
   is_double 500 \<and>
   reconnectTimeout (PubsInit_options\<lparr>reconnectFactor := Finite 2\<rparr>)
     (quiet\<lparr>Math_random := 1 / 2\<rparr>) 3 False = Finite 8250 \<and>
   reconnectTimeout (PubsInit_options\<lparr>reconnectFactor := Finite 2\<rparr>)
     (quiet\<lparr>Math_random := 1 / 2\<rparr>) 5 False = Finite 30250 \<and>
   reconnectTimeout (PubsInit_options\<lparr>reconnectFactor := Finite 2\<rparr>)
     (quiet\<lparr>Math_random := 1 / 2\<rparr>) 2000 False = Finite 30250 \<and>
   timers (connect_reconnector (PubsInit_options\<lparr>reconnectFactor := Finite 2\<rparr>)
             (quiet\<lparr>Math_random := 1 / 2\<rparr>) False retrying_Pubs) =
     [(2, Finite 2250, Reconnect)]"
proof -
  let ?b = "quiet\<lparr>Math_random := 1 / 2\<rparr>"
  let ?o = "PubsInit_options\<lparr>reconnectFactor := Finite 2\<rparr>"
  have r: "is_double (Math_random ?b)" "0 \<le> Math_random ?b" "Math_random ?b < 1"
    by (simp_all add: is_double_half)
  have o: "reconnectSpreader ?o = Finite 500" "reconnectInterval ?o = Finite 1000"
    "reconnectFactor ?o = Finite 2" "maxReconnectInterval ?o = Finite 30000"
    by (simp_all add: PubsInit_options_def)
  have e: "\<forall>n. Math_pow ?b (Finite 2) n = exact_pow (Finite 2) n"
    by (simp add: quiet_def)
  have f: "Math_floor (js_mul (Finite (Math_random ?b)) (Finite 500)) = Finite (of_int 250)"
    by (simp add: Math_floor_def)
  have s: "reconnecting retrying_Pubs" "timers retrying_Pubs = [(1, Finite 1000, Reconnect)]"
    "reconnector retrying_Pubs = 1" "next_timer retrying_Pubs = 2"
    "reconnectAttempts retrying_Pubs = 1"
    by (simp_all add: retrying_Pubs_def scenario_defs)
  have pos: "(0 :: real) < 500" by simp
  from reconnect_delay [of ?b ?o 500, OF r o(1) is_double_500 pos]
  obtain j where j: "Math_floor (js_mul (Finite (Math_random ?b)) (Finite 500)) = Finite (of_int j)"
    and two: "reconnectInterval ?o = Finite 1000 \<and> reconnectFactor ?o = Finite 2 \<and>
        maxReconnectInterval ?o = Finite 30000 \<and> (500 :: real) = 500 \<and>
        (\<forall>n. Math_pow ?b (Finite 2) n = exact_pow (Finite 2) n) \<longrightarrow>
          (\<forall>n. reconnectTimeout ?o ?b n False = Finite (of_int (min (1000 * 2 ^ n) 30000 + j))) \<and>
          reconnectTimeout ?o ?b 3 False = Finite (of_int (8000 + j)) \<and>
          8000 \<le> 8000 + j \<and> 8000 + j < 8500 \<and>
          (\<forall>n. 30000 < 1000 * (2 :: int) ^ n \<longrightarrow>
                reconnectTimeout ?o ?b n False = Finite (of_int (30000 + j))) \<and>
          30000 \<le> 30000 + j \<and> 30000 + j < 30500"
    and sched: "\<forall>s. reconnecting s \<longrightarrow>
          timers (connect_reconnector ?o ?b False s) =
            filter (\<lambda>e. fst e \<noteq> reconnector s) (timers s) @
              [(next_timer s, reconnectTimeout ?o ?b (reconnectAttempts s) False, Reconnect)]"
    by blast
  from j f have "real_of_int j = of_int 250" by (simp only: number.inject)
  then have j250: "j = 250" by (simp only: of_int_eq_iff)
  from two o e have all: "\<forall>n. reconnectTimeout ?o ?b n False =
      Finite (of_int (min (1000 * 2 ^ n) 30000 + j))"
    by blast
  have 1: "reconnectTimeout ?o ?b 3 False = Finite 8250"
    using all [rule_format, of 3] by (simp add: j250)
  have 2: "reconnectTimeout ?o ?b 5 False = Finite 30250"
    using all [rule_format, of 5] by (simp add: j250)
  have "(2 :: int) ^ 5 \<le> 2 ^ 2000" by (rule power_increasing) simp_all
  then have "min (1000 * (2 :: int) ^ 2000) 30000 = 30000" by (simp only: min_def) simp
  then have 3: "reconnectTimeout ?o ?b 2000 False = Finite 30250"
    using all [rule_format, of 2000] by (simp only: j250) simp
  have 4: "timers (connect_reconnector ?o ?b False retrying_Pubs) = [(2, Finite 2250, Reconnect)]"
    using sched [rule_format, OF s(1)] all [rule_format, of 1] by (simp add: s j250)
  from r o(1) is_double_500 1 2 3 4 show ?thesis by blast
qed

text \<open>
  The claim as stated fails for the default factor \<open>3/2\<close>: after one attempt it promises
  at least 1500 ms, and the code waits 1250 ms when \<open>Math.random()\<close> returns \<open>1/2\<close>.
  It also fails without a fractional factor, because the product is rounded: with base 3,
  factor 3, a maximum of \<open>2^60\<close> and 33 attempts the product \<open>3 * 3^33\<close> is odd and
  above \<open>2^53\<close>, and the delay is the even double below it.
\<close>

theorem reconnect_delay_counterexample:
  "reconnectTimeout PubsInit_options (quiet\<lparr>Math_random := 1 / 2\<rparr>) 1 False = Finite 1250 \<and>
   (1250 :: real) < min (1000 * (3 / 2) ^ 1) 30000 \<and>
   reconnectTimeout
     (PubsInit_options\<lparr>reconnectInterval := Finite 3, reconnectFactor := Finite 3,
        maxReconnectInterval := Finite (2 ^ 60)\<rparr>) quiet 33 False = Finite 16677181699666568 \<and>
   (16677181699666568 :: real) < min (3 * 3 ^ 33) (2 ^ 60)"
  by (simp add: reconnectTimeout_def Let_def PubsInit_options_def quiet_def exact_pow_def
        Math_trunc_def trunc_def Math_floor_def round_double_def nearest_def quantum_def
        exponent_def eval_nat_numeral round_half_even_def)

subsection \<open>C7: when the reconnecting flag is checked\<close>

lemma retry_timers_connect_reconnector:
  "retry_inv s \<Longrightarrow> reconnecting s \<Longrightarrow>
   retry_timers (connect_reconnector opts b fast s) =
     [(next_timer s, reconnectTimeout opts b (reconnectAttempts s) fast, Reconnect)]"
  using retry_inv_cleared [of s]
  by (simp add: connect_reconnector_def Let_def setTimeout_def retry_timers_def clearTimeout_def)

lemma fire_Reconnect:
  "find (\<lambda>e. fst e = i) (timers s) = Some (j, d, Reconnect) \<Longrightarrow>
   fire opts b i s = snd (connect opts (clearTimeout i s))"
  by (simp add: fire_def run_task_def)


text \<open>
  Claim C7 says that the flag \<open>reconnecting\<close> is checked when the retry timer fires,
  not when the retry is scheduled, so that a retry whose flag was cleared in between does
  nothing; and that at most one retry timer is live. The code checks the flag in the
  reconnector, before \<open>setTimeout\<close>; the timer's callback is \<open>this.connect()\<close> and
  checks nothing. As amended: a reconnector call made while the flag is cleared only
  cancels the pending retry timer and schedules nothing; a live retry timer that fires runs
  \<open>connect()\<close> whatever the flag holds, which sets \<open>connecting\<close> and starts a
  handshake; in every state the instance reaches from its constructor at most one retry
  timer is live, none is live while the flag is cleared, and a reconnector call made while
  the flag is set leaves exactly the timer it schedules.
\<close>

theorem retry_checked_when_scheduled:
  "(\<not> reconnecting s \<longrightarrow> connect_reconnector opts b fast s = clearTimeout (reconnector s) s) \<and>
   (find (\<lambda>e. fst e = i) (timers s) = Some (j, d, Reconnect) \<longrightarrow>
      fire opts b i s = snd (connect opts (clearTimeout i s)) \<and>
      connecting (fire opts b i s) \<and> fetching (fire opts b i s) (next_call s)) \<and>
   (let r = run opts ins new_Pubs
    in length (retry_timers r) \<le> 1 \<and>
       (\<not> reconnecting r \<longrightarrow> retry_timers r = []) \<and>
       (reconnecting r \<longrightarrow>
          retry_timers (connect_reconnector opts b fast r) =
            [(next_timer r, reconnectTimeout opts b (reconnectAttempts r) fast,
              Reconnect)]))"
proof -
  have a: "connect_reconnector opts b fast s = clearTimeout (reconnector s) s" if "\<not> reconnecting s"
    using that by (simp add: connect_reconnector_def Let_def)
  have f: "fire opts b i s = snd (connect opts (clearTimeout i s)) \<and>
      connecting (fire opts b i s) \<and> fetching (fire opts b i s) (next_call s)"
    if "find (\<lambda>e. fst e = i) (timers s) = Some (j, d, Reconnect)"
    using fire_Reconnect [OF that] by (simp add: connect_def Let_def)
  let ?r = "run opts ins new_Pubs"
  have inv: "retry_inv ?r" "off_inv ?r"
    by (rule retry_inv_reachable, rule off_inv_reachable)
  have one: "length (retry_timers ?r) \<le> 1"
    using inv(1) by (rule retry_inv_at_most_one)
  have off: "retry_timers ?r = []" if "\<not> reconnecting ?r"
    using inv(2) that by (simp add: off_inv_def)
  have new: "retry_timers (connect_reconnector opts b fast ?r) =
            [(next_timer ?r, reconnectTimeout opts b (reconnectAttempts ?r) fast,
              Reconnect)]" if "reconnecting ?r"
    using inv(1) that by (rule retry_timers_connect_reconnector)
  show ?thesis unfolding Let_def using a f one off new by blast
qed

text \<open>
  The theorem on the scenarios: the reconnector on the instance that gave up, the retry
  timer of the instance that is retrying, and a second reconnector call on it.
\<close>

theorem retry_checked_when_scheduled_witness:
  "connect_reconnector PubsInit_options quiet False forbidden_Pubs =
     clearTimeout (reconnector forbidden_Pubs) forbidden_Pubs \<and>
   find (\<lambda>e. fst e = 1) (timers retrying_Pubs) = Some (1, Finite 1000, Reconnect) \<and>
   fire PubsInit_options quiet 1 retrying_Pubs =
     snd (connect PubsInit_options (clearTimeout 1 retrying_Pubs)) \<and>
   reconnecting retrying_Pubs \<and>
   retry_timers (connect_reconnector PubsInit_options quiet False retrying_Pubs) =
     [(2, Finite 1000, Reconnect)]"
proof -
  have off: "\<not> reconnecting forbidden_Pubs" and on: "reconnecting retrying_Pubs"
    and live: "find (\<lambda>e. fst e = 1) (timers retrying_Pubs) = Some (1, Finite 1000, Reconnect)"
    by (simp_all add: forbidden_Pubs_fields retrying_Pubs_fields)
  have r: "run PubsInit_options [(quiet, Call_connect), (quiet, Fetched 1 handshake_failed)] new_Pubs =
      retrying_Pubs"
    by (simp add: retrying_Pubs_def)
  have d: "reconnectTimeout PubsInit_options quiet (reconnectAttempts retrying_Pubs) False = Finite 1000"
    by (simp add: retrying_Pubs_def scenario_defs)
  have n: "next_timer retrying_Pubs = 2"
    by (simp add: retrying_Pubs_def scenario_defs)
  from off retry_checked_when_scheduled [where s = forbidden_Pubs and opts = PubsInit_options
      and b = quiet and fast = False]
  have 1: "connect_reconnector PubsInit_options quiet False forbidden_Pubs =
     clearTimeout (reconnector forbidden_Pubs) forbidden_Pubs"
    by blast
  note w = retry_checked_when_scheduled [where s = retrying_Pubs and opts = PubsInit_options
      and b = quiet and fast = False and i = 1 and j = 1 and d = "Finite 1000"
      and ins = "[(quiet, Call_connect), (quiet, Fetched 1 handshake_failed)]", unfolded r Let_def]
  from live w have 2: "fire PubsInit_options quiet 1 retrying_Pubs =
     snd (connect PubsInit_options (clearTimeout 1 retrying_Pubs))"
    by blast
  from on w have 3: "retry_timers (connect_reconnector PubsInit_options quiet False retrying_Pubs) =
     [(2, Finite 1000, Reconnect)]"
    by (simp add: d n)
  from 1 live 2 on 3 show ?thesis by simp
qed

text \<open>
  The claim as stated fails when the flag is cleared while a retry is pending, which only
  the application can do by writing the public field \<open>reconnecting\<close> (the code clears
  the flag in one place and cancels the timer there). The retry timer of the retrying
  instance then still fires \<open>connect()\<close>: \<open>connecting\<close> and \<open>reconnecting\<close> are set
  and handshake 2 is under way.
\<close>

theorem retry_fires_with_flag_cleared:
  "timers (retrying_Pubs\<lparr>reconnecting := False\<rparr>) = [(1, Finite 1000, Reconnect)] \<and>
   \<not> reconnecting (retrying_Pubs\<lparr>reconnecting := False\<rparr>) \<and>
   connecting (fire PubsInit_options quiet 1 (retrying_Pubs\<lparr>reconnecting := False\<rparr>)) \<and>
   reconnecting (fire PubsInit_options quiet 1 (retrying_Pubs\<lparr>reconnecting := False\<rparr>)) \<and>
   fetching (fire PubsInit_options quiet 1 (retrying_Pubs\<lparr>reconnecting := False\<rparr>)) 2"
  by (simp add: retrying_Pubs_fields fire_def run_task_def connect_def Let_def js_or_def)

subsection \<open>C3: callbacks of a socket that is not the current one\<close>









text \<open>
  The error callback of a socket that is not the current one is not part of the theorem
  above unless the connect timeout has fired: \<open>onerror\<close> hands \<open>reject(event)\<close> to
  \<open>setTimeout\<close> before it compares the event's target with the current socket, where
  \<open>onopen\<close> settles the promise only after that comparison. When that timer fires, the
  handlers of \<open>connect\<close> run: here socket \<open>1\<close> is current and still connecting, the
  error event of the replaced socket \<open>0\<close> sets timer \<open>3\<close>, and firing it schedules a retry.
\<close>

lemma stale_error_deferred_rejection:
  "socket replaced_Pubs = Some 1 \<and>
   timers (onerror 0 replaced_Pubs) =
     [(2, Finite 5000, Connect_timeout 1), (3, Finite 0, Reject_attempt 0)] \<and>
   timers (run PubsInit_options [(quiet, Socket_error 0), (quiet, Timer 3)] replaced_Pubs) =
     [(2, Finite 5000, Connect_timeout 1), (4, Finite 1000, Reconnect)] \<and>
   socket (run PubsInit_options [(quiet, Socket_error 0), (quiet, Timer 3)] replaced_Pubs) = Some 1"
  by (simp add: replaced_Pubs_def scenario_defs closeStreamWebsocket_def onerror_def fire_def
        run_task_def reject_attempt_def)

subsection \<open>C9: subscribing before the first connect\<close>

lemma never_connected_new_Pubs: "never_connected new_Pubs"
  by (simp add: never_connected_def new_Pubs_def empty_gate_def no_attempt_def)

lemma pubsub_no_gate:
  "g_promise (gates s (gate s)) = None \<Longrightarrow>
   pubsub opts b ty tps s =
     (next_sub s,
      s\<lparr>sub_promises := (sub_promises s)(next_sub s := Rejected (Error ''no gate - connected not called?'')),
        next_sub := Suc (next_sub s)\<rparr>)"
  by (simp add: pubsub_def Let_def reject_sub_def)

lemma send_no_socket:
  "socket s = None \<Longrightarrow>
   snd (sendStreamWebSocketPayload opts b payload rt k s) =
     s\<lparr>send_promises := (send_promises s)(next_send s := Rejected (Error ''no_connection'')),
       send_thens := (send_thens s)(next_send s := k), next_send := Suc (next_send s)\<rparr>"
  by (simp add: sendStreamWebSocketPayload_def Let_def reject_send_def)

lemma never_connected_step:
  "never_connected s \<Longrightarrow> \<not> calls_connect bi \<Longrightarrow> never_connected (step opts bi s)"
  by (cases "snd bi")
     (simp_all add: step_def Let_def sub_def unsub_def calls_connect_def pubsub_no_gate send_no_socket
        fire_def never_connected_def)

lemma never_connected_run:
  "never_connected s \<Longrightarrow> list_all (\<lambda>bi. \<not> calls_connect bi) ins \<Longrightarrow>
   never_connected (run opts ins s)"
  by (induction ins arbitrary: s) (simp_all add: never_connected_step)

text \<open>
  Claim C9: \<open>sub(topics)\<close> or \<open>unsub(topics)\<close> called before any \<open>connect()\<close> has
  run rejects at once with the no-gate condition and transmits nothing. Here: after any
  inputs that contain no call of \<open>connect\<close>, starting from the constructor's state, the
  promise returned by \<open>sub\<close>, and likewise by \<open>unsub\<close>, is rejected with the error
  \<open>no gate - connected not called?\<close>, and nothing has been sent on any socket.
\<close>

theorem sub_before_connect:
  assumes "list_all (\<lambda>bi. \<not> calls_connect bi) ins" and "s = run opts ins new_Pubs"
  shows
    "sub_promises (snd (sub opts b tps s)) (fst (sub opts b tps s)) =
       Rejected (Error ''no gate - connected not called?'') \<and>
     sent (snd (sub opts b tps s)) = [] \<and>
     sub_promises (snd (unsub opts b tps s)) (fst (unsub opts b tps s)) =
       Rejected (Error ''no gate - connected not called?'') \<and>
     sent (snd (unsub opts b tps s)) = []"
proof -
  have "never_connected s"
    using assms never_connected_new_Pubs by (simp add: never_connected_run)
  then have "g_promise (gates s (gate s)) = None" "sent s = []"
    by (simp_all add: never_connected_def)
  then show ?thesis
    by (simp add: sub_def unsub_def pubsub_no_gate)
qed

text \<open>
  The theorem after a send and an unsubscribe that both fail for lack of a connection:
  the promise of the following \<open>sub\<close> is rejected and nothing was sent.
\<close>

theorem sub_before_connect_witness:
  "list_all (\<lambda>bi. \<not> calls_connect bi) [(quiet, Call_send ping 0), (quiet, Call_unsub [''b''])] \<and>
   sub_promises
     (snd (sub PubsInit_options quiet [''a'']
        (run PubsInit_options [(quiet, Call_send ping 0), (quiet, Call_unsub [''b''])] new_Pubs))) 1 =
     Rejected (Error ''no gate - connected not called?'') \<and>
   sent (snd (sub PubsInit_options quiet [''a'']
        (run PubsInit_options [(quiet, Call_send ping 0), (quiet, Call_unsub [''b''])] new_Pubs))) = []"
proof -
  have l: "list_all (\<lambda>bi. \<not> calls_connect bi) [(quiet, Call_send ping 0), (quiet, Call_unsub [''b''])]"
    by (simp add: calls_connect_def)
  have f: "fst (sub PubsInit_options quiet [''a'']
        (run PubsInit_options [(quiet, Call_send ping 0), (quiet, Call_unsub [''b''])] new_Pubs)) = 1"
    by (simp add: sub_def unsub_def pubsub_def Let_def step_def new_Pubs_def empty_gate_def
          sendStreamWebSocketPayload_def reject_send_def reject_sub_def)
  from sub_before_connect [OF l refl, of PubsInit_options quiet "[''a'']"] l f
  show ?thesis by simp
qed

subsection \<open>C8: the correlation counter\<close>

lemma ids_inv_update [simp]:
  "ids_inv (s\<lparr>connecting := x0\<rparr>) = ids_inv s"
  "ids_inv (s\<lparr>connected := x1\<rparr>) = ids_inv s"
  "ids_inv (s\<lparr>reconnecting := x2\<rparr>) = ids_inv s"
  "ids_inv (s\<lparr>socket := x3\<rparr>) = ids_inv s"
  "ids_inv (s\<lparr>closing := x4\<rparr>) = ids_inv s"
  "ids_inv (s\<lparr>reconnector := x5\<rparr>) = ids_inv s"
  "ids_inv (s\<lparr>reconnectAttempts := x6\<rparr>) = ids_inv s"
  "ids_inv (s\<lparr>replyHandlers := x7\<rparr>) = ids_inv s"
  "ids_inv (s\<lparr>gate := x8\<rparr>) = ids_inv s"
  "ids_inv (s\<lparr>timers := x10\<rparr>) = ids_inv s"
  "ids_inv (s\<lparr>next_timer := x11\<rparr>) = ids_inv s"
  "ids_inv (s\<lparr>gates := x12\<rparr>) = ids_inv s"
  "ids_inv (s\<lparr>connect_promises := x13\<rparr>) = ids_inv s"
  "ids_inv (s\<lparr>fetching := x14\<rparr>) = ids_inv s"
  "ids_inv (s\<lparr>next_call := x15\<rparr>) = ids_inv s"
  "ids_inv (s\<lparr>attempts := x16\<rparr>) = ids_inv s"
  "ids_inv (s\<lparr>next_socket := x17\<rparr>) = ids_inv s"
  "ids_inv (s\<lparr>send_promises := x18\<rparr>) = ids_inv s"
  "ids_inv (s\<lparr>send_thens := x19\<rparr>) = ids_inv s"
  "ids_inv (s\<lparr>next_send := x20\<rparr>) = ids_inv s"
  "ids_inv (s\<lparr>sub_promises := x21\<rparr>) = ids_inv s"
  "ids_inv (s\<lparr>next_sub := x22\<rparr>) = ids_inv s"
  "ids_inv (s\<lparr>dispatched := x23\<rparr>) = ids_inv s"
  "ids_inv (s\<lparr>closed := x25\<rparr>) = ids_inv s"
  by (simp_all add: ids_inv_def sent_ids_def)

lemma ids_inv_frame [simp]:
  "ids_inv (clearTimeout i s) = ids_inv s"
  "ids_inv (dispatchEvent ev s) = ids_inv s"
  "ids_inv (dispatchStateChangedEvent s) = ids_inv s"
  "ids_inv (dispatchStreamEvent dat nfo s) = ids_inv s"
  "ids_inv (dispatchErrorEvent err s) = ids_inv s"
  "ids_inv (closeStreamWebsocket sock s) = ids_inv s"
  "ids_inv (resolve_sub p s) = ids_inv s"
  "ids_inv (reject_sub p e s) = ids_inv s"
  "ids_inv (resolve_send q m s) = ids_inv s"
  "ids_inv (reject_send q e s) = ids_inv s"
  "ids_inv (resolve_connect k s) = ids_inv s"
  "ids_inv (reject_connect k e s) = ids_inv s"
  "ids_inv (gateReject k s) = ids_inv s"
  "ids_inv (connect_reconnector opts b fast s) = ids_inv s"
  "ids_inv (reject_attempt opts b a e s) = ids_inv s"
  "ids_inv (connectStreamWebSocket opts b recon k s) = ids_inv s"
  "ids_inv (connect_timeout_fired opts b sock s) = ids_inv s"
  "ids_inv (onclose opts b sock s) = ids_inv s"
  "ids_inv (onerror sock s) = ids_inv s"
  "ids_inv (snd (connect opts s)) = ids_inv s"
  "ids_inv (connect_fetched opts b k r s) = ids_inv s"
  "ids_inv (handleStreamWebSocketMessage sock m s) = ids_inv s"
  by (simp_all add: ids_inv_def sent_ids_def)

lemma js_incr_mono: "n \<le> js_incr n"
  by (simp add: js_incr_def)

lemma js_incr_below: "js_incr n < 2 ^ 53 \<Longrightarrow> js_incr n = Suc n"
  by (simp add: js_incr_def split: if_splits)

lemma seq_mono_send:
  "websocketSequence s \<le> websocketSequence (snd (sendStreamWebSocketPayload opts b payload rt ts s))"
  by (simp add: sendStreamWebSocketPayload_def Let_def setTimeout_def reject_send_def js_incr_mono
        split: option.splits)

lemma seq_mono_run_thens: "websocketSequence s \<le> websocketSequence (run_thens opts b ws s)"
proof (induction ws arbitrary: s)
  case Nil
  show ?case by simp
next
  case (Cons w ws)
  obtain payload p where w: "w = (payload, p)"
    by (cases w)
  have "websocketSequence s \<le>
      websocketSequence (snd (sendStreamWebSocketPayload opts b payload 0 (Some p) s))"
    by (rule seq_mono_send)
  also have "\<dots> \<le> websocketSequence
      (run_thens opts b ws (snd (sendStreamWebSocketPayload opts b payload 0 (Some p) s)))"
    by (rule Cons.IH)
  finally show ?case by (simp add: w)
qed

lemma seq_mono_gateResolve: "websocketSequence s \<le> websocketSequence (gateResolve opts b k s)"
  using seq_mono_run_thens [of "s\<lparr>gates := (gates s)(k := (gates s k)\<lparr>g_promise := Some (Fulfilled ()), g_thens := []\<rparr>)\<rparr>"]
  by (simp add: gateResolve_def Let_def)

lemma seq_mono_resolve_attempt:
  "websocketSequence s \<le> websocketSequence (resolve_attempt opts b a s)"
proof (cases "a_promise (attempts s a) = Pending")
  case True
  let ?s3 = "resolve_connect (a_call (attempts s a))
      (s\<lparr>attempts := (attempts s)(a := (attempts s a)\<lparr>a_promise := Fulfilled a\<rparr>),
         reconnectAttempts := 0,
         gates := (gates s)(a_call (attempts s a) := (gates s (a_call (attempts s a)))\<lparr>g_reject := False\<rparr>)\<rparr>)"
  have "websocketSequence ?s3 \<le> websocketSequence (gateResolve opts b (a_call (attempts s a)) ?s3)"
    by (rule seq_mono_gateResolve)
  with True show ?thesis by (simp add: resolve_attempt_def Let_def)
next
  case False
  then show ?thesis by (simp add: resolve_attempt_def Let_def)
qed

lemma seq_mono_onopen: "websocketSequence s \<le> websocketSequence (onopen opts b sock s)"
proof -
  let ?s3 = "(dispatchStateChangedEvent
      ((clearTimeout (a_timeout (attempts s sock)) s)\<lparr>connected := True, connecting := False\<rparr>))
      \<lparr>attempts := (attempts s)(sock := (attempts s sock)\<lparr>a_onmessage := True\<rparr>)\<rparr>"
  have "websocketSequence ?s3 \<le> websocketSequence (resolve_attempt opts b sock ?s3)"
    by (rule seq_mono_resolve_attempt)
  then show ?thesis by (simp add: onopen_def Let_def)
qed

lemma seq_mono_pubsub: "websocketSequence s \<le> websocketSequence (snd (pubsub opts b ty tps s))"
proof -
  let ?s0 = "s\<lparr>sub_promises := (sub_promises s)(next_sub s := Pending), next_sub := Suc (next_sub s)\<rparr>"
  have "websocketSequence ?s0 \<le>
      websocketSequence (snd (sendStreamWebSocketPayload opts b payload 0 (Some (next_sub s)) ?s0))"
    for payload
    by (rule seq_mono_send)
  then show ?thesis
    by (simp add: pubsub_def Let_def split: option.splits promise.splits)
qed

lemma seq_mono_run_task: "websocketSequence s \<le> websocketSequence (run_task opts b t s)"
  by (simp add: run_task_def split: task.splits)

lemma seq_mono_fire: "websocketSequence s \<le> websocketSequence (fire opts b i s)"
  using seq_mono_run_task [of "clearTimeout i s"]
  by (simp add: fire_def split: option.splits)

lemma seq_mono_step: "websocketSequence s \<le> websocketSequence (step opts bi s)"
  by (cases "snd bi")
     (simp_all add: step_def Let_def sub_def unsub_def seq_mono_pubsub seq_mono_send seq_mono_onopen
        seq_mono_fire)


lemma ids_inv_raise:
  "ids_inv s \<Longrightarrow> websocketSequence s \<le> n \<Longrightarrow> ids_inv (s\<lparr>websocketSequence := n\<rparr>)"
  unfolding ids_inv_def sent_ids_def by (simp, fastforce)

lemma ids_inv_sent:
  assumes "ids_inv r" and "sent r = xs" and "websocketSequence r < n" and "state e = String_of n"
  shows "ids_inv (r\<lparr>websocketSequence := n, sent := xs @ [(sock, e)]\<rparr>)"
proof -
  from assms(1) obtain ns where ns: "sent_ids r = map String_of ns" "sorted_wrt (<) ns"
      "\<forall>m \<in> set ns. m \<le> websocketSequence r"
    by (auto simp: ids_inv_def)
  have "map (\<lambda>e. state (snd e)) (xs @ [(sock, e)]) = map String_of (ns @ [n])"
    using ns(1) assms(2,4) by (simp add: sent_ids_def)
  moreover have "sorted_wrt (<) (ns @ [n])"
    using ns(2,3) assms(3) by (fastforce simp: sorted_wrt_append)
  moreover have "\<forall>m \<in> set (ns @ [n]). m \<le> n"
    using ns(3) assms(3) by fastforce
  ultimately have "\<exists>ms. map (\<lambda>e. state (snd e)) (xs @ [(sock, e)]) = map String_of ms \<and>
      sorted_wrt (<) ms \<and> (\<forall>m \<in> set ms. m \<le> n)"
    by blast
  then show ?thesis
    by (simp add: ids_inv_def sent_ids_def)
qed

lemma ids_inv_send:
  assumes "ids_inv s"
    and "websocketSequence (snd (sendStreamWebSocketPayload opts b payload rt ts s)) < 2 ^ 53"
  shows "ids_inv (snd (sendStreamWebSocketPayload opts b payload rt ts s))"
proof -
  let ?n = "js_incr (websocketSequence s)"
  let ?s0 = "s\<lparr>send_promises := (send_promises s)(next_send s := Pending),
      send_thens := (send_thens s)(next_send s := ts), next_send := Suc (next_send s)\<rparr>"
  have i0: "ids_inv ?s0"
    using assms(1) by simp
  show ?thesis
  proof (cases "connected s \<and> socket s \<noteq> None \<and> \<not> closing s")
    case False
    with i0 show ?thesis
      by (auto simp: sendStreamWebSocketPayload_def Let_def split: option.splits)
  next
    case True
    then obtain sock where sock: "socket s = Some sock"
      by auto
    from True sock assms(2) have "?n < 2 ^ 53"
      by (simp add: sendStreamWebSocketPayload_def Let_def setTimeout_def split: if_splits)
    then have n: "?n = Suc (websocketSequence s)"
      by (rule js_incr_below)
    show ?thesis
    proof (cases "send_throws b (String_of ?n)")
      case throws: True
      have "ids_inv (?s0\<lparr>websocketSequence := ?n\<rparr>)"
        using i0 by (rule ids_inv_raise) (simp add: n)
      with True sock throws show ?thesis
        by (simp add: sendStreamWebSocketPayload_def Let_def)
    next
      case ok: False
      have "ids_inv (?s0\<lparr>websocketSequence := ?n,
          sent := sent s @ [(sock, payload\<lparr>state := String_of ?n\<rparr>)]\<rparr>)"
        using i0 by (rule ids_inv_sent) (simp_all add: n)
      with True sock ok show ?thesis
        by (simp add: sendStreamWebSocketPayload_def Let_def setTimeout_def)
    qed
  qed
qed

lemma ids_inv_run_thens:
  "ids_inv s \<Longrightarrow> websocketSequence (run_thens opts b ws s) < 2 ^ 53 \<Longrightarrow>
   ids_inv (run_thens opts b ws s)"
proof (induction ws arbitrary: s)
  case Nil
  then show ?case by simp
next
  case (Cons w ws)
  obtain payload p where w: "w = (payload, p)"
    by (cases w)
  let ?s = "snd (sendStreamWebSocketPayload opts b payload 0 (Some p) s)"
  have "websocketSequence ?s \<le> websocketSequence (run_thens opts b ws ?s)"
    by (rule seq_mono_run_thens)
  with Cons.prems(2) w have "websocketSequence ?s < 2 ^ 53"
    by simp
  with Cons.prems(1) have "ids_inv ?s"
    by (rule ids_inv_send)
  with Cons.prems(2) w show ?case
    by (simp add: Cons.IH)
qed

lemma ids_inv_gateResolve:
  "ids_inv s \<Longrightarrow> websocketSequence (gateResolve opts b k s) < 2 ^ 53 \<Longrightarrow>
   ids_inv (gateResolve opts b k s)"
  by (simp add: gateResolve_def Let_def ids_inv_run_thens split: if_splits)

lemma ids_inv_resolve_attempt:
  "ids_inv s \<Longrightarrow> websocketSequence (resolve_attempt opts b a s) < 2 ^ 53 \<Longrightarrow>
   ids_inv (resolve_attempt opts b a s)"
  by (simp add: resolve_attempt_def Let_def ids_inv_gateResolve split: if_splits)

lemma ids_inv_onopen:
  "ids_inv s \<Longrightarrow> websocketSequence (onopen opts b sock s) < 2 ^ 53 \<Longrightarrow>
   ids_inv (onopen opts b sock s)"
  by (simp add: onopen_def Let_def ids_inv_resolve_attempt split: if_splits)

lemma ids_inv_pubsub:
  "ids_inv s \<Longrightarrow> websocketSequence (snd (pubsub opts b ty tps s)) < 2 ^ 53 \<Longrightarrow>
   ids_inv (snd (pubsub opts b ty tps s))"
  by (simp add: pubsub_def Let_def ids_inv_send split: option.splits promise.splits)

lemma ids_inv_run_task:
  "ids_inv s \<Longrightarrow> ids_inv (run_task opts b t s)"
  by (simp add: run_task_def split: task.splits)

lemma ids_inv_fire: "ids_inv s \<Longrightarrow> ids_inv (fire opts b i s)"
  by (simp add: fire_def ids_inv_run_task split: option.splits)

lemma ids_inv_step:
  "ids_inv s \<Longrightarrow> websocketSequence (step opts bi s) < 2 ^ 53 \<Longrightarrow> ids_inv (step opts bi s)"
  by (cases "snd bi")
     (simp_all add: step_def Let_def sub_def unsub_def ids_inv_pubsub ids_inv_send ids_inv_onopen
        ids_inv_fire split: if_splits)

lemma ids_inv_new_Pubs: "ids_inv new_Pubs"
  by (simp add: ids_inv_def sent_ids_def new_Pubs_def)

text \<open>Two instances.\<close>

lemma two_instances_step2: "two_instances (step2 opts wbi w)"
  by (simp add: step2_def on_first_def on_second_def two_instances_def Let_def split: which.splits)

lemma seq_mono_step2:
  "two_instances w \<Longrightarrow>
   websocketSequence (fst w) \<le> websocketSequence (fst (step2 opts wbi w))"
  using seq_mono_step [of "fst w" opts "snd wbi"] seq_mono_step [of "snd w" opts "snd wbi"]
  by (simp add: step2_def on_first_def on_second_def two_instances_def Let_def split: which.splits)

lemma ids_inv_step2:
  assumes "two_instances w" and "ids_inv (fst w)" and "ids_inv (snd w)"
    and "websocketSequence (fst (step2 opts wbi w)) < 2 ^ 53"
  shows "ids_inv (fst (step2 opts wbi w)) \<and> ids_inv (snd (step2 opts wbi w))"
proof (cases "fst wbi")
  case First
  let ?a = "step opts (snd wbi) (fst w)"
  from First assms(4) have lt: "websocketSequence ?a < 2 ^ 53"
    by (simp add: step2_def on_first_def Let_def)
  with assms(2) have a: "ids_inv ?a"
    by (rule ids_inv_step)
  have "websocketSequence (snd w) \<le> websocketSequence ?a"
    using assms(1) seq_mono_step [of "fst w" opts "snd wbi"] by (simp add: two_instances_def)
  with assms(3) have "ids_inv ((snd w)\<lparr>websocketSequence := websocketSequence ?a\<rparr>)"
    by (rule ids_inv_raise)
  with a First show ?thesis
    by (simp add: step2_def on_first_def Let_def)
next
  case Second
  let ?c = "step opts (snd wbi) (snd w)"
  from Second assms(4) have lt: "websocketSequence ?c < 2 ^ 53"
    by (simp add: step2_def on_second_def Let_def)
  with assms(3) have c: "ids_inv ?c"
    by (rule ids_inv_step)
  have "websocketSequence (fst w) \<le> websocketSequence ?c"
    using assms(1) seq_mono_step [of "snd w" opts "snd wbi"] by (simp add: two_instances_def)
  with assms(2) have "ids_inv ((fst w)\<lparr>websocketSequence := websocketSequence ?c\<rparr>)"
    by (rule ids_inv_raise)
  with c Second show ?thesis
    by (simp add: step2_def on_second_def Let_def)
qed

lemma two_instances_run2: "two_instances w \<Longrightarrow> two_instances (run2 opts ins w)"
  by (induction ins arbitrary: w) (simp_all add: two_instances_step2)

lemma seq_mono_run2:
  "two_instances w \<Longrightarrow> websocketSequence (fst w) \<le> websocketSequence (fst (run2 opts ins w))"
proof (induction ins arbitrary: w)
  case Nil
  show ?case by simp
next
  case (Cons wbi ins)
  have "websocketSequence (fst w) \<le> websocketSequence (fst (step2 opts wbi w))"
    using Cons.prems by (rule seq_mono_step2)
  also have "\<dots> \<le> websocketSequence (fst (run2 opts ins (step2 opts wbi w)))"
    by (rule Cons.IH) (rule two_instances_step2)
  finally show ?case by simp
qed

lemma ids_inv_run2:
  "two_instances w \<Longrightarrow> ids_inv (fst w) \<Longrightarrow> ids_inv (snd w) \<Longrightarrow>
   websocketSequence (fst (run2 opts ins w)) < 2 ^ 53 \<Longrightarrow>
   two_instances (run2 opts ins w) \<and> ids_inv (fst (run2 opts ins w)) \<and> ids_inv (snd (run2 opts ins w))"
proof (induction ins arbitrary: w)
  case Nil
  then show ?case by simp
next
  case (Cons wbi ins)
  let ?w = "step2 opts wbi w"
  have t: "two_instances ?w"
    by (rule two_instances_step2)
  have "websocketSequence (fst ?w) \<le> websocketSequence (fst (run2 opts ins ?w))"
    using t by (rule seq_mono_run2)
  with Cons.prems(4) have "websocketSequence (fst ?w) < 2 ^ 53"
    by simp
  with Cons.prems have "ids_inv (fst ?w) \<and> ids_inv (snd ?w)"
    by (intro ids_inv_step2)
  with t Cons.prems(4) show ?case
    by (simp add: Cons.IH)
qed


lemma send_transmits:
  assumes "connected s" and "socket s = Some sock" and "\<not> closing s"
    and "websocketSequence s < 2 ^ 53"
  shows "websocketSequence (snd (sendStreamWebSocketPayload opts b payload rt ts s)) =
           websocketSequence s + 1"
    and "\<not> send_throws b (String_of (websocketSequence s + 1)) \<Longrightarrow>
         sent (snd (sendStreamWebSocketPayload opts b payload rt ts s)) =
           sent s @ [(sock, payload\<lparr>state := String_of (websocketSequence s + 1)\<rparr>)]"
  using assms
  by (simp_all add: sendStreamWebSocketPayload_def Let_def setTimeout_def reject_send_def js_incr_def)

text \<open>
  Claim C8 says that the correlation counter is owned by each instance, so that sends on
  one instance leave the ids of another unchanged, and that the ids of one instance
  increase monotonically. The counter is the variable \<open>websocketSequence\<close> of the
  module. As amended: the counter is shared by the instances of the module; a send on
  either instance that passes the connection check advances it by one (below \<open>2^53\<close>)
  for both, and the envelope it transmits carries the new value in decimal; and in every
  state two instances reach from their constructors, as long as the counter is below
  \<open>2^53\<close>, the ids each instance has sent are the decimal forms of strictly increasing
  numbers.
\<close>

theorem correlation_counter_shared:
  "(let w = run2 opts ins (new_Pubs, new_Pubs)
    in two_instances w \<and>
       (websocketSequence (fst w) < 2 ^ 53 \<longrightarrow> ids_inv (fst w) \<and> ids_inv (snd w))) \<and>
   (two_instances v \<and> connected (fst v) \<and> socket (fst v) = Some sock \<and> \<not> closing (fst v) \<and>
    websocketSequence (fst v) < 2 ^ 53 \<longrightarrow>
      (let v1 = on_first (\<lambda>s. snd (sendStreamWebSocketPayload opts b payload rt ts s)) v
       in websocketSequence (fst v1) = websocketSequence (fst v) + 1 \<and>
          websocketSequence (snd v1) = websocketSequence (snd v) + 1 \<and>
          (\<not> send_throws b (String_of (websocketSequence (fst v) + 1)) \<longrightarrow>
             sent (fst v1) =
               sent (fst v) @
                 [(sock, payload\<lparr>state := String_of (websocketSequence (fst v) + 1)\<rparr>)]))) \<and>
   (two_instances v \<and> connected (snd v) \<and> socket (snd v) = Some sock \<and> \<not> closing (snd v) \<and>
    websocketSequence (snd v) < 2 ^ 53 \<longrightarrow>
      (let v1 = on_second (\<lambda>s. snd (sendStreamWebSocketPayload opts b payload rt ts s)) v
       in websocketSequence (snd v1) = websocketSequence (snd v) + 1 \<and>
          websocketSequence (fst v1) = websocketSequence (fst v) + 1 \<and>
          (\<not> send_throws b (String_of (websocketSequence (snd v) + 1)) \<longrightarrow>
             sent (snd v1) =
               sent (snd v) @
                 [(sock, payload\<lparr>state := String_of (websocketSequence (snd v) + 1)\<rparr>)])))"
proof -
  have start: "two_instances (new_Pubs, new_Pubs)" "ids_inv (fst (new_Pubs, new_Pubs))"
    "ids_inv (snd (new_Pubs, new_Pubs))"
    by (simp_all add: two_instances_def ids_inv_new_Pubs)
  let ?w = "run2 opts ins (new_Pubs, new_Pubs)"
  have two: "two_instances ?w"
    using start(1) by (rule two_instances_run2)
  have ids: "ids_inv (fst ?w) \<and> ids_inv (snd ?w)" if "websocketSequence (fst ?w) < 2 ^ 53"
    using ids_inv_run2 [OF start that] by simp
  have first: "let v1 = on_first (\<lambda>s. snd (sendStreamWebSocketPayload opts b payload rt ts s)) v
       in websocketSequence (fst v1) = websocketSequence (fst v) + 1 \<and>
          websocketSequence (snd v1) = websocketSequence (snd v) + 1 \<and>
          (\<not> send_throws b (String_of (websocketSequence (fst v) + 1)) \<longrightarrow>
             sent (fst v1) =
               sent (fst v) @
                 [(sock, payload\<lparr>state := String_of (websocketSequence (fst v) + 1)\<rparr>)])"
    if "two_instances v" "connected (fst v)" "socket (fst v) = Some sock" "\<not> closing (fst v)"
      "websocketSequence (fst v) < 2 ^ 53"
    using that send_transmits [OF that(2-5), where opts = opts and b = b and payload = payload and rt = rt and ts = ts]
    by (simp add: on_first_def Let_def two_instances_def)
  have second: "let v1 = on_second (\<lambda>s. snd (sendStreamWebSocketPayload opts b payload rt ts s)) v
       in websocketSequence (snd v1) = websocketSequence (snd v) + 1 \<and>
          websocketSequence (fst v1) = websocketSequence (fst v) + 1 \<and>
          (\<not> send_throws b (String_of (websocketSequence (snd v) + 1)) \<longrightarrow>
             sent (snd v1) =
               sent (snd v) @
                 [(sock, payload\<lparr>state := String_of (websocketSequence (snd v) + 1)\<rparr>)])"
    if "two_instances v" "connected (snd v)" "socket (snd v) = Some sock" "\<not> closing (snd v)"
      "websocketSequence (snd v) < 2 ^ 53"
    using that send_transmits [OF that(2-5), where opts = opts and b = b and payload = payload and rt = rt and ts = ts]
    by (simp add: on_second_def Let_def two_instances_def)
  show ?thesis
    unfolding Let_def using two ids first [unfolded Let_def] second [unfolded Let_def] by blast
qed


text \<open>
  The theorem on two connected instances: a send on the first transmits id \<open>1\<close> and
  leaves the counter at 1 for the second; and on two fresh instances after one
  \<open>connect()\<close>.
\<close>

theorem correlation_counter_shared_witness:
  "two_instances two_connected \<and> connected (fst two_connected) \<and>
   socket (fst two_connected) = Some 0 \<and> \<not> closing (fst two_connected) \<and>
   websocketSequence (fst two_connected) < 2 ^ 53 \<and>
   websocketSequence (snd (on_first send_ping two_connected)) = 1 \<and>
   sent (fst (on_first send_ping two_connected)) = [(0, ping\<lparr>state := ''1''\<rparr>)] \<and>
   websocketSequence (fst (run2 PubsInit_options [(First, quiet, Call_connect)] (new_Pubs, new_Pubs))) < 2 ^ 53 \<and>
   ids_inv (fst (run2 PubsInit_options [(First, quiet, Call_connect)] (new_Pubs, new_Pubs)))"
proof -
  have c: "two_instances two_connected" "connected (fst two_connected)"
    "socket (fst two_connected) = Some 0" "\<not> closing (fst two_connected)"
    "websocketSequence (fst two_connected) < 2 ^ 53"
    "websocketSequence (fst two_connected) = 0" "websocketSequence (snd two_connected) = 0"
    "sent (fst two_connected) = []" "\<not> send_throws quiet x" for x
    by (simp_all add: two_connected_def two_instances_def connected_Pubs_fields quiet_def)
  have f: "send_ping = (\<lambda>s. snd (sendStreamWebSocketPayload PubsInit_options quiet ping 0 None s))"
    by (rule ext) (simp add: send_ping_def)
  have n: "websocketSequence
      (fst (run2 PubsInit_options [(First, quiet, Call_connect)] (new_Pubs, new_Pubs))) < 2 ^ 53"
    by (simp add: step2_def on_first_def Let_def step_def new_Pubs_def)
  note t = correlation_counter_shared [where opts = PubsInit_options and b = quiet and payload = ping
      and rt = 0 and ts = None and v = two_connected and sock = 0
      and ins = "[(First, quiet, Call_connect)]", unfolded Let_def, folded f]
  from t c have 1: "websocketSequence (snd (on_first send_ping two_connected)) = 1"
    by simp
  from t c have 2: "sent (fst (on_first send_ping two_connected)) = [(0, ping\<lparr>state := ''1''\<rparr>)]"
    by (simp add: String_of.simps digit_def)
  from t n have 3: "ids_inv (fst (run2 PubsInit_options [(First, quiet, Call_connect)] (new_Pubs, new_Pubs)))"
    by blast
  from c(1-5) 1 2 n 3 show ?thesis by blast
qed

text \<open>
  The claim as stated fails: the second instance's first send carries id \<open>1\<close> when the
  first instance has sent nothing, and id \<open>2\<close> when the first instance has sent one
  envelope before.
\<close>

theorem second_instance_sees_first_counterexample:
  "sent_ids (snd (on_second send_ping two_connected)) = [''1''] \<and>
   sent_ids (snd (on_second send_ping (on_first send_ping two_connected))) = [''2'']"
  by (simp add: on_first_def on_second_def Let_def two_connected_def send_ping_def sent_ids_def
        sendStreamWebSocketPayload_def connected_Pubs_fields setTimeout_def js_incr_def
        String_of.simps digit_def quiet_def PubsInit_options_def)

subsection \<open>C10: the promise of a subscription never rejects\<close>

lemma opening_Pubs_fields:
  "gate opening_Pubs = 1" "g_promise (gates opening_Pubs 1) = Some Pending"
  "g_promise (gates opening_Pubs (gate opening_Pubs)) = Some Pending"
  "next_sub opening_Pubs = 0"
  by (simp_all add: opening_Pubs_def scenario_defs)

lemma gate_lost_rejects:
  "g_promise (gates (run PubsInit_options gate_lost
      (snd (pubsub PubsInit_options quiet ''sub'' [''a''] opening_Pubs))) 1) =
   Some (Rejected Undefined)"
  by (simp add: opening_Pubs_def gate_lost_def scenario_defs pubsub_def onerror_def fire_def
        run_task_def reject_attempt_def reject_connect_def gateReject_def)

lemma dropped_Pubs_fields:
  "gate dropped_Pubs = 1" "g_promise (gates dropped_Pubs 1) = Some (Fulfilled ())"
  "g_promise (gates dropped_Pubs (gate dropped_Pubs)) = Some (Fulfilled ())"
  "next_sub dropped_Pubs = 0" "\<not> connected dropped_Pubs" "socket dropped_Pubs = None"
  "timers dropped_Pubs = [(2, Finite 1000, Reconnect)]"
  by (simp_all add: dropped_Pubs_def scenario_defs onclose_def)

text \<open>
  Claim C10: once a connection gate exists, the promise returned by \<open>sub\<close> or
  \<open>unsub\<close> never rejects; when the gate's promise rejects or the send fails (no
  connection, an exception of the socket, the acknowledgement timeout), the promise is
  neither resolved nor rejected and stays pending for ever. Here, for a state \<open>s\<close> the
  instance reaches from its constructor and whose current gate has a promise:
  \<^item> whatever inputs follow, the promise returned by \<open>sub\<close>, and by \<open>unsub\<close>, is not
    rejected;
  \<^item> whatever inputs follow, once the promise of the gate the call used is rejected,
    nothing is left that could settle the promise returned;
  \<^item> whatever inputs follow, once that gate is fulfilled, the promise returned is still
    pending and every send made for it has settled, nothing is left that could settle it;
  \<^item> with the gate pending, the promise waits on that gate, and when \<open>gateReject\<close> runs
    on a gate it waits on, nothing is left that could settle it;
  \<^item> with the gate already rejected, nothing can settle it from the start;
  \<^item> with the gate fulfilled, the send is made at once: if it cannot be transmitted
    (not connected, no socket, closing, or the socket throws) nothing can settle the
    promise; otherwise it waits on the send promise, and when the acknowledgement timeout
    of that send fires, nothing is left that could settle it;
  \<^item> a promise that nothing can settle is pending after any further inputs.
\<close>

theorem subscription_never_rejects:
  assumes "s = run opts ins new_Pubs" and "g_promise (gates s (gate s)) \<noteq> None"
  shows
    "(\<forall>later. \<not> rejected (sub_promises (run opts later (snd (sub opts b tps s)))
                              (fst (sub opts b tps s)))) \<and>
     (\<forall>later. \<not> rejected (sub_promises (run opts later (snd (unsub opts b tps s)))
                              (fst (unsub opts b tps s)))) \<and>
     (let p = fst (pubsub opts b ty tps s); s1 = snd (pubsub opts b ty tps s)
      in (\<forall>later e. g_promise (gates (run opts later s1) (gate s)) = Some (Rejected e) \<longrightarrow>
            abandoned p (run opts later s1)) \<and>
         (\<forall>later. g_promise (gates (run opts later s1) (gate s)) = Some (Fulfilled ()) \<and>
                  sub_promises (run opts later s1) p = Pending \<and>
                  (\<forall>q. send_thens (run opts later s1) q = Some p \<longrightarrow>
                         send_promises (run opts later s1) q \<noteq> Pending) \<longrightarrow>
            abandoned p (run opts later s1)) \<and>
         (g_promise (gates s (gate s)) = Some Pending \<longrightarrow> waiting p (gate s) s1) \<and>
         (\<forall>e. g_promise (gates s (gate s)) = Some (Rejected e) \<longrightarrow> abandoned p s1) \<and>
         (g_promise (gates s (gate s)) = Some (Fulfilled ()) \<longrightarrow>
            (if send_possible b s then in_flight p (next_send s) s1 else abandoned p s1)) \<and>
         (\<forall>t g. waiting p g t \<longrightarrow> abandoned p (gateReject g t)) \<and>
         (\<forall>t q. in_flight p q t \<longrightarrow> abandoned p (run_task opts b (Reply_timeout q) t)) \<and>
         (\<forall>t later. abandoned p t \<longrightarrow> sub_promises (run opts later t) p = Pending))"
proof -
  have f: "fresh_inv s"
    using assms(1) by (simp add: fresh_inv_reachable)
  have lt: "gate s < next_call s"
    using assms(1) by (simp add: gate_lt_reachable)
  have never: "\<not> rejected (sub_promises (run opts later (snd (pubsub opts b kind tps s)))
                              (fst (pubsub opts b kind tps s)))" for later kind
    using unrejected_run [OF pubsub_unrejected [OF assms(2)]]
    by (simp add: unrejected_def)
  let ?p = "fst (pubsub opts b ty tps s)" and ?s1 = "snd (pubsub opts b ty tps s)"
  have tr: "track ?p (gate s) (run opts later ?s1)" for later
    using track_run [OF pubsub_track [OF f lt assms(2)]] by simp
  have 7: "abandoned ?p (run opts later ?s1)"
    if "g_promise (gates (run opts later ?s1) (gate s)) = Some (Rejected e)" for later e
    using tr that by (rule track_gate_rejected)
  have 8: "abandoned ?p (run opts later ?s1)"
    if "g_promise (gates (run opts later ?s1) (gate s)) = Some (Fulfilled ()) \<and>
        sub_promises (run opts later ?s1) ?p = Pending \<and>
        (\<forall>q. send_thens (run opts later ?s1) q = Some ?p \<longrightarrow>
               send_promises (run opts later ?s1) q \<noteq> Pending)" for later
    using track_sends_settled [OF tr] that by blast
  have 1: "waiting ?p (gate s) ?s1" if "g_promise (gates s (gate s)) = Some Pending"
    using pubsub_waiting [OF f that] by simp
  have 2: "abandoned ?p ?s1" if "g_promise (gates s (gate s)) = Some (Rejected e)" for e
    using pubsub_gate_rejected [OF f that] by simp
  have 3: "if send_possible b s then in_flight ?p (next_send s) ?s1 else abandoned ?p ?s1"
    if "g_promise (gates s (gate s)) = Some (Fulfilled ())"
    using pubsub_sent [OF f that] pubsub_send_fails [OF f that] by simp
  have 4: "abandoned ?p (gateReject g t)" if "waiting ?p g t" for t g
    using that by (rule waiting_gateReject)
  have 5: "abandoned ?p (run_task opts b (Reply_timeout q) t)" if "in_flight ?p q t" for t q
    using in_flight_reject_send [OF that] by (simp add: run_task_def)
  have 6: "sub_promises (run opts later t) ?p = Pending" if "abandoned ?p t" for t later
    using abandoned_run [OF that] by (rule abandoned_pending)
  have a: "\<forall>later e. g_promise (gates (run opts later ?s1) (gate s)) = Some (Rejected e) \<longrightarrow>
            abandoned ?p (run opts later ?s1)"
    using 7 by blast
  have b: "\<forall>later. g_promise (gates (run opts later ?s1) (gate s)) = Some (Fulfilled ()) \<and>
                  sub_promises (run opts later ?s1) ?p = Pending \<and>
                  (\<forall>q. send_thens (run opts later ?s1) q = Some ?p \<longrightarrow>
                         send_promises (run opts later ?s1) q \<noteq> Pending) \<longrightarrow>
            abandoned ?p (run opts later ?s1)"
    using 8 by blast
  have c: "(\<forall>t g. waiting ?p g t \<longrightarrow> abandoned ?p (gateReject g t)) \<and>
         (\<forall>t q. in_flight ?p q t \<longrightarrow> abandoned ?p (run_task opts b (Reply_timeout q) t)) \<and>
         (\<forall>t later. abandoned ?p t \<longrightarrow> sub_promises (run opts later t) ?p = Pending)"
    using 4 5 6 by blast
  have d: "(g_promise (gates s (gate s)) = Some Pending \<longrightarrow> waiting ?p (gate s) ?s1) \<and>
         (\<forall>e. g_promise (gates s (gate s)) = Some (Rejected e) \<longrightarrow> abandoned ?p ?s1) \<and>
         (g_promise (gates s (gate s)) = Some (Fulfilled ()) \<longrightarrow>
            (if send_possible b s then in_flight ?p (next_send s) ?s1 else abandoned ?p ?s1))"
    using 1 2 3 by blast
  have n: "(\<forall>later. \<not> rejected (sub_promises (run opts later (snd (sub opts b tps s)))
                              (fst (sub opts b tps s)))) \<and>
     (\<forall>later. \<not> rejected (sub_promises (run opts later (snd (unsub opts b tps s)))
                              (fst (unsub opts b tps s))))"
    unfolding sub_def unsub_def using never by blast
  from n a b c d show ?thesis
    unfolding Let_def by (intro conjI) (erule conjunct1 conjunct2 | assumption | blast)+
qed

text \<open>
  The theorem on two scenarios: a subscription made before the socket has opened, whose
  gate is then rejected by the inputs \<open>gate_lost\<close>, and an unsubscription made after the
  socket has closed, whose send fails with \<open>no_connection\<close>. Both promises are still
  pending after the instance has connected again.
\<close>

theorem subscription_never_rejects_witness:
  "g_promise (gates opening_Pubs (gate opening_Pubs)) \<noteq> None \<and>
   g_promise (gates dropped_Pubs (gate dropped_Pubs)) = Some (Fulfilled ()) \<and>
   \<not> send_possible quiet dropped_Pubs \<and>
   \<not> rejected (sub_promises
        (run PubsInit_options [(quiet, Socket_error 0), (quiet, Timer 2)]
           (snd (sub PubsInit_options quiet [''a''] opening_Pubs))) 0) \<and>
   g_promise (gates (run PubsInit_options gate_lost
      (snd (pubsub PubsInit_options quiet ''sub'' [''a''] opening_Pubs))) 1) =
     Some (Rejected Undefined) \<and>
   sub_promises
     (run PubsInit_options [(quiet, Call_connect), (quiet, Fetched 3 handshake_ok), (quiet, Socket_open 1)]
        (run PubsInit_options gate_lost
           (snd (pubsub PubsInit_options quiet ''sub'' [''a''] opening_Pubs)))) 0 = Pending \<and>
   sub_promises
     (run PubsInit_options [(quiet, Timer 2), (quiet, Fetched 2 handshake_ok), (quiet, Socket_open 1)]
        (snd (pubsub PubsInit_options quiet ''unsub'' [''a''] dropped_Pubs))) 0 = Pending"
proof -
  let ?h = opening_Pubs and ?d = dropped_Pubs
  let ?hs = "snd (pubsub PubsInit_options quiet ''sub'' [''a''] ?h)"
  let ?ds = "snd (pubsub PubsInit_options quiet ''unsub'' [''a''] ?d)"
  have g0: "g_promise (gates ?h (gate ?h)) = Some Pending"
    and gh: "g_promise (gates ?h 1) = Some Pending"
    and gd: "g_promise (gates ?d (gate ?d)) = Some (Fulfilled ())"
    and np: "\<not> send_possible quiet ?d"
    by (rule opening_Pubs_fields(3), rule opening_Pubs_fields(2), rule dropped_Pubs_fields(3))
       (simp add: dropped_Pubs_fields send_possible_def)
  have p: "fst (sub PubsInit_options quiet [''a''] ?h) = 0"
    "fst (pubsub PubsInit_options quiet ''sub'' [''a''] ?h) = 0"
    "fst (pubsub PubsInit_options quiet ''unsub'' [''a''] ?d) = 0"
    "gate ?h = 1"
    by (simp_all add: sub_def opening_Pubs_fields dropped_Pubs_fields)
  note gl = gate_lost_rejects
  note h = subscription_never_rejects [where opts = PubsInit_options and b = quiet
      and ty = "''sub''" and tps = "[''a'']", OF opening_Pubs_def, unfolded Let_def p]
  note d = subscription_never_rejects [where opts = PubsInit_options and b = quiet
      and ty = "''unsub''" and tps = "[''a'']", OF dropped_Pubs_def, unfolded Let_def p]
  from h gh have 1: "\<not> rejected (sub_promises
        (run PubsInit_options [(quiet, Socket_error 0), (quiet, Timer 2)]
           (snd (sub PubsInit_options quiet [''a''] ?h))) 0)"
    by blast
  from h gh gl have "abandoned 0 (run PubsInit_options gate_lost ?hs)"
    by blast
  with h gh have 2: "sub_promises
     (run PubsInit_options [(quiet, Call_connect), (quiet, Fetched 3 handshake_ok), (quiet, Socket_open 1)]
        (run PubsInit_options gate_lost ?hs)) 0 = Pending"
    by blast
  from d gd np have "abandoned 0 ?ds"
    by (simp del: run.simps)
  with d gd have 3: "sub_promises
     (run PubsInit_options [(quiet, Timer 2), (quiet, Fetched 2 handshake_ok), (quiet, Socket_open 1)]
        ?ds) 0 = Pending"
    by blast
  from g0 gd np 1 gl 2 3 show ?thesis
    by (simp del: run.simps)
qed

end
